theory Spec2Isabelle
  imports Main "HOL-Library.Sublist"
begin

section \<open>The PDF blank-page remover: three source variants\<close>

text \<open>
  The repository holds three versions of one tool. \<^verbatim>\<open>CleanerBase.py\<close> works on a folder, on
  PyMuPDF documents, with a text pass followed by an OCR pass and a Stop button.
  \<^verbatim>\<open>CleanerBase1.py\<close> and \<^verbatim>\<open>CleanerBase2.py\<close> work on PyPDF2 readers and writers; their
  \<^verbatim>\<open>is_blank_page\<close> and \<^verbatim>\<open>process_pdf\<close> differ only in the module global
  \<^verbatim>\<open>OCR_TEXT_LENGTH_THRESHOLD\<close> (defined in the first, absent from the second) and in how
  the temporary file is named.

  Everything outside the Python source (the file system, the PDF libraries, the rasteriser,
  the OCR engine, the person pressing Stop) is a parameter: the record \<open>env\<close> says what each
  external call returns or raises, and the record \<open>world\<close> is the state the program changes.
  Each external call is appended to \<open>calls\<close>, so that "never invoked" and "written first, then
  moved" are statements about that list.
\<close>

subsection \<open>Strings\<close>

type_synonym path = string
type_synonym bytes = string

text \<open>
  \<^verbatim>\<open>str.strip()\<close> removes leading and trailing whitespace. A character here is a code point
  below 256, and a string's length is its number of code points, as \<^verbatim>\<open>len\<close> counts them.
  These twelve are the code points below 256 for which Python's \<^verbatim>\<open>str.isspace\<close> holds: tab
  to carriage return, the four separators 0x1C to 0x1F, the space, NEL (0x85) and the
  no-break space (0xA0).
\<close>

definition isspace :: "char \<Rightarrow> bool" where
  "isspace c \<longleftrightarrow> c \<in> set [CHR 0x09, CHR 0x0A, CHR 0x0B, CHR 0x0C, CHR 0x0D,
                            CHR 0x1C, CHR 0x1D, CHR 0x1E, CHR 0x1F, CHR 0x20,
                            CHR 0x85, CHR 0xA0]"

definition strip :: "string \<Rightarrow> string" where
  "strip s = rev (dropWhile isspace (rev (dropWhile isspace s)))"

subsection \<open>Exceptions, pages, the outside world\<close>

text \<open>
  Every handler in the three files is \<^verbatim>\<open>except Exception\<close>, so one type of exception values
  is enough; the constructors only keep apart the ones the model itself raises.
\<close>

datatype exn =
    NameError string
  | FileNotFoundError path
  | FileExistsError path
  | Library_error string

text \<open>
  A page is a read-only view. \<open>text_layer\<close> is what PyPDF2's \<^verbatim>\<open>extract_text()\<close> returns
  (the source guards against \<^verbatim>\<open>None\<close>); \<open>content\<close> stands for the rest of the page.
  Text extraction itself is taken to return.
\<close>

record page =
  content :: nat
  text_layer :: "string option"

type_synonym image = nat

datatype call =
    Copy path path
  | Open_pdf path
  | Rasterize path nat
  | Ocr path nat
  | Make_temp
  | Write_pdf path "page list"
  | Move path path
  | Remove path

text \<open>
  \<open>Rasterize p n\<close> is \<^verbatim>\<open>convert_from_path(p, first_page=n, last_page=n, ...)\<close>, \<open>Ocr p n\<close> is
  \<^verbatim>\<open>pytesseract.image_to_string\<close> on the first image of that page, \<open>Write_pdf p ps\<close> is the
  document writer (\<^verbatim>\<open>PdfWriter.write\<close> into \<^verbatim>\<open>open(p, "wb")\<close>, or PyMuPDF's \<^verbatim>\<open>save(p)\<close>)
  writing the pages \<open>ps\<close> to \<open>p\<close>.
\<close>

datatype dialog =
    Showerror string exn
  | Showwarning string
  | Showinfo_success nat nat
  | Showinfo string

text \<open>
  \<open>Showerror t e\<close> is \<^verbatim>\<open>messagebox.showerror("Error", f"<t>:\n{e}")\<close>; \<open>Showinfo_success t r\<close> is
  \<^verbatim>\<open>showinfo("Success", f"Modified PDF saved.\nTotal pages: {t}\nRemoved blank pages: {r}")\<close>.
\<close>

datatype log_line =
    Status_modified string nat nat
  | Status_no_changes string nat
  | Error_processing string exn

text \<open>
  The three lines \<^verbatim>\<open>CleanerBase.process_pdf\<close> writes to its log file:
  \<^verbatim>\<open>File: <b>, Total pages: <t>, Removed pages: <r>, Status: Modified\<close>,
  \<^verbatim>\<open>File: <b>, Total pages: <t>, Removed pages: 0, Status: No changes\<close> and
  \<^verbatim>\<open>Error processing <b>: <e>\<close>.
\<close>

record world =
  files :: "path \<Rightarrow> bytes option"
  calls :: "call list"
  shown :: "dialog list"
  log_file :: "log_line list"
  stop_requested :: bool

text \<open>
  A copy, a write or a move that raises may already have begun. A failure is the exception
  together with what the operation left at its destination: \<open>None\<close> when the destination is
  as it was, \<open>Some x\<close> when it now holds the bytes \<open>x\<close> (a truncated file, a partial copy).
\<close>

type_synonym failure = "exn \<times> bytes option"

record env =
  copy_raises :: "path \<Rightarrow> path \<Rightarrow> failure option"
  read_pdf :: "bytes \<Rightarrow> exn + page list"
  pdf_bytes :: "page list \<Rightarrow> bytes"
  write_raises :: "path \<Rightarrow> page list \<Rightarrow> failure option"
  move_raises :: "path \<Rightarrow> path \<Rightarrow> failure option"
  remove_raises :: "path \<Rightarrow> exn option"
  convert_from_path :: "path \<Rightarrow> nat \<Rightarrow> nat option \<Rightarrow> string option \<Rightarrow> exn + image list"
  image_to_string :: "image \<Rightarrow> string option \<Rightarrow> exn + string"
  named_temporary_file :: "exn + path"
  os_listdir :: "path \<Rightarrow> string list"
  stop_pressed :: "nat \<Rightarrow> bool"

text \<open>
  \<open>convert_from_path env p n dpi poppler\<close>: the images of page \<open>n\<close> (1-based) of the file at \<open>p\<close>,
  with the \<^verbatim>\<open>dpi\<close> and \<^verbatim>\<open>poppler_path\<close> keywords when given. \<open>image_to_string env i lang\<close>: the
  OCR text. \<open>read_pdf\<close> parses a file's bytes into pages (\<^verbatim>\<open>PdfReader\<close>, \<^verbatim>\<open>fitz.open\<close>),
  \<open>pdf_bytes\<close> is what the writer emits for a list of pages. \<open>copy_raises\<close>, \<open>write_raises\<close>
  and \<open>move_raises\<close> say whether the operation fails and how; a failing \<^verbatim>\<open>os.remove\<close> removes
  nothing.
\<close>

definition record_call :: "call \<Rightarrow> world \<Rightarrow> world" where
  "record_call c w = w\<lparr>calls := calls w @ [c]\<rparr>"

subsection \<open>CleanerBase1 and CleanerBase2: \<^verbatim>\<open>is_blank_page\<close>\<close>

datatype variant = CleanerBase1 | CleanerBase2

text \<open>
  Looking up the module global. \<^verbatim>\<open>CleanerBase1.py\<close> line 15 assigns 5; \<^verbatim>\<open>CleanerBase2.py\<close>
  never assigns the name, so evaluating it raises \<^verbatim>\<open>NameError\<close>.
\<close>

fun OCR_TEXT_LENGTH_THRESHOLD :: "variant \<Rightarrow> exn + nat" where
  "OCR_TEXT_LENGTH_THRESHOLD CleanerBase1 = Inr 5"
| "OCR_TEXT_LENGTH_THRESHOLD CleanerBase2 = Inl (NameError ''OCR_TEXT_LENGTH_THRESHOLD'')"

text \<open>Python truthiness of an optional string: \<^verbatim>\<open>if poppler_path:\<close>.\<close>

fun truthy :: "string option \<Rightarrow> bool" where
  "truthy None = False"
| "truthy (Some s) = (s \<noteq> [])"

text \<open>
  Lines 43 to 46: \<^verbatim>\<open>convert_from_path\<close> gets the \<^verbatim>\<open>poppler_path\<close> keyword when
  \<^verbatim>\<open>poppler_path\<close> is truthy and no such keyword otherwise.
\<close>

definition poppler_kw :: "string option \<Rightarrow> string option" where
  "poppler_kw poppler_path = (if truthy poppler_path then poppler_path else None)"

text \<open>The body of the \<^verbatim>\<open>try\<close> block of \<^verbatim>\<open>is_blank_page\<close> (lines 43 to 55).\<close>

definition is_blank_page_try ::
  "variant \<Rightarrow> env \<Rightarrow> path \<Rightarrow> nat \<Rightarrow> string option \<Rightarrow> world \<Rightarrow> (exn + bool) \<times> world" where
  "is_blank_page_try v env file_path page_num poppler_path w =
     (let w1 = record_call (Rasterize file_path page_num) w in
      case convert_from_path env file_path page_num None (poppler_kw poppler_path) of
        Inl e \<Rightarrow> (Inl e, w1)
      | Inr images \<Rightarrow>
          if images \<noteq> [] then
            (let image = hd images;
                 w2 = record_call (Ocr file_path page_num) w1 in
             case image_to_string env image None of
               Inl e \<Rightarrow> (Inl e, w2)
             | Inr ocr_text \<Rightarrow>
                 if ocr_text = [] then (Inr True, w2)
                 else (case OCR_TEXT_LENGTH_THRESHOLD v of
                         Inl e \<Rightarrow> (Inl e, w2)
                       | Inr t \<Rightarrow>
                           if length (strip ocr_text) \<ge> t then (Inr False, w2)
                           else (Inr True, w2)))
          else (Inr True, w1))"

text \<open>
  \<^verbatim>\<open>is_blank_page\<close>: \<open>True\<close> is "blank" (the page will be dropped), \<open>False\<close> is "kept". The
  handler returns \<open>True\<close> for any exception of the \<^verbatim>\<open>try\<close> block.
\<close>

definition is_blank_page ::
  "variant \<Rightarrow> env \<Rightarrow> page \<Rightarrow> path \<Rightarrow> nat \<Rightarrow> string option \<Rightarrow> world \<Rightarrow> bool \<times> world" where
  "is_blank_page v env page file_path page_num poppler_path w =
     (let text = text_layer page in
      if text \<noteq> None \<and> strip (the text) \<noteq> [] then (False, w)
      else (case is_blank_page_try v env file_path page_num poppler_path w of
              (Inl e, w1) \<Rightarrow> (True, w1)
            | (Inr b, w1) \<Rightarrow> (b, w1)))"

subsection \<open>CleanerBase: \<^verbatim>\<open>check_blank_page\<close>\<close>

text \<open>
  A PyMuPDF page knows its document's file name (\<^verbatim>\<open>page.parent.name\<close>) and its 0-based
  number; \<^verbatim>\<open>get_text("text")\<close> returns a string, empty when the page has no text layer.
\<close>

record fitz_page =
  parent_name :: path
  number :: nat
  page_of :: page

definition get_text :: "fitz_page \<Rightarrow> string" where
  "get_text p = (case text_layer (page_of p) of None \<Rightarrow> [] | Some t \<Rightarrow> t)"

text \<open>The body of the \<^verbatim>\<open>try\<close> block of \<^verbatim>\<open>check_blank_page\<close> (lines 44 to 49).\<close>

definition check_blank_page_try :: "env \<Rightarrow> fitz_page \<Rightarrow> world \<Rightarrow> (exn + bool) \<times> world" where
  "check_blank_page_try env page w =
     (let w1 = record_call (Rasterize (parent_name page) (number page + 1)) w in
      case convert_from_path env (parent_name page) (number page + 1) (Some 200) None of
        Inl e \<Rightarrow> (Inl e, w1)
      | Inr images \<Rightarrow>
          if images = [] then (Inr True, w1)
          else
            (let w2 = record_call (Ocr (parent_name page) (number page + 1)) w1 in
             case image_to_string env (hd images) (Some ''eng'') of
               Inl e \<Rightarrow> (Inl e, w2)
             | Inr text \<Rightarrow> (Inr (length (strip text) < 5), w2)))"

definition check_blank_page :: "env \<Rightarrow> fitz_page \<Rightarrow> bool \<Rightarrow> world \<Rightarrow> bool \<times> world" where
  "check_blank_page env page use_ocr w =
     (if use_ocr then
        (case check_blank_page_try env page w of
           (Inl e, w1) \<Rightarrow> (False, w1)
         | (Inr b, w1) \<Rightarrow> (b, w1))
      else
        (let text = strip (get_text page) in (text = [], w)))"

subsection \<open>Paths and the file system\<close>

text \<open>
  \<^verbatim>\<open>os.path.basename\<close>, \<^verbatim>\<open>os.path.dirname\<close> and \<^verbatim>\<open>os.path.join\<close> of two components, in their
  POSIX flavour: the head is everything up to the last slash, with trailing slashes removed
  unless it consists of slashes only.
\<close>

definition os_path_basename :: "path \<Rightarrow> path" where
  "os_path_basename p = rev (takeWhile (\<lambda>c. c \<noteq> CHR ''/'') (rev p))"

definition os_path_dirname :: "path \<Rightarrow> path" where
  "os_path_dirname p =
     (let head = rev (dropWhile (\<lambda>c. c \<noteq> CHR ''/'') (rev p)) in
      if head \<noteq> [] \<and> filter (\<lambda>c. c \<noteq> CHR ''/'') head \<noteq> []
      then rev (dropWhile (\<lambda>c. c = CHR ''/'') (rev head))
      else head)"

definition os_path_join :: "path \<Rightarrow> path \<Rightarrow> path" where
  "os_path_join a b =
     (if b \<noteq> [] \<and> hd b = CHR ''/'' then b
      else if a = [] \<or> last a = CHR ''/'' then a @ b
      else a @ ''/'' @ b)"

text \<open>What a failed operation left at its destination \<open>p\<close>.\<close>

fun leave :: "path \<Rightarrow> bytes option \<Rightarrow> (path \<Rightarrow> bytes option) \<Rightarrow> (path \<Rightarrow> bytes option)" where
  "leave p None fs = fs"
| "leave p (Some x) fs = fs(p \<mapsto> x)"

text \<open>\<^verbatim>\<open>shutil.copy(src, dst)\<close> and \<^verbatim>\<open>shutil.copyfile(src, dst)\<close>.\<close>

definition shutil_copy :: "env \<Rightarrow> path \<Rightarrow> path \<Rightarrow> world \<Rightarrow> exn option \<times> world" where
  "shutil_copy env src dst w =
     (let w1 = record_call (Copy src dst) w in
      case files w1 src of
        None \<Rightarrow> (Some (FileNotFoundError src), w1)
      | Some b \<Rightarrow>
          (case copy_raises env src dst of
             Some (e, left) \<Rightarrow> (Some e, w1\<lparr>files := leave dst left (files w1)\<rparr>)
           | None \<Rightarrow> (None, w1\<lparr>files := (files w1)(dst \<mapsto> b)\<rparr>)))"

text \<open>\<^verbatim>\<open>PdfReader(path)\<close> and \<^verbatim>\<open>fitz.open(path)\<close>: the pages of the file now at the path.\<close>

definition open_pdf :: "env \<Rightarrow> path \<Rightarrow> world \<Rightarrow> (exn + page list) \<times> world" where
  "open_pdf env p w =
     (let w1 = record_call (Open_pdf p) w in
      case files w1 p of
        None \<Rightarrow> (Inl (FileNotFoundError p), w1)
      | Some b \<Rightarrow> (read_pdf env b, w1))"

text \<open>
  The document writer: \<^verbatim>\<open>with open(p, "wb") as f_out: writer.write(f_out)\<close>, and PyMuPDF's
  \<^verbatim>\<open>new_doc.save(p)\<close>. An existing file at \<open>p\<close> is replaced.
\<close>

definition write_pdf :: "env \<Rightarrow> path \<Rightarrow> page list \<Rightarrow> world \<Rightarrow> exn option \<times> world" where
  "write_pdf env p pages w =
     (let w1 = record_call (Write_pdf p pages) w in
      case write_raises env p pages of
        Some (e, left) \<Rightarrow> (Some e, w1\<lparr>files := leave p left (files w1)\<rparr>)
      | None \<Rightarrow> (None, w1\<lparr>files := (files w1)(p \<mapsto> pdf_bytes env pages)\<rparr>))"

text \<open>
  \<^verbatim>\<open>shutil.move(src, dst)\<close> renames when it can and otherwise copies \<open>src\<close> over \<open>dst\<close> and
  removes \<open>src\<close>. When it raises, \<open>src\<close> is still there and \<open>dst\<close> holds what the failure
  left.
\<close>

definition shutil_move :: "env \<Rightarrow> path \<Rightarrow> path \<Rightarrow> world \<Rightarrow> exn option \<times> world" where
  "shutil_move env src dst w =
     (let w1 = record_call (Move src dst) w in
      case files w1 src of
        None \<Rightarrow> (Some (FileNotFoundError src), w1)
      | Some b \<Rightarrow>
          (case move_raises env src dst of
             Some (e, left) \<Rightarrow> (Some e, w1\<lparr>files := leave dst left (files w1)\<rparr>)
           | None \<Rightarrow> (None, w1\<lparr>files := ((files w1)(src := None))(dst \<mapsto> b)\<rparr>)))"

definition os_remove :: "env \<Rightarrow> path \<Rightarrow> world \<Rightarrow> exn option \<times> world" where
  "os_remove env p w =
     (let w1 = record_call (Remove p) w in
      case files w1 p of
        None \<Rightarrow> (Some (FileNotFoundError p), w1)
      | Some b \<Rightarrow>
          (case remove_raises env p of
             Some e \<Rightarrow> (Some e, w1)
           | None \<Rightarrow> (None, w1\<lparr>files := (files w1)(p := None)\<rparr>)))"

text \<open>
  \<^verbatim>\<open>tempfile.NamedTemporaryFile(delete=False, suffix=".pdf")\<close> creates a new, empty file in
  the system's temporary directory and never reuses an existing name. The environment offers
  one candidate name; when a file of that name exists, the call raises.
\<close>

definition NamedTemporaryFile :: "env \<Rightarrow> world \<Rightarrow> (exn + path) \<times> world" where
  "NamedTemporaryFile env w =
     (let w1 = record_call Make_temp w in
      case named_temporary_file env of
        Inl e \<Rightarrow> (Inl e, w1)
      | Inr name \<Rightarrow>
          if files w1 name \<noteq> None then (Inl (FileExistsError name), w1)
          else (Inr name, w1\<lparr>files := (files w1)(name \<mapsto> [])\<rparr>))"

definition messagebox :: "dialog \<Rightarrow> world \<Rightarrow> world" where
  "messagebox d w = w\<lparr>shown := shown w @ [d]\<rparr>"

subsection \<open>CleanerBase1 and CleanerBase2: \<^verbatim>\<open>process_pdf\<close>\<close>

text \<open>
  The loop \<^verbatim>\<open>for i, page in enumerate(reader.pages, start=1)\<close>: blank pages are counted, the
  others are added to the writer, in order.
\<close>

fun page_loop ::
  "variant \<Rightarrow> env \<Rightarrow> path \<Rightarrow> string option \<Rightarrow> nat \<Rightarrow> page list \<Rightarrow> page list \<Rightarrow> nat \<Rightarrow> world
     \<Rightarrow> (page list \<times> nat) \<times> world" where
  "page_loop v env file_path poppler_path i [] writer_pages removed_pages w =
     ((writer_pages, removed_pages), w)"
| "page_loop v env file_path poppler_path i (page # rest) writer_pages removed_pages w =
     (case is_blank_page v env page file_path i poppler_path w of
        (blank, w1) \<Rightarrow>
          if blank
          then page_loop v env file_path poppler_path (i + 1) rest
                 writer_pages (removed_pages + 1) w1
          else page_loop v env file_path poppler_path (i + 1) rest
                 (writer_pages @ [page]) removed_pages w1)"

text \<open>
  Writing the temporary file. \<^verbatim>\<open>CleanerBase1.py\<close> (lines 104 to 111) opens
  \<^verbatim>\<open>file_path + ".temp"\<close>; \<^verbatim>\<open>CleanerBase2.py\<close> (lines 98 to 106) asks \<^verbatim>\<open>tempfile\<close> for a name
  and opens that.
\<close>

fun write_temp_file ::
  "variant \<Rightarrow> env \<Rightarrow> path \<Rightarrow> page list \<Rightarrow> world \<Rightarrow> (exn + path) \<times> world" where
  "write_temp_file CleanerBase1 env file_path writer_pages w =
     (let temp_file = file_path @ ''.temp'' in
      case write_pdf env temp_file writer_pages w of
        (Some e, w1) \<Rightarrow> (Inl e, w1)
      | (None, w1) \<Rightarrow> (Inr temp_file, w1))"
| "write_temp_file CleanerBase2 env file_path writer_pages w =
     (case NamedTemporaryFile env w of
        (Inl e, w1) \<Rightarrow> (Inl e, w1)
      | (Inr temp_file, w1) \<Rightarrow>
          (case write_pdf env temp_file writer_pages w1 of
             (Some e, w2) \<Rightarrow> (Inl e, w2)
           | (None, w2) \<Rightarrow> (Inr temp_file, w2)))"

text \<open>
  The last part of \<^verbatim>\<open>process_pdf\<close> (from the comment "Write the modified PDF to a
  temporary file" to the end), reached when the writer holds at least one page. A failure
  of the last \<^verbatim>\<open>os.remove\<close> is only printed.
\<close>

definition replace_original ::
  "variant \<Rightarrow> env \<Rightarrow> path \<Rightarrow> path \<Rightarrow> page list \<Rightarrow> nat \<Rightarrow> nat \<Rightarrow> world \<Rightarrow> world" where
  "replace_original v env file_path backup_path writer_pages total_pages removed_pages w =
     (case write_temp_file v env file_path writer_pages w of
        (Inl e, w1) \<Rightarrow> messagebox (Showerror ''Failed to write modified PDF'' e) w1
      | (Inr temp_file, w1) \<Rightarrow>
          (case shutil_move env temp_file file_path w1 of
             (Some e, w2) \<Rightarrow>
               messagebox (Showerror ''Failed to replace the original PDF'' e) w2
           | (None, w2) \<Rightarrow>
               (let w3 = snd (os_remove env backup_path w2) in
                messagebox (Showinfo_success total_pages removed_pages) w3)))"

text \<open>
  \<^verbatim>\<open>process_pdf\<close> returns nothing; what it did is in the dialogs it showed and in the files.
  The \<^verbatim>\<open>print\<close> and \<^verbatim>\<open>logging\<close> lines are left out.
\<close>

definition backup_path_of :: "path \<Rightarrow> path" where
  "backup_path_of file_path =
     (let dir_name = os_path_dirname file_path;
          base_name = os_path_basename file_path
      in os_path_join dir_name (base_name @ ''.backup''))"

definition process_pdf :: "variant \<Rightarrow> env \<Rightarrow> path \<Rightarrow> string option \<Rightarrow> world \<Rightarrow> world" where
  "process_pdf v env file_path poppler_path w =
     (let backup_path = backup_path_of file_path in
      case shutil_copy env file_path backup_path w of
        (Some e, w1) \<Rightarrow> messagebox (Showerror ''Failed to create backup copy'' e) w1
      | (None, w1) \<Rightarrow>
          (case open_pdf env file_path w1 of
             (Inl e, w2) \<Rightarrow> messagebox (Showerror ''Failed to read PDF'' e) w2
           | (Inr reader_pages, w2) \<Rightarrow>
               (let total_pages = length reader_pages in
                case page_loop v env file_path poppler_path 1 reader_pages [] 0 w2 of
                  ((writer_pages, removed_pages), w3) \<Rightarrow>
                    if length writer_pages = 0
                    then messagebox
                      (Showwarning ''All pages are blank. The PDF will not be modified.'') w3
                    else replace_original v env file_path backup_path writer_pages
                           total_pages removed_pages w3)))"

subsection \<open>CleanerBase: \<^verbatim>\<open>process_pdf\<close> and \<^verbatim>\<open>process_files\<close>\<close>

text \<open>\<^verbatim>\<open>doc[page_num]\<close> on the document opened from \<open>filepath\<close>.\<close>

definition doc_page :: "path \<Rightarrow> page list \<Rightarrow> nat \<Rightarrow> fitz_page" where
  "doc_page filepath doc page_num =
     \<lparr>parent_name = filepath, number = page_num, page_of = doc ! page_num\<rparr>"

text \<open>The two loops of lines 70 to 80; the second argument list is what the loop ranges over.\<close>

fun text_pass ::
  "env \<Rightarrow> path \<Rightarrow> page list \<Rightarrow> nat list \<Rightarrow> nat list \<Rightarrow> world \<Rightarrow> nat list \<times> world" where
  "text_pass env filepath doc [] blank_pages w = (blank_pages, w)"
| "text_pass env filepath doc (page_num # rest) blank_pages w =
     (case check_blank_page env (doc_page filepath doc page_num) False w of
        (blank, w1) \<Rightarrow>
          if blank then text_pass env filepath doc rest (blank_pages @ [page_num]) w1
          else text_pass env filepath doc rest blank_pages w1)"

fun ocr_pass ::
  "env \<Rightarrow> path \<Rightarrow> page list \<Rightarrow> nat list \<Rightarrow> nat list \<Rightarrow> world \<Rightarrow> nat list \<times> world" where
  "ocr_pass env filepath doc [] blank_pages_ocr w = (blank_pages_ocr, w)"
| "ocr_pass env filepath doc (page_num # rest) blank_pages_ocr w =
     (case check_blank_page env (doc_page filepath doc page_num) True w of
        (blank, w1) \<Rightarrow>
          if blank then ocr_pass env filepath doc rest (blank_pages_ocr @ [page_num]) w1
          else ocr_pass env filepath doc rest blank_pages_ocr w1)"

definition log_write :: "log_line \<Rightarrow> world \<Rightarrow> world" where
  "log_write l w = w\<lparr>log_file := log_file w @ [l]\<rparr>"

text \<open>
  The branch \<^verbatim>\<open>if blank_pages:\<close> (lines 84 to 95): the backup copy, the new document with
  the pages whose number is not in \<^verbatim>\<open>blank_pages\<close>, saved onto \<open>filepath\<close> itself, the
  removal of the backup and the log line. \<open>Some e\<close> is the exception that leaves the branch.
\<close>

definition CleanerBase_rebuild ::
  "env \<Rightarrow> path \<Rightarrow> page list \<Rightarrow> nat list \<Rightarrow> world \<Rightarrow> exn option \<times> world" where
  "CleanerBase_rebuild env filepath doc blank_pages w =
     (let total_pages = length doc;
          temp_filepath = filepath @ ''.bak'' in
      case shutil_copy env filepath temp_filepath w of
        (Some e, w1) \<Rightarrow> (Some e, w1)
      | (None, w1) \<Rightarrow>
          (let new_doc = map (\<lambda>page_num. doc ! page_num)
                           (filter (\<lambda>page_num. page_num \<notin> set blank_pages)
                              [0..<total_pages]) in
           case write_pdf env filepath new_doc w1 of
             (Some e, w2) \<Rightarrow> (Some e, w2)
           | (None, w2) \<Rightarrow>
               (case os_remove env temp_filepath w2 of
                  (Some e, w3) \<Rightarrow> (Some e, w3)
                | (None, w3) \<Rightarrow>
                    (None, log_write (Status_modified (os_path_basename filepath)
                                        total_pages (length blank_pages)) w3))))"

text \<open>The body of the \<^verbatim>\<open>try\<close> block of \<^verbatim>\<open>process_pdf\<close> (lines 65 to 99).\<close>

definition CleanerBase_process_pdf_try :: "env \<Rightarrow> path \<Rightarrow> world \<Rightarrow> exn option \<times> world" where
  "CleanerBase_process_pdf_try env filepath w =
     (case open_pdf env filepath w of
        (Inl e, w1) \<Rightarrow> (Some e, w1)
      | (Inr doc, w1) \<Rightarrow>
          (let total_pages = length doc in
           case text_pass env filepath doc [0..<total_pages] [] w1 of
             (blank_pages_text, w2) \<Rightarrow>
               (case ocr_pass env filepath doc blank_pages_text [] w2 of
                  (blank_pages, w3) \<Rightarrow>
                    if blank_pages \<noteq> []
                    then CleanerBase_rebuild env filepath doc blank_pages w3
                    else (None, log_write (Status_no_changes (os_path_basename filepath)
                                             total_pages) w3))))"

text \<open>
  \<^verbatim>\<open>process_pdf\<close> with its handler (lines 100 to 102). The \<^verbatim>\<open>finally\<close> block only schedules
  a progress update of the window and is left out.
\<close>

definition CleanerBase_process_pdf :: "env \<Rightarrow> path \<Rightarrow> world \<Rightarrow> world" where
  "CleanerBase_process_pdf env filepath w =
     (case CleanerBase_process_pdf_try env filepath w of
        (Some e, w1) \<Rightarrow> log_write (Error_processing (os_path_basename filepath) e) w1
      | (None, w1) \<Rightarrow> w1)"

text \<open>\<^verbatim>\<open>f.lower().endswith(".pdf")\<close>.\<close>

definition lower_char :: "char \<Rightarrow> char" where
  "lower_char c =
     (let n = (of_char c :: nat) in if 65 \<le> n \<and> n \<le> 90 then char_of (n + 32) else c)"

definition endswith :: "string \<Rightarrow> string \<Rightarrow> bool" where
  "endswith s suf \<longleftrightarrow>
     length suf \<le> length s \<and> drop (length s - length suf) s = suf"

definition pdf_files :: "env \<Rightarrow> path \<Rightarrow> path list" where
  "pdf_files env folder_path =
     map (\<lambda>f. os_path_join folder_path f)
       (filter (\<lambda>f. endswith (map lower_char f) ''.pdf'') (os_listdir env folder_path))"

text \<open>
  The Stop button runs \<^verbatim>\<open>stop_processing\<close> on the window's thread, which sets the global
  \<^verbatim>\<open>stop_requested\<close>; nothing ever resets it. The worker reads the flag only at the top of
  the loop, so it is enough to know, for each file, whether Stop was pressed while that file
  was being processed: \<open>stop_pressed env i\<close> for the \<open>i\<close>-th file of the list (from 0).
\<close>

definition stop_processing :: "world \<Rightarrow> world" where
  "stop_processing w = w\<lparr>stop_requested := True\<rparr>"

fun process_files_loop :: "env \<Rightarrow> nat \<Rightarrow> path list \<Rightarrow> world \<Rightarrow> world" where
  "process_files_loop env i [] w = w"
| "process_files_loop env i (filepath # rest) w =
     (if stop_requested w then w
      else
        (let w1 = CleanerBase_process_pdf env filepath w;
             w2 = (if stop_pressed env i then stop_processing w1 else w1) in
         process_files_loop env (Suc i) rest w2))"

text \<open>
  \<^verbatim>\<open>process_files\<close>: the log file is opened for writing (emptied), the loop runs, and the
  closing message depends on the flag.
\<close>

definition process_files :: "env \<Rightarrow> path \<Rightarrow> world \<Rightarrow> world" where
  "process_files env folder_path w =
     (let files = pdf_files env folder_path in
      if files = [] then
        messagebox (Showinfo ''No PDF files found in the selected folder.'') w
      else
        (let w1 = w\<lparr>log_file := []\<rparr>;
             w2 = process_files_loop env 0 files w1;
             finish_message = (if stop_requested w2 then ''PDF processing stopped by user.''
                               else ''PDF processing finished.'') in
         messagebox (Showinfo finish_message) w2))"

subsection \<open>Observations used in the statements\<close>

definition empty_world :: world where
  "empty_world =
     \<lparr>files = (\<lambda>p. None), calls = [], shown = [], log_file = [], stop_requested = False\<rparr>"

text \<open>
  The verdict of a check and the external calls it makes do not depend on the world it
  starts in (lemmas \<open>check_blank_page_ocr\<close> and \<open>is_blank_page_world\<close> below), so they are
  read off a run in the empty world.
\<close>

definition ocr_verdict :: "env \<Rightarrow> fitz_page \<Rightarrow> bool" where
  "ocr_verdict env page = fst (check_blank_page env page True empty_world)"

definition ocr_trace :: "env \<Rightarrow> fitz_page \<Rightarrow> call list" where
  "ocr_trace env page = calls (snd (check_blank_page env page True empty_world))"

definition blank_verdict ::
  "variant \<Rightarrow> env \<Rightarrow> page \<Rightarrow> path \<Rightarrow> nat \<Rightarrow> string option \<Rightarrow> bool" where
  "blank_verdict v env page file_path page_num poppler_path =
     fst (is_blank_page v env page file_path page_num poppler_path empty_world)"

definition blank_trace ::
  "variant \<Rightarrow> env \<Rightarrow> page \<Rightarrow> path \<Rightarrow> nat \<Rightarrow> string option \<Rightarrow> call list" where
  "blank_trace v env page file_path page_num poppler_path =
     calls (snd (is_blank_page v env page file_path page_num poppler_path empty_world))"

text \<open>The calls a run added to the list it started with.\<close>

definition new_calls :: "world \<Rightarrow> world \<Rightarrow> call list" where
  "new_calls w w' = drop (length (calls w)) (calls w')"

definition opened_files :: "call list \<Rightarrow> path list" where
  "opened_files cs = concat (map (\<lambda>c. case c of Open_pdf p \<Rightarrow> [p] | _ \<Rightarrow> []) cs)"

fun log_name :: "log_line \<Rightarrow> string" where
  "log_name (Status_modified b t r) = b"
| "log_name (Status_no_changes b t) = b"
| "log_name (Error_processing b e) = b"

text \<open>
  Rasterisation or OCR raises: what \<^verbatim>\<open>convert_from_path\<close> and, on its first image,
  \<^verbatim>\<open>image_to_string\<close> do for one page with the given keywords.
\<close>

definition ocr_raises ::
  "env \<Rightarrow> path \<Rightarrow> nat \<Rightarrow> nat option \<Rightarrow> string option \<Rightarrow> string option \<Rightarrow> bool" where
  "ocr_raises env p n dpi poppler lang =
     (case convert_from_path env p n dpi poppler of
        Inl e \<Rightarrow> True
      | Inr images \<Rightarrow>
          images \<noteq> [] \<and>
          (case image_to_string env (hd images) lang of Inl e \<Rightarrow> True | Inr t \<Rightarrow> False))"

text \<open>OCR succeeds with the text \<open>t\<close>.\<close>

definition ocr_returns ::
  "env \<Rightarrow> path \<Rightarrow> nat \<Rightarrow> nat option \<Rightarrow> string option \<Rightarrow> string option \<Rightarrow> string \<Rightarrow> bool" where
  "ocr_returns env p n dpi poppler lang t =
     (case convert_from_path env p n dpi poppler of
        Inl e \<Rightarrow> False
      | Inr images \<Rightarrow>
          images \<noteq> [] \<and> image_to_string env (hd images) lang = Inr t)"

text \<open>
  OCR confirms that the page is blank: rasterisation gives an image, OCR of it succeeds and
  the stripped OCR text has fewer than 5 characters.
\<close>

definition ocr_confirms_blank ::
  "env \<Rightarrow> path \<Rightarrow> nat \<Rightarrow> nat option \<Rightarrow> string option \<Rightarrow> string option \<Rightarrow> bool" where
  "ocr_confirms_blank env p n dpi poppler lang =
     (case convert_from_path env p n dpi poppler of
        Inl e \<Rightarrow> False
      | Inr images \<Rightarrow>
          images \<noteq> [] \<and>
          (case image_to_string env (hd images) lang of
             Inl e \<Rightarrow> False
           | Inr t \<Rightarrow> length (strip t) < 5))"

text \<open>The text layer is missing, empty or whitespace only.\<close>

definition text_empty :: "page \<Rightarrow> bool" where
  "text_empty page = (case text_layer page of None \<Rightarrow> True | Some t \<Rightarrow> strip t = [])"

text \<open>
  The number of files the loop of \<^verbatim>\<open>process_files\<close> starts when the flag is \<open>flag\<close> at its
  first check: the number of leading checks at which the flag is still unset, the flag being
  set at check \<open>i\<close> when it was set at the start or Stop was pressed during an earlier file.
\<close>

definition stop_index :: "env \<Rightarrow> bool \<Rightarrow> nat \<Rightarrow> nat \<Rightarrow> nat" where
  "stop_index env flag i n =
     length (takeWhile (\<lambda>k. \<not> (flag \<or> list_ex (stop_pressed env) [i..<k])) [i..<i + n])"

text \<open>
  Page \<open>n\<close> (from 0) of the document is flagged blank by the text pass of
  \<^verbatim>\<open>CleanerBase.process_pdf\<close> (lemma \<open>check_blank_page_text\<close> below).
\<close>

definition text_flagged :: "path \<Rightarrow> page list \<Rightarrow> nat \<Rightarrow> bool" where
  "text_flagged filepath doc n \<longleftrightarrow> strip (get_text (doc_page filepath doc n)) = []"

text \<open>
  For \<^verbatim>\<open>CleanerBase.process_pdf\<close> on a document: the pages the text pass flags, those of
  them the OCR pass confirms (the list \<^verbatim>\<open>blank_pages\<close> after line 81), the rasteriser and
  OCR calls of the OCR pass, and the document without the confirmed pages.
\<close>

definition text_flagged_pages :: "path \<Rightarrow> page list \<Rightarrow> nat list" where
  "text_flagged_pages filepath doc = filter (text_flagged filepath doc) [0..<length doc]"

definition dropped_pages :: "env \<Rightarrow> path \<Rightarrow> page list \<Rightarrow> nat list" where
  "dropped_pages env filepath doc =
     filter (\<lambda>n. ocr_verdict env (doc_page filepath doc n)) (text_flagged_pages filepath doc)"

definition ocr_calls :: "env \<Rightarrow> path \<Rightarrow> page list \<Rightarrow> call list" where
  "ocr_calls env filepath doc =
     concat (map (\<lambda>n. ocr_trace env (doc_page filepath doc n)) (text_flagged_pages filepath doc))"

definition kept_doc :: "env \<Rightarrow> path \<Rightarrow> page list \<Rightarrow> page list" where
  "kept_doc env filepath doc =
     map (\<lambda>n. doc ! n)
       (filter (\<lambda>n. \<not> (text_flagged filepath doc n \<and> ocr_verdict env (doc_page filepath doc n)))
          [0..<length doc])"

text \<open>
  For \<^verbatim>\<open>process_pdf\<close> of \<^verbatim>\<open>CleanerBase1\<close> and \<^verbatim>\<open>CleanerBase2\<close> on the pages of a reader:
  the pages added to the writer, the count \<^verbatim>\<open>removed_pages\<close>, and the rasteriser and OCR
  calls of the loop (lemma \<open>page_loop_run\<close> below). Pages are numbered from 1.
\<close>

definition kept_pages :: "variant \<Rightarrow> env \<Rightarrow> path \<Rightarrow> string option \<Rightarrow> page list \<Rightarrow> page list" where
  "kept_pages v env file_path poppler_path pages =
     map snd (filter (\<lambda>(i, page). \<not> blank_verdict v env page file_path i poppler_path)
                (zip [1..<1 + length pages] pages))"

definition removed_count :: "variant \<Rightarrow> env \<Rightarrow> path \<Rightarrow> string option \<Rightarrow> page list \<Rightarrow> nat" where
  "removed_count v env file_path poppler_path pages =
     length (filter (\<lambda>(i, page). blank_verdict v env page file_path i poppler_path)
               (zip [1..<1 + length pages] pages))"

definition page_calls :: "variant \<Rightarrow> env \<Rightarrow> path \<Rightarrow> string option \<Rightarrow> page list \<Rightarrow> call list" where
  "page_calls v env file_path poppler_path pages =
     concat (map (\<lambda>(i, page). blank_trace v env page file_path i poppler_path)
               (zip [1..<1 + length pages] pages))"

text \<open>
  The path the document writer is asked to write to: \<^verbatim>\<open>file_path + ".temp"\<close> in
  \<^verbatim>\<open>CleanerBase1\<close>, the name \<^verbatim>\<open>tempfile\<close> hands out in \<^verbatim>\<open>CleanerBase2\<close>.
\<close>

fun temp_file_of :: "variant \<Rightarrow> env \<Rightarrow> path \<Rightarrow> path option" where
  "temp_file_of CleanerBase1 env file_path = Some (file_path @ ''.temp'')"
| "temp_file_of CleanerBase2 env file_path =
     (case named_temporary_file env of Inl e \<Rightarrow> None | Inr name \<Rightarrow> Some name)"

text \<open>
  The part of \<^verbatim>\<open>replace_original\<close> after the temporary file has been written (lemma
  \<open>replace_original_eq\<close> below), and the call that precedes the writer's in each variant.
\<close>

definition move_stage :: "env \<Rightarrow> path \<Rightarrow> path \<Rightarrow> path \<Rightarrow> nat \<Rightarrow> nat \<Rightarrow> world \<Rightarrow> world" where
  "move_stage env temp_file file_path backup_path tot rem w1 =
     (case shutil_move env temp_file file_path w1 of
        (Some e, w2) \<Rightarrow> messagebox (Showerror ''Failed to replace the original PDF'' e) w2
      | (None, w2) \<Rightarrow>
          (let w3 = snd (os_remove env backup_path w2) in
           messagebox (Showinfo_success tot rem) w3))"

definition temp_prefix :: "variant \<Rightarrow> call list" where
  "temp_prefix v = (case v of CleanerBase1 \<Rightarrow> [] | CleanerBase2 \<Rightarrow> [Make_temp])"

subsection \<open>A folder of four PDF files\<close>

text \<open>
  \<open>page_hello\<close> has a text layer; \<open>page_white\<close> has a whitespace-only text layer and OCR
  finds nothing on it; \<open>page_scan\<close> has no text layer, and OCR reads text on it when it is
  the third page of a file. The writer of this machine refuses a document without pages, as
  PyMuPDF's \<^verbatim>\<open>save\<close> does, before it touches the file.
\<close>

definition page_hello :: page where
  "page_hello = \<lparr>content = 1, text_layer = Some ''Hello''\<rparr>"

definition page_white :: page where
  "page_white = \<lparr>content = 2, text_layer = Some ''  ''\<rparr>"

definition page_scan :: page where
  "page_scan = \<lparr>content = 3, text_layer = None\<rparr>"

definition example_env :: env where
  "example_env =
     \<lparr>copy_raises = (\<lambda>s d. None),
      read_pdf = (\<lambda>b. if b = ''%PDF mixed'' then Inr [page_hello, page_white, page_scan]
                      else if b = ''%PDF blank'' then Inr [page_white]
                      else if b = ''%PDF text'' then Inr [page_hello]
                      else Inl (Library_error ''not a PDF'')),
      pdf_bytes = (\<lambda>ps. ''%PDF rewritten '' @ map (\<lambda>p. char_of (content p)) ps),
      write_raises = (\<lambda>p ps. if ps = []
                              then Some (Library_error ''cannot save with zero pages'', None)
                              else None),
      move_raises = (\<lambda>s d. None),
      remove_raises = (\<lambda>p. None),
      convert_from_path = (\<lambda>p n dpi poppler. Inr [n]),
      image_to_string = (\<lambda>i lang. if i = 3 then Inr ''Scanned text'' else Inr '' ''),
      named_temporary_file = Inr ''/tmp/tmpk3x7.pdf'',
      os_listdir = (\<lambda>d. [''a.pdf'', ''notes.txt'', ''B.PDF'', ''c.pdf'', ''d.pdf'']),
      stop_pressed = (\<lambda>i. i = 1)\<rparr>"

definition example_world :: world where
  "example_world =
     \<lparr>files = [''/docs/a.pdf'' \<mapsto> ''%PDF mixed'', ''/docs/B.PDF'' \<mapsto> ''%PDF blank'',
               ''/docs/c.pdf'' \<mapsto> ''%PDF text'', ''/docs/d.pdf'' \<mapsto> ''garbage''],
      calls = [], shown = [], log_file = [], stop_requested = False\<rparr>"

text \<open>The same machine without the rasteriser's binaries.\<close>

definition no_poppler_env :: env where
  "no_poppler_env =
     example_env\<lparr>convert_from_path :=
       (\<lambda>p n dpi poppler.
          Inl (Library_error ''Unable to get page count. Is poppler installed?''))\<rparr>"

section \<open>Lemmas\<close>

subsection \<open>Checks and loops\<close>

lemma check_blank_page_try_world:
  "check_blank_page_try env page w =
     (fst (check_blank_page_try env page empty_world),
      w\<lparr>calls := calls w @ calls (snd (check_blank_page_try env page empty_world))\<rparr>)"
  by (simp add: check_blank_page_try_def record_call_def empty_world_def Let_def
           split: sum.splits)

lemma check_blank_page_ocr:
  "check_blank_page env page True w =
     (ocr_verdict env page, w\<lparr>calls := calls w @ ocr_trace env page\<rparr>)"
  unfolding ocr_verdict_def ocr_trace_def check_blank_page_def
  by (subst check_blank_page_try_world) (simp split: sum.splits prod.splits)

lemma check_blank_page_text:
  "check_blank_page env page False w = (strip (get_text page) = [], w)"
  by (simp add: check_blank_page_def)

lemma is_blank_page_try_world:
  "is_blank_page_try v env fp n pp w =
     (fst (is_blank_page_try v env fp n pp empty_world),
      w\<lparr>calls := calls w @ calls (snd (is_blank_page_try v env fp n pp empty_world))\<rparr>)"
  by (simp add: is_blank_page_try_def record_call_def empty_world_def Let_def
           split: sum.splits)

lemma is_blank_page_world:
  "is_blank_page v env page fp n pp w =
     (blank_verdict v env page fp n pp, w\<lparr>calls := calls w @ blank_trace v env page fp n pp\<rparr>)"
  unfolding blank_verdict_def blank_trace_def is_blank_page_def
  by (subst is_blank_page_try_world)
     (simp add: Let_def empty_world_def split: sum.splits prod.splits)

lemma ocr_trace_cases:
  "ocr_trace env pg = [Rasterize (parent_name pg) (number pg + 1)] \<or>
   ocr_trace env pg =
     [Rasterize (parent_name pg) (number pg + 1), Ocr (parent_name pg) (number pg + 1)]"
  by (simp add: ocr_trace_def check_blank_page_def check_blank_page_try_def record_call_def
        empty_world_def Let_def split: sum.splits)

lemma blank_trace_cases:
  "blank_trace v env page fp n pp = [] \<or>
   blank_trace v env page fp n pp = [Rasterize fp n] \<or>
   blank_trace v env page fp n pp = [Rasterize fp n, Ocr fp n]"
  by (simp add: blank_trace_def is_blank_page_def is_blank_page_try_def record_call_def
        empty_world_def Let_def split: sum.splits)

lemma text_pass_eq:
  "text_pass env filepath doc ns acc w =
     (acc @ filter (\<lambda>n. strip (get_text (doc_page filepath doc n)) = []) ns, w)"
  by (induction ns arbitrary: acc w) (simp_all add: check_blank_page_text)

lemma ocr_pass_eq:
  "ocr_pass env filepath doc ns acc w =
     (acc @ filter (\<lambda>n. ocr_verdict env (doc_page filepath doc n)) ns,
      w\<lparr>calls := calls w @ concat (map (\<lambda>n. ocr_trace env (doc_page filepath doc n)) ns)\<rparr>)"
  by (induction ns arbitrary: acc w) (simp_all add: check_blank_page_ocr)

lemma page_loop_eq:
  "page_loop v env fp pp i pages wp r w =
     ((wp @ map snd (filter (\<lambda>(j, p). \<not> blank_verdict v env p fp j pp)
                      (zip [i..<i + length pages] pages)),
       r + length (filter (\<lambda>(j, p). blank_verdict v env p fp j pp)
                     (zip [i..<i + length pages] pages))),
      w\<lparr>calls := calls w @ concat (map (\<lambda>(j, p). blank_trace v env p fp j pp)
                                     (zip [i..<i + length pages] pages))\<rparr>)"
proof (induction pages arbitrary: i wp r w)
  case Nil
  then show ?case by simp
next
  case (Cons p ps)
  have upt: "[i..<i + length (p # ps)] = i # [Suc i..<Suc i + length ps]"
    using upt_conv_Cons [of i "i + Suc (length ps)"] by simp
  show ?case
    unfolding upt by (simp add: is_blank_page_world Cons.IH)
qed

subsection \<open>One call of \<^verbatim>\<open>CleanerBase.process_pdf\<close>\<close>

lemma opened_files_append [simp]:
  "opened_files (xs @ ys) = opened_files xs @ opened_files ys"
  by (simp add: opened_files_def)

lemma opened_files_simps [simp]:
  "opened_files [] = []"
  "opened_files (Open_pdf p # cs) = p # opened_files cs"
  "opened_files (Copy a b # cs) = opened_files cs"
  "opened_files (Rasterize a n # cs) = opened_files cs"
  "opened_files (Ocr a n # cs) = opened_files cs"
  "opened_files (Make_temp # cs) = opened_files cs"
  "opened_files (Write_pdf a ps # cs) = opened_files cs"
  "opened_files (Move a b # cs) = opened_files cs"
  "opened_files (Remove a # cs) = opened_files cs"
  by (simp_all add: opened_files_def)

lemma opened_files_ocr_trace [simp]: "opened_files (ocr_trace env pg) = []"
  using ocr_trace_cases [of env pg] by auto

lemma opened_files_concat_ocr [simp]:
  "opened_files (concat (map (\<lambda>n. ocr_trace env (f n)) ns)) = []"
  by (induction ns) simp_all

lemma CleanerBase_rebuild_shape:
  "\<exists>rest. calls (snd (CleanerBase_rebuild env fp doc bl w)) = calls w @ rest \<and>
     opened_files rest = [] \<and>
     stop_requested (snd (CleanerBase_rebuild env fp doc bl w)) = stop_requested w \<and>
     (case fst (CleanerBase_rebuild env fp doc bl w) of
        Some e \<Rightarrow> log_file (snd (CleanerBase_rebuild env fp doc bl w)) = log_file w
      | None \<Rightarrow> log_file (snd (CleanerBase_rebuild env fp doc bl w)) =
          log_file w @ [Status_modified (os_path_basename fp) (length doc) (length bl)])"
  by (simp add: CleanerBase_rebuild_def shutil_copy_def write_pdf_def os_remove_def
        record_call_def log_write_def Let_def split: option.splits)

lemma CleanerBase_process_pdf_shape:
  "\<exists>rest l. calls (CleanerBase_process_pdf env fp w) = calls w @ Open_pdf fp # rest \<and>
     opened_files rest = [] \<and>
     log_file (CleanerBase_process_pdf env fp w) = log_file w @ [l] \<and>
     log_name l = os_path_basename fp \<and>
     stop_requested (CleanerBase_process_pdf env fp w) = stop_requested w"
proof (cases "open_pdf env fp w")
  case (Pair r w1)
  have w1: "calls w1 = calls w @ [Open_pdf fp]" "log_file w1 = log_file w"
    "stop_requested w1 = stop_requested w"
    using Pair by (auto simp: open_pdf_def record_call_def Let_def split: option.splits)
  show ?thesis
  proof (cases r)
    case (Inl e)
    then show ?thesis using Pair w1
      by (simp add: CleanerBase_process_pdf_def CleanerBase_process_pdf_try_def log_write_def)
  next
    case (Inr doc)
    define T where "T = filter (\<lambda>n. strip (get_text (doc_page fp doc n)) = []) [0..<length doc]"
    define B where "B = filter (\<lambda>n. ocr_verdict env (doc_page fp doc n)) T"
    define w3 where "w3 = w1\<lparr>calls := calls w1 @ concat (map (\<lambda>n. ocr_trace env (doc_page fp doc n)) T)\<rparr>"
    have try_eq: "CleanerBase_process_pdf_try env fp w =
      (if B \<noteq> [] then CleanerBase_rebuild env fp doc B w3
       else (None, log_write (Status_no_changes (os_path_basename fp) (length doc)) w3))"
      using Pair Inr
      by (simp add: CleanerBase_process_pdf_try_def text_pass_eq ocr_pass_eq T_def B_def w3_def Let_def)
    show ?thesis
    proof (cases "B = []")
      case True
      then show ?thesis using try_eq w1
        by (simp add: CleanerBase_process_pdf_def log_write_def w3_def)
    next
      case False
      obtain rest where rest: "calls (snd (CleanerBase_rebuild env fp doc B w3)) = calls w3 @ rest"
        "opened_files rest = []"
        "stop_requested (snd (CleanerBase_rebuild env fp doc B w3)) = stop_requested w3"
        and lg: "(case fst (CleanerBase_rebuild env fp doc B w3) of
        Some e \<Rightarrow> log_file (snd (CleanerBase_rebuild env fp doc B w3)) = log_file w3
      | None \<Rightarrow> log_file (snd (CleanerBase_rebuild env fp doc B w3)) =
          log_file w3 @ [Status_modified (os_path_basename fp) (length doc) (length B)])"
        using CleanerBase_rebuild_shape [of env fp doc B w3] by blast
      show ?thesis
      proof (cases "CleanerBase_rebuild env fp doc B w3")
        case (Pair r' w')
        then show ?thesis using False try_eq rest lg w1
          by (cases r') (simp_all add: CleanerBase_process_pdf_def log_write_def w3_def)
      qed
    qed
  qed
qed

lemma strip_hello: "strip ''Hello'' = ''Hello''"
  by (simp add: strip_def isspace_def)

lemma strip_white: "strip ''  '' = []"
  by (simp add: strip_def isspace_def)

lemma is_blank_page_text:
  "text_layer page = Some t \<Longrightarrow> strip t \<noteq> [] \<Longrightarrow>
     is_blank_page v env page file_path page_num poppler_path w = (False, w)"
  by (simp add: is_blank_page_def)

lemma new_calls_append [simp]: "calls w' = calls w @ cs \<Longrightarrow> new_calls w w' = cs"
  by (simp add: new_calls_def)

lemma CleanerBase_process_pdf_try_eq:
  assumes "files w fp = Some b" and "read_pdf env b = Inr doc"
  shows "CleanerBase_process_pdf_try env fp w =
    (if dropped_pages env fp doc \<noteq> []
     then CleanerBase_rebuild env fp doc (dropped_pages env fp doc)
            (w\<lparr>calls := calls w @ Open_pdf fp # ocr_calls env fp doc\<rparr>)
     else (None, log_write (Status_no_changes (os_path_basename fp) (length doc))
                   (w\<lparr>calls := calls w @ Open_pdf fp # ocr_calls env fp doc\<rparr>)))"
proof -
  have tp: "text_pass env fp doc [0..<length doc] [] w' = (text_flagged_pages fp doc, w')" for w'
    by (simp add: text_pass_eq text_flagged_pages_def text_flagged_def [abs_def])
  show ?thesis
    using assms
    by (simp add: CleanerBase_process_pdf_try_def open_pdf_def record_call_def tp
        ocr_pass_eq dropped_pages_def ocr_calls_def Let_def)
qed

lemma kept_doc_eq:
  "map (\<lambda>n. doc ! n) (filter (\<lambda>n. n \<notin> set (dropped_pages env fp doc)) [0..<length doc])
     = kept_doc env fp doc"
  unfolding kept_doc_def dropped_pages_def text_flagged_pages_def
  by (rule arg_cong [where f = "map (\<lambda>n. doc ! n)"], rule filter_cong) auto

lemma CleanerBase_rebuild_calls:
  "\<exists>rest. calls (snd (CleanerBase_rebuild env fp doc (dropped_pages env fp doc) w)) = calls w @ rest \<and>
     set rest \<subseteq> {Copy fp (fp @ ''.bak''), Write_pdf fp (kept_doc env fp doc),
                  Remove (fp @ ''.bak'')}"
  by (simp add: CleanerBase_rebuild_def shutil_copy_def write_pdf_def os_remove_def
        record_call_def log_write_def Let_def kept_doc_eq split: option.splits)

lemma ocr_calls_mem:
  "c \<in> set (ocr_calls env fp doc) \<Longrightarrow>
     \<exists>n. n < length doc \<and> text_flagged fp doc n \<and>
         (c = Rasterize fp (n + 1) \<or> c = Ocr fp (n + 1))"
proof -
  assume "c \<in> set (ocr_calls env fp doc)"
  then obtain n where n: "n < length doc" "text_flagged fp doc n"
      and c: "c \<in> set (ocr_trace env (doc_page fp doc n))"
    by (auto simp: ocr_calls_def text_flagged_pages_def)
  from c ocr_trace_cases [of env "doc_page fp doc n"]
  have "c = Rasterize fp (n + 1) \<or> c = Ocr fp (n + 1)"
    by (auto simp: doc_page_def)
  with n show ?thesis by blast
qed

lemma CleanerBase_process_pdf_calls:
  assumes "files w fp = Some b" and "read_pdf env b = Inr doc"
  shows "\<exists>rest. new_calls w (CleanerBase_process_pdf env fp w) =
            Open_pdf fp # ocr_calls env fp doc @ rest \<and>
          set rest \<subseteq> {Copy fp (fp @ ''.bak''), Write_pdf fp (kept_doc env fp doc),
                       Remove (fp @ ''.bak'')}"
proof (cases "dropped_pages env fp doc = []")
  case True
  then show ?thesis
    using CleanerBase_process_pdf_try_eq [OF assms]
    by (simp add: CleanerBase_process_pdf_def log_write_def)
next
  case False
  define w3 where "w3 = w\<lparr>calls := calls w @ Open_pdf fp # ocr_calls env fp doc\<rparr>"
  obtain rest where rest:
    "calls (snd (CleanerBase_rebuild env fp doc (dropped_pages env fp doc) w3)) = calls w3 @ rest"
    "set rest \<subseteq> {Copy fp (fp @ ''.bak''), Write_pdf fp (kept_doc env fp doc),
                  Remove (fp @ ''.bak'')}"
    using CleanerBase_rebuild_calls by blast
  have "calls (CleanerBase_process_pdf env fp w) =
      calls (snd (CleanerBase_rebuild env fp doc (dropped_pages env fp doc) w3))"
    using False CleanerBase_process_pdf_try_eq [OF assms]
    by (simp add: CleanerBase_process_pdf_def log_write_def w3_def split: prod.splits option.splits)
  then have "calls (CleanerBase_process_pdf env fp w) =
      calls w @ (Open_pdf fp # ocr_calls env fp doc @ rest)"
    using rest(1) by (simp add: w3_def)
  then have "new_calls w (CleanerBase_process_pdf env fp w) =
      Open_pdf fp # ocr_calls env fp doc @ rest"
    by (rule new_calls_append)
  then show ?thesis using rest(2) by blast
qed

lemma text_flagged_Some:
  "text_layer (doc ! n) = Some t \<Longrightarrow> text_flagged fp doc n \<longleftrightarrow> strip t = []"
  by (simp add: text_flagged_def get_text_def doc_page_def)

lemma CleanerBase_ocr_only_flagged:
  assumes "files w fp = Some b" and "read_pdf env b = Inr doc"
    and "Rasterize p k \<in> set (new_calls w (CleanerBase_process_pdf env fp w)) \<or>
         Ocr p k \<in> set (new_calls w (CleanerBase_process_pdf env fp w))"
  shows "p = fp \<and> 0 < k \<and> k \<le> length doc \<and> text_flagged fp doc (k - 1)"
proof -
  obtain rest where nc: "new_calls w (CleanerBase_process_pdf env fp w) =
            Open_pdf fp # ocr_calls env fp doc @ rest"
    and rest: "set rest \<subseteq> {Copy fp (fp @ ''.bak''), Write_pdf fp (kept_doc env fp doc),
                       Remove (fp @ ''.bak'')}"
    using CleanerBase_process_pdf_calls [OF assms(1,2)] by blast
  from assms(3) nc rest
  have "Rasterize p k \<in> set (ocr_calls env fp doc) \<or> Ocr p k \<in> set (ocr_calls env fp doc)"
    by auto
  then show ?thesis
    using ocr_calls_mem [of "Rasterize p k" env fp doc] ocr_calls_mem [of "Ocr p k" env fp doc]
    by auto
qed

lemma CleanerBase_writes_kept:
  assumes "files w fp = Some b" and "read_pdf env b = Inr doc"
    and "Write_pdf p ps \<in> set (new_calls w (CleanerBase_process_pdf env fp w))"
  shows "p = fp \<and> ps = kept_doc env fp doc"
proof -
  obtain rest where nc: "new_calls w (CleanerBase_process_pdf env fp w) =
            Open_pdf fp # ocr_calls env fp doc @ rest"
    and rest: "set rest \<subseteq> {Copy fp (fp @ ''.bak''), Write_pdf fp (kept_doc env fp doc),
                       Remove (fp @ ''.bak'')}"
    using CleanerBase_process_pdf_calls [OF assms(1,2)] by blast
  have "Write_pdf p ps \<notin> set (ocr_calls env fp doc)"
    using ocr_calls_mem [of "Write_pdf p ps" env fp doc] by auto
  with assms(3) nc rest show ?thesis by auto
qed

lemma is_blank_page_text_empty:
  "\<not> text_empty page \<Longrightarrow>
     is_blank_page v env page file_path page_num poppler_path w = (False, w)"
  by (auto simp: text_empty_def is_blank_page_def split: option.splits)

subsection \<open>The example folder\<close>

lemma example_files [simp]:
  "files example_world ''/docs/a.pdf'' = Some ''%PDF mixed''"
  "files example_world ''/docs/B.PDF'' = Some ''%PDF blank''"
  "files example_world ''/docs/c.pdf'' = Some ''%PDF text''"
  "files example_world ''/docs/d.pdf'' = Some ''garbage''"
  by (simp_all add: example_world_def)

lemma example_read [simp]:
  "read_pdf example_env ''%PDF mixed'' = Inr [page_hello, page_white, page_scan]"
  "read_pdf example_env ''%PDF blank'' = Inr [page_white]"
  "read_pdf example_env ''%PDF text'' = Inr [page_hello]"
  "read_pdf example_env ''garbage'' = Inl (Library_error ''not a PDF'')"
  by (simp_all add: example_env_def)

lemma strip_space: "strip '' '' = []"
  by (simp add: strip_def isspace_def)

lemma strip_scanned: "strip ''Scanned text'' = ''Scanned text''"
  by (simp add: strip_def isspace_def)

lemma strip_Nil [simp]: "strip [] = []"
  by (simp add: strip_def)

lemma example_ocr_verdicts:
  "ocr_verdict example_env (doc_page fp doc 0) = True"
  "ocr_verdict example_env (doc_page fp doc (Suc 0)) = True"
  "ocr_verdict example_env (doc_page fp doc (Suc (Suc 0))) = False"
  by (simp_all add: ocr_verdict_def check_blank_page_def check_blank_page_try_def
        example_env_def doc_page_def Let_def strip_space strip_scanned)

lemma example_ocr_traces:
  "ocr_trace example_env (doc_page fp doc n) = [Rasterize fp (n + 1), Ocr fp (n + 1)]"
  by (simp add: ocr_trace_def check_blank_page_def check_blank_page_try_def
        example_env_def doc_page_def Let_def record_call_def empty_world_def)

lemma example_flags_mixed:
  "text_flagged fp [page_hello, page_white, page_scan] 0 = False"
  "text_flagged fp [page_hello, page_white, page_scan] (Suc 0) = True"
  "text_flagged fp [page_hello, page_white, page_scan] (Suc (Suc 0)) = True"
  by (simp_all add: text_flagged_def get_text_def doc_page_def page_hello_def page_white_def
        page_scan_def strip_hello strip_white)

lemma upt3: "[0..<3] = [0, Suc 0, Suc (Suc 0)]" "[0..<Suc (Suc (Suc 0))] = [0, Suc 0, Suc (Suc 0)]"
  by (simp_all add: upt_rec)

lemma example_mixed_lists:
  "text_flagged_pages fp [page_hello, page_white, page_scan] = [Suc 0, Suc (Suc 0)]"
  "dropped_pages example_env fp [page_hello, page_white, page_scan] = [Suc 0]"
  "kept_doc example_env fp [page_hello, page_white, page_scan] = [page_hello, page_scan]"
  "ocr_calls example_env fp [page_hello, page_white, page_scan]
     = [Rasterize fp 2, Ocr fp 2, Rasterize fp 3, Ocr fp 3]"
  by (simp_all add: text_flagged_pages_def dropped_pages_def kept_doc_def ocr_calls_def upt3
        example_flags_mixed example_ocr_verdicts example_ocr_traces)

lemma example_CleanerBase_run:
  "calls (CleanerBase_process_pdf example_env ''/docs/a.pdf'' example_world) =
     [Open_pdf ''/docs/a.pdf'', Rasterize ''/docs/a.pdf'' 2, Ocr ''/docs/a.pdf'' 2,
      Rasterize ''/docs/a.pdf'' 3, Ocr ''/docs/a.pdf'' 3,
      Copy ''/docs/a.pdf'' ''/docs/a.pdf.bak'',
      Write_pdf ''/docs/a.pdf'' [page_hello, page_scan],
      Remove ''/docs/a.pdf.bak'']"
  "log_file (CleanerBase_process_pdf example_env ''/docs/a.pdf'' example_world) =
     [Status_modified ''a.pdf'' 3 1]"
proof -
  have ew: "calls example_world = []" "log_file example_world = []"
    by (simp_all add: example_world_def)
  have ee: "copy_raises example_env = (\<lambda>s d. None)"
    "write_raises example_env ''/docs/a.pdf'' [page_hello, page_scan] = None"
    "remove_raises example_env = (\<lambda>p. None)"
    by (simp_all add: example_env_def)
  have bn: "os_path_basename ''/docs/a.pdf'' = ''a.pdf''"
    by (simp add: os_path_basename_def)
  have t: "CleanerBase_process_pdf_try example_env ''/docs/a.pdf'' example_world =
     CleanerBase_rebuild example_env ''/docs/a.pdf'' [page_hello, page_white, page_scan] [Suc 0]
       (example_world\<lparr>calls := calls example_world @ Open_pdf ''/docs/a.pdf'' #
          [Rasterize ''/docs/a.pdf'' 2, Ocr ''/docs/a.pdf'' 2,
           Rasterize ''/docs/a.pdf'' 3, Ocr ''/docs/a.pdf'' 3]\<rparr>)"
    using CleanerBase_process_pdf_try_eq [of example_world "''/docs/a.pdf''" "''%PDF mixed''"
        example_env "[page_hello, page_white, page_scan]"]
    by (simp add: example_mixed_lists)
  show "calls (CleanerBase_process_pdf example_env ''/docs/a.pdf'' example_world) =
     [Open_pdf ''/docs/a.pdf'', Rasterize ''/docs/a.pdf'' 2, Ocr ''/docs/a.pdf'' 2,
      Rasterize ''/docs/a.pdf'' 3, Ocr ''/docs/a.pdf'' 3,
      Copy ''/docs/a.pdf'' ''/docs/a.pdf.bak'',
      Write_pdf ''/docs/a.pdf'' [page_hello, page_scan],
      Remove ''/docs/a.pdf.bak'']"
    by (simp add: CleanerBase_process_pdf_def t CleanerBase_rebuild_def shutil_copy_def
          write_pdf_def os_remove_def record_call_def log_write_def Let_def ew ee upt3)
  show "log_file (CleanerBase_process_pdf example_env ''/docs/a.pdf'' example_world) =
     [Status_modified ''a.pdf'' 3 1]"
    by (simp add: CleanerBase_process_pdf_def t CleanerBase_rebuild_def shutil_copy_def
          write_pdf_def os_remove_def record_call_def log_write_def Let_def ew ee upt3 bn)
qed

lemma new_calls_self [simp]: "new_calls w w = []"
  by (simp add: new_calls_def)

lemma new_calls_empty [simp]: "calls w = [] \<Longrightarrow> new_calls w w' = calls w'"
  by (simp add: new_calls_def)

subsection \<open>One call of \<^verbatim>\<open>process_pdf\<close> in CleanerBase1 and CleanerBase2\<close>

lemma backup_path_example: "backup_path_of ''/docs/a.pdf'' = ''/docs/a.pdf.backup''"
  by (simp add: backup_path_of_def os_path_dirname_def os_path_basename_def os_path_join_def)

lemma backup_path_d: "backup_path_of ''/docs/d.pdf'' = ''/docs/d.pdf.backup''"
  by (simp add: backup_path_of_def os_path_dirname_def os_path_basename_def os_path_join_def)

lemma example_no_raise [simp]:
  "copy_raises example_env s d = None"
  "ps \<noteq> [] \<Longrightarrow> write_raises example_env p ps = None"
  "write_raises example_env p [] = Some (Library_error ''cannot save with zero pages'', None)"
  "move_raises example_env s d = None"
  "remove_raises example_env p = None"
  by (simp_all add: example_env_def)

lemma example_world_fields [simp]:
  "calls example_world = []" "shown example_world = []" "log_file example_world = []"
  "stop_requested example_world = False"
  by (simp_all add: example_world_def)

lemma process_pdf_copy_fails:
  "fst (shutil_copy env fp (backup_path_of fp) w) = Some e \<Longrightarrow>
   process_pdf v env fp pp w =
     messagebox (Showerror ''Failed to create backup copy'' e)
       (snd (shutil_copy env fp (backup_path_of fp) w))"
  by (cases "shutil_copy env fp (backup_path_of fp) w") (simp add: process_pdf_def)

lemma shutil_copy_ok:
  "files w src = Some b \<Longrightarrow> copy_raises env src dst = None \<Longrightarrow>
   shutil_copy env src dst w =
     (None, w\<lparr>calls := calls w @ [Copy src dst], files := (files w)(dst \<mapsto> b)\<rparr>)"
  by (simp add: shutil_copy_def record_call_def)

lemma files_after_copy [simp]:
  "files w fp = Some b \<Longrightarrow> ((files w)(x \<mapsto> b)) fp = Some b"
  by simp

lemma process_pdf_read_fails:
  assumes "files w fp = Some b" and "copy_raises env fp (backup_path_of fp) = None"
    and "read_pdf env b = Inl e"
  shows "process_pdf v env fp pp w =
     w\<lparr>files := (files w)(backup_path_of fp \<mapsto> b),
       calls := calls w @ [Copy fp (backup_path_of fp), Open_pdf fp],
       shown := shown w @ [Showerror ''Failed to read PDF'' e]\<rparr>"
  using assms
  by (simp add: process_pdf_def shutil_copy_ok open_pdf_def record_call_def messagebox_def
        Let_def del: fun_upd_apply)

lemma page_loop_run:
  "page_loop v env fp pp (Suc 0) pages [] 0 w =
     ((kept_pages v env fp pp pages, removed_count v env fp pp pages),
      w\<lparr>calls := calls w @ page_calls v env fp pp pages\<rparr>)"
  by (simp add: page_loop_eq kept_pages_def removed_count_def page_calls_def del: upt_Suc)

lemma process_pdf_classified:
  assumes "files w fp = Some b" and "copy_raises env fp (backup_path_of fp) = None"
    and "read_pdf env b = Inr pages"
  shows "process_pdf v env fp pp w =
     (if kept_pages v env fp pp pages = []
      then messagebox (Showwarning ''All pages are blank. The PDF will not be modified.'')
             (w\<lparr>files := (files w)(backup_path_of fp \<mapsto> b),
                calls := calls w @ Copy fp (backup_path_of fp) # Open_pdf fp #
                           page_calls v env fp pp pages\<rparr>)
      else replace_original v env fp (backup_path_of fp) (kept_pages v env fp pp pages)
             (length pages) (removed_count v env fp pp pages)
             (w\<lparr>files := (files w)(backup_path_of fp \<mapsto> b),
                calls := calls w @ Copy fp (backup_path_of fp) # Open_pdf fp #
                           page_calls v env fp pp pages\<rparr>))"
  using assms
  by (simp add: process_pdf_def shutil_copy_ok open_pdf_def record_call_def page_loop_run
        Let_def del: fun_upd_apply)

subsection \<open>Backup and temporary paths\<close>

lemma basename_no_slash: "CHR ''/'' \<notin> set (os_path_basename p)"
proof -
  have "CHR ''/'' \<notin> set (takeWhile (\<lambda>c. c \<noteq> CHR ''/'') (rev p))"
    using set_takeWhileD by fastforce
  then show ?thesis by (simp add: os_path_basename_def)
qed

lemma basename_append:
  assumes "CHR ''/'' \<notin> set s"
  shows "os_path_basename (p @ s) = os_path_basename p @ s"
proof -
  have "takeWhile (\<lambda>c. c \<noteq> CHR ''/'') (rev s @ rev p)
          = rev s @ takeWhile (\<lambda>c. c \<noteq> CHR ''/'') (rev p)"
    using assms by (intro takeWhile_append2) auto
  then show ?thesis by (simp add: os_path_basename_def)
qed

lemma dirname_append:
  assumes "CHR ''/'' \<notin> set s"
  shows "os_path_dirname (p @ s) = os_path_dirname p"
proof -
  have "dropWhile (\<lambda>c. c \<noteq> CHR ''/'') (rev s @ rev p)
          = dropWhile (\<lambda>c. c \<noteq> CHR ''/'') (rev p)"
    using assms by (intro dropWhile_append2) auto
  then show ?thesis by (simp add: os_path_dirname_def)
qed

lemma basename_after_slash:
  assumes "CHR ''/'' \<notin> set s"
  shows "os_path_basename (x @ ''/'' @ s) = s"
proof -
  have "takeWhile (\<lambda>c. c \<noteq> CHR ''/'') (rev s @ (CHR ''/'' # rev x)) = rev s"
    using assms by (subst takeWhile_append2) auto
  then show ?thesis by (simp add: os_path_basename_def)
qed

lemma basename_join:
  assumes "CHR ''/'' \<notin> set s" and "s \<noteq> []"
  shows "os_path_basename (os_path_join d s) = s"
proof (cases "d = []")
  case True
  then show ?thesis
    using assms basename_append [of s "[]"]
    by (cases s) (auto simp: os_path_join_def os_path_basename_def)
next
  case False
  have hd: "hd s \<noteq> CHR ''/''"
    using assms by (cases s) auto
  show ?thesis
  proof (cases "last d = CHR ''/''")
    case True
    then obtain x where x: "d = x @ ''/''"
      using False by (metis append_butlast_last_id)
    have "os_path_basename ((x @ ''/'') @ s) = s"
      using basename_after_slash [OF assms(1), of x] by simp
    then have "os_path_basename (d @ s) = s"
      unfolding x .
    then show ?thesis
      using False True hd by (simp add: os_path_join_def)
  next
    case nl: False
    then show ?thesis
      using basename_after_slash [OF assms(1), of d] False hd
      by (simp add: os_path_join_def)
  qed
qed

lemma backup_basename:
  "os_path_basename (backup_path_of p) = os_path_basename p @ ''.backup''"
  using basename_join [of "os_path_basename p @ ''.backup''" "os_path_dirname p"]
    basename_no_slash [of p]
  by (simp add: backup_path_of_def)

lemma backup_neq_original [simp]: "backup_path_of p \<noteq> p"
proof
  assume "backup_path_of p = p"
  then have "os_path_basename (backup_path_of p) = os_path_basename p" by simp
  then show False by (simp add: backup_basename)
qed

lemma backup_neq_temp [simp]: "backup_path_of p \<noteq> p @ ''.temp''"
proof
  assume "backup_path_of p = p @ ''.temp''"
  then have "os_path_basename (backup_path_of p) = os_path_basename (p @ ''.temp'')" by simp
  then show False
    using basename_append [of "''.temp''" p] by (simp add: backup_basename)
qed

lemma temp_dirname: "os_path_dirname (p @ ''.temp'') = os_path_dirname p"
  by (rule dirname_append) simp

subsection \<open>The replace stage\<close>

lemma new_calls_upd [simp]:
  "new_calls w (w'\<lparr>shown := s\<rparr>) = new_calls w w'"
  "new_calls w (w'\<lparr>files := f\<rparr>) = new_calls w w'"
  "new_calls w (w'\<lparr>log_file := l\<rparr>) = new_calls w w'"
  "new_calls w (w'\<lparr>calls := calls w @ cs\<rparr>) = cs"
  by (simp_all add: new_calls_def)

lemma replace_original_eq:
  "replace_original v env fp backup kept tot rem w =
     (case write_temp_file v env fp kept w of
        (Inl e, w1) \<Rightarrow> messagebox (Showerror ''Failed to write modified PDF'' e) w1
      | (Inr t, w1) \<Rightarrow> move_stage env t fp backup tot rem w1)"
  by (simp add: replace_original_def move_stage_def split: prod.splits sum.splits)

lemma move_stage_calls:
  "files w1 t \<noteq> None \<Longrightarrow>
   calls (move_stage env t fp backup tot rem w1) =
     calls w1 @ Move t fp # (if move_raises env t fp = None then [Remove backup] else [])"
  by (auto simp: move_stage_def shutil_move_def os_remove_def record_call_def messagebox_def
        Let_def split: option.splits prod.splits)

lemma write_temp_file_1:
  "write_temp_file CleanerBase1 env fp kept w =
     (case write_raises env (fp @ ''.temp'') kept of
        Some (e, left) \<Rightarrow>
          (Inl e, w\<lparr>calls := calls w @ [Write_pdf (fp @ ''.temp'') kept],
                    files := leave (fp @ ''.temp'') left (files w)\<rparr>)
      | None \<Rightarrow> (Inr (fp @ ''.temp''),
                 w\<lparr>calls := calls w @ [Write_pdf (fp @ ''.temp'') kept],
                   files := (files w)(fp @ ''.temp'' \<mapsto> pdf_bytes env kept)\<rparr>))"
  by (simp add: write_pdf_def record_call_def Let_def split: option.splits prod.splits)

lemma write_temp_file_2:
  "write_temp_file CleanerBase2 env fp kept w =
     (case named_temporary_file env of
        Inl e \<Rightarrow> (Inl e, w\<lparr>calls := calls w @ [Make_temp]\<rparr>)
      | Inr t \<Rightarrow>
          if files w t \<noteq> None
          then (Inl (FileExistsError t), w\<lparr>calls := calls w @ [Make_temp]\<rparr>)
          else (case write_raises env t kept of
                  Some (e, left) \<Rightarrow>
                    (Inl e, w\<lparr>calls := calls w @ [Make_temp, Write_pdf t kept],
                              files := leave t left ((files w)(t \<mapsto> []))\<rparr>)
                | None \<Rightarrow> (Inr t, w\<lparr>calls := calls w @ [Make_temp, Write_pdf t kept],
                                     files := (files w)(t \<mapsto> pdf_bytes env kept)\<rparr>)))"
  by (simp add: write_pdf_def NamedTemporaryFile_def record_call_def Let_def
        split: option.splits sum.splits prod.splits)

lemma leave_other [simp]: "p \<noteq> q \<Longrightarrow> leave p left fs q = fs q"
  by (cases left) simp_all

lemma leave_self: "leave p left fs p = (case left of None \<Rightarrow> fs p | Some x \<Rightarrow> Some x)"
  by (cases left) simp_all

lemma move_stage_files:
  "files w1 t = Some x \<Longrightarrow> backup \<noteq> fp \<Longrightarrow>
   files (move_stage env t fp backup tot rem w1) fp =
     (case move_raises env t fp of
        None \<Rightarrow> Some x
      | Some (e, left) \<Rightarrow> (case left of None \<Rightarrow> files w1 fp | Some y \<Rightarrow> Some y))"
  by (auto simp: move_stage_def shutil_move_def os_remove_def record_call_def messagebox_def
        Let_def leave_self split: option.splits prod.splits)

lemma replace_original_calls:
  assumes "backup \<noteq> fp" and "files w fp \<noteq> None"
  shows "\<exists>body. calls (replace_original v env fp backup kept tot rem w)
            = calls w @ temp_prefix v @ body \<and>
     (body = [] \<and> files (replace_original v env fp backup kept tot rem w) fp = files w fp \<or>
      (\<exists>t. temp_file_of v env fp = Some t \<and> t \<noteq> fp \<and>
           (v = CleanerBase2 \<longrightarrow> files w t = None) \<and>
           (body = [Write_pdf t kept] \<and>
              files (replace_original v env fp backup kept tot rem w) fp = files w fp \<or>
            body = [Write_pdf t kept, Move t fp] \<or>
            body = [Write_pdf t kept, Move t fp, Remove backup] \<and>
              files (replace_original v env fp backup kept tot rem w) fp
                = Some (pdf_bytes env kept))))"
proof (cases v)
  case CleanerBase1
  show ?thesis
  proof (cases "write_raises env (fp @ ''.temp'') kept")
    case None
    then show ?thesis
      using CleanerBase1 assms
      by (simp add: replace_original_eq write_temp_file_1 move_stage_calls move_stage_files
            temp_prefix_def del: write_temp_file.simps)
  next
    case (Some f)
    then show ?thesis
      using CleanerBase1
      by (cases f)
        (simp add: replace_original_eq write_temp_file_1 messagebox_def temp_prefix_def
            del: write_temp_file.simps)
  qed
next
  case CleanerBase2
  show ?thesis
  proof (cases "named_temporary_file env")
    case (Inl e)
    then show ?thesis
      using CleanerBase2
      by (simp add: replace_original_eq write_temp_file_2 messagebox_def temp_prefix_def
            del: write_temp_file.simps)
  next
    case (Inr t)
    show ?thesis
    proof (cases "files w t")
      case (Some x)
      then show ?thesis
        using CleanerBase2 Inr
        by (simp add: replace_original_eq write_temp_file_2 messagebox_def temp_prefix_def
            del: write_temp_file.simps)
    next
      case None
      then have ne: "t \<noteq> fp" using assms(2) by auto
      show ?thesis
      proof (cases "write_raises env t kept")
        case wn: None
        then show ?thesis
          using CleanerBase2 Inr None ne assms
          by (simp add: replace_original_eq write_temp_file_2 move_stage_calls
                move_stage_files temp_prefix_def del: write_temp_file.simps)
      next
        case (Some f)
        then show ?thesis
          using CleanerBase2 Inr None ne
          by (cases f)
            (simp add: replace_original_eq write_temp_file_2 messagebox_def temp_prefix_def
              del: write_temp_file.simps)
      qed
    qed
  qed
qed

lemma replace_original_trace:
  assumes "backup \<noteq> fp" and "files w fp = Some b" and "temp_file_of v env fp = Some t"
    and "v = CleanerBase2 \<longrightarrow> files w t = None"
  shows "calls (replace_original v env fp backup kept tot rem w) =
      calls w @ temp_prefix v @ Write_pdf t kept #
        (case write_raises env t kept of
           Some f \<Rightarrow> []
         | None \<Rightarrow> Move t fp # (case move_raises env t fp of
                                  Some f \<Rightarrow> []
                                | None \<Rightarrow> [Remove backup]))"
    and "files (replace_original v env fp backup kept tot rem w) fp =
        (case write_raises env t kept of
           Some f \<Rightarrow> Some b
         | None \<Rightarrow> (case move_raises env t fp of
                      None \<Rightarrow> Some (pdf_bytes env kept)
                    | Some (e, left) \<Rightarrow> (case left of None \<Rightarrow> Some b | Some y \<Rightarrow> Some y)))"
proof -
  have tf: "t \<noteq> fp"
    using assms(2,3,4) by (cases v) auto
  have nt: "v = CleanerBase2 \<Longrightarrow> named_temporary_file env = Inr t"
    using assms(3) by (simp split: sum.splits)
  have t1: "v = CleanerBase1 \<Longrightarrow> t = fp @ ''.temp''"
    using assms(3) by simp
  show "calls (replace_original v env fp backup kept tot rem w) =
      calls w @ temp_prefix v @ Write_pdf t kept #
        (case write_raises env t kept of
           Some f \<Rightarrow> []
         | None \<Rightarrow> Move t fp # (case move_raises env t fp of
                                  Some f \<Rightarrow> []
                                | None \<Rightarrow> [Remove backup]))"
  proof (cases v)
    case CleanerBase1
    then show ?thesis
      using t1 assms(1,2)
      by (simp add: replace_original_eq write_temp_file_1 move_stage_calls messagebox_def
          temp_prefix_def del: write_temp_file.simps split: option.splits prod.splits)
  next
    case CleanerBase2
    then show ?thesis
      using nt assms(1,2,4)
      by (simp add: replace_original_eq write_temp_file_2 move_stage_calls messagebox_def
          temp_prefix_def del: write_temp_file.simps split: option.splits prod.splits)
  qed
  show "files (replace_original v env fp backup kept tot rem w) fp =
        (case write_raises env t kept of
           Some f \<Rightarrow> Some b
         | None \<Rightarrow> (case move_raises env t fp of
                      None \<Rightarrow> Some (pdf_bytes env kept)
                    | Some (e, left) \<Rightarrow> (case left of None \<Rightarrow> Some b | Some y \<Rightarrow> Some y)))"
  proof (cases v)
    case CleanerBase1
    then show ?thesis
      using t1 assms(1,2) tf
      by (simp add: replace_original_eq write_temp_file_1 move_stage_files messagebox_def
          del: write_temp_file.simps split: option.splits prod.splits)
  next
    case CleanerBase2
    then show ?thesis
      using nt assms(1,2,4) tf
      by (simp add: replace_original_eq write_temp_file_2 move_stage_files messagebox_def
          del: write_temp_file.simps split: option.splits prod.splits)
  qed
qed

lemma page_calls_mem:
  "c \<in> set (page_calls v env fp pp pages) \<Longrightarrow> \<exists>i. c = Rasterize fp i \<or> c = Ocr fp i"
proof -
  assume "c \<in> set (page_calls v env fp pp pages)"
  then obtain i page where "c \<in> set (blank_trace v env page fp i pp)"
    by (auto simp: page_calls_def)
  then show ?thesis
    using blank_trace_cases [of v env page fp i pp] by auto
qed

lemma temp_prefix_mem: "c \<in> set (temp_prefix v) \<Longrightarrow> c = Make_temp"
  by (cases v) (simp_all add: temp_prefix_def)

lemma process_pdf_rebuild_calls:
  assumes "files w fp = Some b" and "copy_raises env fp (backup_path_of fp) = None"
    and "read_pdf env b = Inr pages" and "kept_pages v env fp pp pages \<noteq> []"
  shows "\<exists>body. new_calls w (process_pdf v env fp pp w)
            = Copy fp (backup_path_of fp) # Open_pdf fp # page_calls v env fp pp pages
                @ temp_prefix v @ body \<and>
     (body = [] \<and> files (process_pdf v env fp pp w) fp = Some b \<or>
      (\<exists>t. temp_file_of v env fp = Some t \<and> t \<noteq> fp \<and>
           (v = CleanerBase2 \<longrightarrow> files w t = None) \<and>
           (body = [Write_pdf t (kept_pages v env fp pp pages)] \<and>
              files (process_pdf v env fp pp w) fp = Some b \<or>
            body = [Write_pdf t (kept_pages v env fp pp pages), Move t fp] \<or>
            body = [Write_pdf t (kept_pages v env fp pp pages), Move t fp,
                    Remove (backup_path_of fp)] \<and>
              files (process_pdf v env fp pp w) fp
                = Some (pdf_bytes env (kept_pages v env fp pp pages)))))"
proof -
  define w3 where "w3 = w\<lparr>files := (files w)(backup_path_of fp \<mapsto> b),
                calls := calls w @ Copy fp (backup_path_of fp) # Open_pdf fp #
                           page_calls v env fp pp pages\<rparr>"
  have eq: "process_pdf v env fp pp w =
      replace_original v env fp (backup_path_of fp) (kept_pages v env fp pp pages)
             (length pages) (removed_count v env fp pp pages) w3"
    using process_pdf_classified [OF assms(1-3), of v pp] assms(4) by (simp add: w3_def)
  have f3: "files w3 fp = Some b"
    using assms(1) by (simp add: w3_def)
  have c3: "calls w3 = calls w @ Copy fp (backup_path_of fp) # Open_pdf fp #
                           page_calls v env fp pp pages"
    by (simp add: w3_def)
  have t3: "files w3 t = None \<Longrightarrow> files w t = None" for t
    by (simp add: w3_def split: if_splits)
  from replace_original_calls [of "backup_path_of fp" fp w3 v env "kept_pages v env fp pp pages"
      "length pages" "removed_count v env fp pp pages"] f3
  obtain body where body:
    "calls (process_pdf v env fp pp w) = calls w3 @ temp_prefix v @ body"
    "body = [] \<and> files (process_pdf v env fp pp w) fp = Some b \<or>
      (\<exists>t. temp_file_of v env fp = Some t \<and> t \<noteq> fp \<and>
           (v = CleanerBase2 \<longrightarrow> files w3 t = None) \<and>
           (body = [Write_pdf t (kept_pages v env fp pp pages)] \<and>
              files (process_pdf v env fp pp w) fp = Some b \<or>
            body = [Write_pdf t (kept_pages v env fp pp pages), Move t fp] \<or>
            body = [Write_pdf t (kept_pages v env fp pp pages), Move t fp,
                    Remove (backup_path_of fp)] \<and>
              files (process_pdf v env fp pp w) fp
                = Some (pdf_bytes env (kept_pages v env fp pp pages))))"
    unfolding eq by auto
  have nc: "new_calls w (process_pdf v env fp pp w)
            = Copy fp (backup_path_of fp) # Open_pdf fp # page_calls v env fp pp pages
                @ temp_prefix v @ body"
    using body(1) c3 by (simp add: new_calls_def)
  show ?thesis
    using nc body(2) t3 by blast
qed

lemma process_pdf_trace:
  assumes "files w fp = Some b" and "copy_raises env fp (backup_path_of fp) = None"
    and "read_pdf env b = Inr pages" and "kept_pages v env fp pp pages \<noteq> []"
    and "temp_file_of v env fp = Some t"
    and "v = CleanerBase2 \<longrightarrow> files w t = None \<and> t \<noteq> backup_path_of fp"
  shows "new_calls w (process_pdf v env fp pp w) =
      Copy fp (backup_path_of fp) # Open_pdf fp # page_calls v env fp pp pages @
      temp_prefix v @ Write_pdf t (kept_pages v env fp pp pages) #
        (case write_raises env t (kept_pages v env fp pp pages) of
           Some f \<Rightarrow> []
         | None \<Rightarrow> Move t fp # (case move_raises env t fp of
                                  Some f \<Rightarrow> []
                                | None \<Rightarrow> [Remove (backup_path_of fp)]))"
    and "files (process_pdf v env fp pp w) fp =
        (case write_raises env t (kept_pages v env fp pp pages) of
           Some f \<Rightarrow> Some b
         | None \<Rightarrow> (case move_raises env t fp of
                      None \<Rightarrow> Some (pdf_bytes env (kept_pages v env fp pp pages))
                    | Some (e, left) \<Rightarrow> (case left of None \<Rightarrow> Some b | Some y \<Rightarrow> Some y)))"
proof -
  define w3 where "w3 = w\<lparr>files := (files w)(backup_path_of fp \<mapsto> b),
                calls := calls w @ Copy fp (backup_path_of fp) # Open_pdf fp #
                           page_calls v env fp pp pages\<rparr>"
  have eq: "process_pdf v env fp pp w =
      replace_original v env fp (backup_path_of fp) (kept_pages v env fp pp pages)
             (length pages) (removed_count v env fp pp pages) w3"
    using process_pdf_classified [OF assms(1-3), of v pp] assms(4) by (simp add: w3_def)
  have f3: "files w3 fp = Some b"
    using assms(1) by (simp add: w3_def)
  have c3: "calls w3 = calls w @ Copy fp (backup_path_of fp) # Open_pdf fp #
                           page_calls v env fp pp pages"
    by (simp add: w3_def)
  have t3: "v = CleanerBase2 \<longrightarrow> files w3 t = None"
    using assms(6) by (simp add: w3_def)
  note r = replace_original_trace [OF backup_neq_original f3 assms(5) t3,
      of "kept_pages v env fp pp pages" "length pages" "removed_count v env fp pp pages"]
  show "new_calls w (process_pdf v env fp pp w) =
      Copy fp (backup_path_of fp) # Open_pdf fp # page_calls v env fp pp pages @
      temp_prefix v @ Write_pdf t (kept_pages v env fp pp pages) #
        (case write_raises env t (kept_pages v env fp pp pages) of
           Some f \<Rightarrow> []
         | None \<Rightarrow> Move t fp # (case move_raises env t fp of
                                  Some f \<Rightarrow> []
                                | None \<Rightarrow> [Remove (backup_path_of fp)]))"
    unfolding eq new_calls_def r(1) c3 by simp
  show "files (process_pdf v env fp pp w) fp =
        (case write_raises env t (kept_pages v env fp pp pages) of
           Some f \<Rightarrow> Some b
         | None \<Rightarrow> (case move_raises env t fp of
                      None \<Rightarrow> Some (pdf_bytes env (kept_pages v env fp pp pages))
                    | Some (e, left) \<Rightarrow> (case left of None \<Rightarrow> Some b | Some y \<Rightarrow> Some y)))"
    unfolding eq by (rule r(2))
qed

lemma stage_write_mem:
  assumes "N = Copy a b # Open_pdf c # page_calls v env fp pp pages @ temp_prefix v @ body"
    and "Write_pdf p ps \<in> set N"
  shows "Write_pdf p ps \<in> set body"
  using assms page_calls_mem [of "Write_pdf p ps" v env fp pp pages]
    temp_prefix_mem [of "Write_pdf p ps" v]
  by auto

lemma stage_move_mem:
  assumes "N = Copy a b # Open_pdf c # page_calls v env fp pp pages @ temp_prefix v @ body"
    and "Move s d \<in> set N"
  shows "Move s d \<in> set body"
  using assms page_calls_mem [of "Move s d" v env fp pp pages]
    temp_prefix_mem [of "Move s d" v]
  by auto

lemma CleanerBase_no_move:
  assumes "files w fp = Some b" and "read_pdf env b = Inr doc"
  shows "Move s d \<notin> set (new_calls w (CleanerBase_process_pdf env fp w))"
proof -
  obtain rest where nc: "new_calls w (CleanerBase_process_pdf env fp w) =
            Open_pdf fp # ocr_calls env fp doc @ rest"
    and rest: "set rest \<subseteq> {Copy fp (fp @ ''.bak''), Write_pdf fp (kept_doc env fp doc),
                       Remove (fp @ ''.bak'')}"
    using CleanerBase_process_pdf_calls [OF assms] by blast
  have "Move s d \<notin> set (ocr_calls env fp doc)"
    using ocr_calls_mem [of "Move s d" env fp doc] by auto
  with nc rest show ?thesis by auto
qed

lemma move_stage_success:
  assumes "files w1 t = Some x" and "backup \<noteq> t" and "files w1 backup = Some y"
    and "move_raises env t fp = None" and "remove_raises env backup = None"
    and "backup \<noteq> fp"
  shows "files (move_stage env t fp backup tot rem w1)
           = (((files w1)(t := None))(fp \<mapsto> x))(backup := None)"
    and "shown (move_stage env t fp backup tot rem w1) = shown w1 @ [Showinfo_success tot rem]"
    and "calls (move_stage env t fp backup tot rem w1) = calls w1 @ [Move t fp, Remove backup]"
  using assms
  by (simp_all add: move_stage_def shutil_move_def os_remove_def record_call_def messagebox_def
        Let_def)

lemma process_pdf_success:
  assumes "files w fp = Some b" and "copy_raises env fp (backup_path_of fp) = None"
    and "read_pdf env b = Inr pages" and "kept_pages v env fp pp pages \<noteq> []"
    and "temp_file_of v env fp = Some t"
    and "v = CleanerBase2 \<longrightarrow> files w t = None \<and> t \<noteq> backup_path_of fp"
    and "write_raises env t (kept_pages v env fp pp pages) = None"
    and "move_raises env t fp = None"
    and "remove_raises env (backup_path_of fp) = None"
  shows "files (process_pdf v env fp pp w) fp = Some (pdf_bytes env (kept_pages v env fp pp pages))"
    and "files (process_pdf v env fp pp w) (backup_path_of fp) = None"
    and "shown (process_pdf v env fp pp w)
           = shown w @ [Showinfo_success (length pages) (removed_count v env fp pp pages)]"
    and "new_calls w (process_pdf v env fp pp w)
           = Copy fp (backup_path_of fp) # Open_pdf fp # page_calls v env fp pp pages
               @ temp_prefix v @ [Write_pdf t (kept_pages v env fp pp pages), Move t fp,
                                   Remove (backup_path_of fp)]"
proof -
  define K where "K = kept_pages v env fp pp pages"
  define w3 where "w3 = w\<lparr>files := (files w)(backup_path_of fp \<mapsto> b),
                calls := calls w @ Copy fp (backup_path_of fp) # Open_pdf fp #
                           page_calls v env fp pp pages\<rparr>"
  have eq: "process_pdf v env fp pp w =
      replace_original v env fp (backup_path_of fp) K
             (length pages) (removed_count v env fp pp pages) w3"
    using process_pdf_classified [OF assms(1-3), of v pp] assms(4) by (simp add: w3_def K_def)
  have tb: "t \<noteq> backup_path_of fp"
    using assms(5,6) backup_neq_temp [of fp, symmetric] by (cases v) auto
  have tf: "t \<noteq> fp"
    using assms(1,5,6) by (cases v) auto
  have f3: "files w3 (backup_path_of fp) = Some b" "shown w3 = shown w"
    "calls w3 = calls w @ Copy fp (backup_path_of fp) # Open_pdf fp #
                           page_calls v env fp pp pages"
    by (simp_all add: w3_def)
  have wt: "\<exists>w4. write_temp_file v env fp K w3 = (Inr t, w4) \<and>
      files w4 = (files w3)(t \<mapsto> pdf_bytes env K) \<and> shown w4 = shown w3 \<and>
      calls w4 = calls w3 @ temp_prefix v @ [Write_pdf t K]"
  proof (cases v)
    case CleanerBase1
    then show ?thesis
      using assms(5,7)
      by (simp add: write_temp_file_1 temp_prefix_def K_def del: write_temp_file.simps)
  next
    case CleanerBase2
    then have fn: "files w3 t = None"
      using assms(6) tb by (simp add: w3_def)
    have nt: "named_temporary_file env = Inr t"
      using assms(5) CleanerBase2 by (simp split: sum.splits)
    have wr: "write_raises env t K = None"
      using assms(7) by (simp add: K_def)
    show ?thesis
      unfolding CleanerBase2
      by (simp add: write_temp_file_2 nt fn wr temp_prefix_def del: write_temp_file.simps)
  qed
  then obtain w4 where w4: "write_temp_file v env fp K w3 = (Inr t, w4)"
      "files w4 = (files w3)(t \<mapsto> pdf_bytes env K)" "shown w4 = shown w3"
      "calls w4 = calls w3 @ temp_prefix v @ [Write_pdf t K]"
    by blast
  have eq2: "process_pdf v env fp pp w =
      move_stage env t fp (backup_path_of fp) (length pages) (removed_count v env fp pp pages) w4"
    unfolding eq by (simp add: replace_original_eq w4(1))
  have f4: "files w4 t = Some (pdf_bytes env K)" "files w4 (backup_path_of fp) = Some b"
    using tb by (simp_all add: w4(2) f3)
  note ms = move_stage_success [OF f4(1) tb [symmetric] f4(2) assms(8,9) backup_neq_original,
      of "length pages" "removed_count v env fp pp pages"]
  show "files (process_pdf v env fp pp w) fp = Some (pdf_bytes env (kept_pages v env fp pp pages))"
    unfolding eq2 ms(1) using backup_neq_original [of fp, symmetric] by (simp add: K_def)
  show "files (process_pdf v env fp pp w) (backup_path_of fp) = None"
    unfolding eq2 ms(1) by simp
  show "shown (process_pdf v env fp pp w)
           = shown w @ [Showinfo_success (length pages) (removed_count v env fp pp pages)]"
    unfolding eq2 ms(2) by (simp add: w4(3) f3)
  show "new_calls w (process_pdf v env fp pp w)
           = Copy fp (backup_path_of fp) # Open_pdf fp # page_calls v env fp pp pages
               @ temp_prefix v @ [Write_pdf t (kept_pages v env fp pp pages), Move t fp,
                                   Remove (backup_path_of fp)]"
    unfolding eq2 by (simp add: ms(3) w4(4) f3 new_calls_def K_def)
qed

subsection \<open>The example folder, continued\<close>

lemma upt_1_4: "[1..<1 + length [a, b, c]] = [1, 2, 3]" "[1..<1 + length [a]] = [1]"
  by (simp_all add: upt_rec)

lemma example_verdict_hello [simp]:
  "blank_verdict v example_env page_hello fp i pp = False"
  "blank_trace v example_env page_hello fp i pp = []"
  by (simp_all add: blank_verdict_def blank_trace_def is_blank_page_def page_hello_def
        strip_hello empty_world_def)

lemma example_verdict_white [simp]:
  "i \<noteq> 3 \<Longrightarrow> blank_verdict v example_env page_white fp i pp = True"
  "i \<noteq> 3 \<Longrightarrow> blank_trace v example_env page_white fp i pp = [Rasterize fp i, Ocr fp i]"
  by (cases v;
      simp add: blank_verdict_def blank_trace_def is_blank_page_def is_blank_page_try_def
        page_white_def strip_white strip_space empty_world_def example_env_def record_call_def
        Let_def)+

lemma example_verdict_scan [simp]:
  "blank_verdict CleanerBase1 example_env page_scan fp 3 pp = False"
  "blank_verdict CleanerBase2 example_env page_scan fp 3 pp = True"
  "blank_trace CleanerBase1 example_env page_scan fp 3 pp = [Rasterize fp 3, Ocr fp 3]"
  "blank_trace CleanerBase2 example_env page_scan fp 3 pp = [Rasterize fp 3, Ocr fp 3]"
  by (simp_all add: blank_verdict_def blank_trace_def is_blank_page_def is_blank_page_try_def
        page_scan_def strip_scanned empty_world_def example_env_def record_call_def Let_def)

lemma example_kept_mixed:
  "kept_pages CleanerBase1 example_env fp pp [page_hello, page_white, page_scan]
     = [page_hello, page_scan]"
  "removed_count CleanerBase1 example_env fp pp [page_hello, page_white, page_scan] = 1"
  "kept_pages CleanerBase2 example_env fp pp [page_hello, page_white, page_scan]
     = [page_hello]"
  "removed_count CleanerBase2 example_env fp pp [page_hello, page_white, page_scan] = 2"
  "page_calls CleanerBase1 example_env fp pp [page_hello, page_white, page_scan]
     = [Rasterize fp 2, Ocr fp 2, Rasterize fp 3, Ocr fp 3]"
  "page_calls CleanerBase2 example_env fp pp [page_hello, page_white, page_scan]
     = [Rasterize fp 2, Ocr fp 2, Rasterize fp 3, Ocr fp 3]"
  unfolding kept_pages_def removed_count_def page_calls_def upt_1_4 by simp_all

lemma example_kept_text:
  "kept_pages v example_env fp pp [page_hello] = [page_hello]"
  "removed_count v example_env fp pp [page_hello] = 0"
  "page_calls v example_env fp pp [page_hello] = []"
  unfolding kept_pages_def removed_count_def page_calls_def upt_1_4 by simp_all

lemma example_kept_blank:
  "kept_pages v example_env fp pp [page_white] = []"
  "removed_count v example_env fp pp [page_white] = 1"
  "page_calls v example_env fp pp [page_white] = [Rasterize fp 1, Ocr fp 1]"
  unfolding kept_pages_def removed_count_def page_calls_def upt_1_4 by simp_all

subsection \<open>A document whose pages are all blank\<close>

lemma bak_neq [simp]: "fp @ ''.bak'' \<noteq> fp" "fp \<noteq> fp @ ''.bak''"
  by simp_all

lemma CleanerBase_rebuild_trace:
  assumes "files w fp = Some b"
  shows "calls (snd (CleanerBase_rebuild env fp doc (dropped_pages env fp doc) w)) =
           calls w @ Copy fp (fp @ ''.bak'') #
             (case copy_raises env fp (fp @ ''.bak'') of
                Some f \<Rightarrow> []
              | None \<Rightarrow> Write_pdf fp (kept_doc env fp doc) #
                  (case write_raises env fp (kept_doc env fp doc) of
                     Some f \<Rightarrow> []
                   | None \<Rightarrow> [Remove (fp @ ''.bak'')]))"
    and "files (snd (CleanerBase_rebuild env fp doc (dropped_pages env fp doc) w)) fp =
           (case copy_raises env fp (fp @ ''.bak'') of
              Some f \<Rightarrow> Some b
            | None \<Rightarrow>
                (case write_raises env fp (kept_doc env fp doc) of
                   None \<Rightarrow> Some (pdf_bytes env (kept_doc env fp doc))
                 | Some (e, left) \<Rightarrow> (case left of None \<Rightarrow> Some b | Some y \<Rightarrow> Some y)))"
  using assms
  by (simp_all add: CleanerBase_rebuild_def shutil_copy_def write_pdf_def os_remove_def
        record_call_def log_write_def Let_def kept_doc_eq leave_self
        split: option.splits prod.splits)

lemma CleanerBase_rebuild_write_fails:
  assumes "files w fp = Some b" and "copy_raises env fp (fp @ ''.bak'') = None"
    and "write_raises env fp (kept_doc env fp doc) = Some (e, left)"
  shows "CleanerBase_rebuild env fp doc (dropped_pages env fp doc) w =
     (Some e, w\<lparr>files := leave fp left ((files w)(fp @ ''.bak'' \<mapsto> b)),
               calls := calls w @ [Copy fp (fp @ ''.bak''),
                                   Write_pdf fp (kept_doc env fp doc)]\<rparr>)"
  using assms
  by (simp add: CleanerBase_rebuild_def shutil_copy_ok write_pdf_def record_call_def Let_def
        kept_doc_eq del: fun_upd_apply)

lemma CleanerBase_process_pdf_frame:
  "files (CleanerBase_process_pdf env fp w) = files (snd (CleanerBase_process_pdf_try env fp w))"
  "calls (CleanerBase_process_pdf env fp w) = calls (snd (CleanerBase_process_pdf_try env fp w))"
  by (simp_all add: CleanerBase_process_pdf_def log_write_def split: prod.splits option.splits)

lemma kept_doc_empty:
  assumes "kept_doc env fp doc = []" and "doc \<noteq> []"
  shows "dropped_pages env fp doc \<noteq> []"
proof -
  have "0 < length doc" using assms(2) by simp
  moreover have "\<forall>n \<in> set [0..<length doc].
      text_flagged fp doc n \<and> ocr_verdict env (doc_page fp doc n)"
    using assms(1) by (simp add: kept_doc_def filter_empty_conv)
  ultimately have "0 \<in> set (dropped_pages env fp doc)"
    by (simp add: dropped_pages_def text_flagged_pages_def)
  then show ?thesis by auto
qed

lemma CleanerBase_process_pdf_trace:
  assumes "files w fp = Some b" and "read_pdf env b = Inr doc"
    and "dropped_pages env fp doc \<noteq> []"
  shows "new_calls w (CleanerBase_process_pdf env fp w) =
           Open_pdf fp # ocr_calls env fp doc @ Copy fp (fp @ ''.bak'') #
             (case copy_raises env fp (fp @ ''.bak'') of
                Some f \<Rightarrow> []
              | None \<Rightarrow> Write_pdf fp (kept_doc env fp doc) #
                  (case write_raises env fp (kept_doc env fp doc) of
                     Some f \<Rightarrow> []
                   | None \<Rightarrow> [Remove (fp @ ''.bak'')]))"
    and "files (CleanerBase_process_pdf env fp w) fp =
           (case copy_raises env fp (fp @ ''.bak'') of
              Some f \<Rightarrow> Some b
            | None \<Rightarrow>
                (case write_raises env fp (kept_doc env fp doc) of
                   None \<Rightarrow> Some (pdf_bytes env (kept_doc env fp doc))
                 | Some (e, left) \<Rightarrow> (case left of None \<Rightarrow> Some b | Some y \<Rightarrow> Some y)))"
proof -
  define w3 where "w3 = w\<lparr>calls := calls w @ Open_pdf fp # ocr_calls env fp doc\<rparr>"
  have t: "CleanerBase_process_pdf_try env fp w =
      CleanerBase_rebuild env fp doc (dropped_pages env fp doc) w3"
    using CleanerBase_process_pdf_try_eq [OF assms(1,2)] assms(3) by (simp add: w3_def)
  have f3: "files w3 fp = Some b" using assms(1) by (simp add: w3_def)
  note r = CleanerBase_rebuild_trace [OF f3, of env doc]
  show "new_calls w (CleanerBase_process_pdf env fp w) =
           Open_pdf fp # ocr_calls env fp doc @ Copy fp (fp @ ''.bak'') #
             (case copy_raises env fp (fp @ ''.bak'') of
                Some f \<Rightarrow> []
              | None \<Rightarrow> Write_pdf fp (kept_doc env fp doc) #
                  (case write_raises env fp (kept_doc env fp doc) of
                     Some f \<Rightarrow> []
                   | None \<Rightarrow> [Remove (fp @ ''.bak'')]))"
    unfolding new_calls_def CleanerBase_process_pdf_frame t r(1) by (simp add: w3_def)
  show "files (CleanerBase_process_pdf env fp w) fp =
           (case copy_raises env fp (fp @ ''.bak'') of
              Some f \<Rightarrow> Some b
            | None \<Rightarrow>
                (case write_raises env fp (kept_doc env fp doc) of
                   None \<Rightarrow> Some (pdf_bytes env (kept_doc env fp doc))
                 | Some (e, left) \<Rightarrow> (case left of None \<Rightarrow> Some b | Some y \<Rightarrow> Some y)))"
    unfolding CleanerBase_process_pdf_frame t by (rule r(2))
qed

lemma CleanerBase_all_blank_refused:
  assumes "files w fp = Some b" and "read_pdf env b = Inr doc" and "doc \<noteq> []"
    and "kept_doc env fp doc = []" and "copy_raises env fp (fp @ ''.bak'') = None"
    and "write_raises env fp [] = Some (e, left)"
  shows "CleanerBase_process_pdf env fp w =
     w\<lparr>files := leave fp left ((files w)(fp @ ''.bak'' \<mapsto> b)),
       calls := calls w @ Open_pdf fp # ocr_calls env fp doc @
                  [Copy fp (fp @ ''.bak''), Write_pdf fp []],
       log_file := log_file w @ [Error_processing (os_path_basename fp) e]\<rparr>"
proof -
  define w3 where "w3 = w\<lparr>calls := calls w @ Open_pdf fp # ocr_calls env fp doc\<rparr>"
  have d: "dropped_pages env fp doc \<noteq> []"
    using kept_doc_empty assms(3,4) by blast
  have t: "CleanerBase_process_pdf_try env fp w =
      CleanerBase_rebuild env fp doc (dropped_pages env fp doc) w3"
    using CleanerBase_process_pdf_try_eq [OF assms(1,2)] d by (simp add: w3_def)
  have f3: "files w3 fp = Some b" using assms(1) by (simp add: w3_def)
  have wr: "write_raises env fp (kept_doc env fp doc) = Some (e, left)"
    using assms(4,6) by simp
  note r = CleanerBase_rebuild_write_fails [OF f3 assms(5) wr]
  show ?thesis
    unfolding CleanerBase_process_pdf_def t r
    by (simp add: w3_def log_write_def assms(4))
qed

lemma process_pdf_all_blank:
  assumes "files w fp = Some b" and "copy_raises env fp (backup_path_of fp) = None"
    and "read_pdf env b = Inr pages" and "kept_pages v env fp pp pages = []"
  shows "process_pdf v env fp pp w =
     w\<lparr>files := (files w)(backup_path_of fp \<mapsto> b),
       calls := calls w @ Copy fp (backup_path_of fp) # Open_pdf fp #
                  page_calls v env fp pp pages,
       shown := shown w @
         [Showwarning ''All pages are blank. The PDF will not be modified.'']\<rparr>"
  using process_pdf_classified [OF assms(1-3), of v pp] assms(4)
  by (simp add: messagebox_def)

lemma example_kept_doc_blank:
  "kept_doc example_env fp [page_white] = []"
proof -
  have "text_flagged fp [page_white] 0"
    by (simp add: text_flagged_def get_text_def doc_page_def page_white_def strip_white)
  then show ?thesis
    by (simp add: kept_doc_def example_ocr_verdicts)
qed

lemma example_ocr_calls_blank:
  "ocr_calls example_env fp [page_white] = [Rasterize fp 1, Ocr fp 1]"
proof -
  have "text_flagged fp [page_white] 0"
    by (simp add: text_flagged_def get_text_def doc_page_def page_white_def strip_white)
  then show ?thesis
    by (simp add: ocr_calls_def text_flagged_pages_def example_ocr_traces)
qed

lemma example_pdf_bytes: "pdf_bytes example_env ps = ''%PDF rewritten '' @ map (\<lambda>p. char_of (content p)) ps"
  by (simp add: example_env_def)

lemma backup_path_B: "backup_path_of ''/docs/B.PDF'' = ''/docs/B.PDF.backup''"
  by (simp add: backup_path_of_def os_path_dirname_def os_path_basename_def os_path_join_def)

subsection \<open>A document without blank pages, and the example runs\<close>

lemma removed_count_0:
  assumes "removed_count v env fp pp pages = 0"
  shows "kept_pages v env fp pp pages = pages"
proof -
  let ?P = "\<lambda>(i, page). blank_verdict v env page fp i pp"
  let ?zs = "zip [1..<1 + length pages] pages"
  have "filter ?P ?zs = []"
    using assms unfolding removed_count_def by simp
  then have "\<forall>z \<in> set ?zs. \<not> ?P z"
    by (simp add: filter_empty_conv)
  then have "filter (\<lambda>z. \<not> ?P z) ?zs = ?zs"
    by (simp add: filter_id_conv)
  moreover have "(\<lambda>z. \<not> ?P z) = (\<lambda>(i, page). \<not> blank_verdict v env page fp i pp)"
    by auto
  ultimately have "kept_pages v env fp pp pages = map snd ?zs"
    unfolding kept_pages_def by simp
  also have "\<dots> = pages"
    by (rule map_snd_zip) (simp del: upt_Suc)
  finally show ?thesis .
qed

lemma CleanerBase_nothing_dropped:
  assumes "files w fp = Some b" and "read_pdf env b = Inr doc"
    and "dropped_pages env fp doc = []"
  shows "CleanerBase_process_pdf env fp w =
     w\<lparr>calls := calls w @ Open_pdf fp # ocr_calls env fp doc,
       log_file := log_file w @ [Status_no_changes (os_path_basename fp) (length doc)]\<rparr>"
  using CleanerBase_process_pdf_try_eq [OF assms(1,2)] assms(3)
  by (simp add: CleanerBase_process_pdf_def log_write_def)

lemma backup_path_c: "backup_path_of ''/docs/c.pdf'' = ''/docs/c.pdf.backup''"
  by (simp add: backup_path_of_def os_path_dirname_def os_path_basename_def os_path_join_def)

lemma example_dropped_text: "dropped_pages example_env fp [page_hello] = []"
proof -
  have "\<not> text_flagged fp [page_hello] 0"
    by (simp add: text_flagged_def get_text_def doc_page_def page_hello_def strip_hello)
  then show ?thesis
    by (simp add: dropped_pages_def text_flagged_pages_def)
qed

lemma example_temp2: "temp_file_of CleanerBase2 example_env fp = Some ''/tmp/tmpk3x7.pdf''"
  by (simp add: example_env_def)

lemma example_named_tmp: "named_temporary_file example_env = Inr ''/tmp/tmpk3x7.pdf''"
  by (simp add: example_env_def)

lemma example_tmp_fresh: "files example_world ''/tmp/tmpk3x7.pdf'' = None"
  by (simp add: example_world_def)

lemma example_run1_text:
  "files (process_pdf CleanerBase1 example_env ''/docs/c.pdf'' None example_world) ''/docs/c.pdf''
     = Some (pdf_bytes example_env [page_hello])"
  "shown (process_pdf CleanerBase1 example_env ''/docs/c.pdf'' None example_world)
     = [Showinfo_success 1 0]"
proof -
  note s = process_pdf_success [of example_world "''/docs/c.pdf''" "''%PDF text''" example_env
      "[page_hello]" CleanerBase1 None "''/docs/c.pdf.temp''"]
  show "files (process_pdf CleanerBase1 example_env ''/docs/c.pdf'' None example_world)
      ''/docs/c.pdf'' = Some (pdf_bytes example_env [page_hello])"
    using s(1) by (simp add: example_kept_text)
  show "shown (process_pdf CleanerBase1 example_env ''/docs/c.pdf'' None example_world)
     = [Showinfo_success 1 0]"
    using s(3) by (simp add: example_kept_text)
qed

lemma example_run1_mixed:
  "new_calls example_world
     (process_pdf CleanerBase1 example_env ''/docs/a.pdf'' None example_world) =
     [Copy ''/docs/a.pdf'' ''/docs/a.pdf.backup'', Open_pdf ''/docs/a.pdf'',
      Rasterize ''/docs/a.pdf'' 2, Ocr ''/docs/a.pdf'' 2,
      Rasterize ''/docs/a.pdf'' 3, Ocr ''/docs/a.pdf'' 3,
      Write_pdf ''/docs/a.pdf.temp'' [page_hello, page_scan],
      Move ''/docs/a.pdf.temp'' ''/docs/a.pdf'', Remove ''/docs/a.pdf.backup'']"
  using process_pdf_success(4) [of example_world "''/docs/a.pdf''" "''%PDF mixed''" example_env
      "[page_hello, page_white, page_scan]" CleanerBase1 None "''/docs/a.pdf.temp''"]
  by (simp add: example_kept_mixed backup_path_example temp_prefix_def)

lemma example_run2_mixed:
  "new_calls example_world
     (process_pdf CleanerBase2 example_env ''/docs/a.pdf'' None example_world) =
     [Copy ''/docs/a.pdf'' ''/docs/a.pdf.backup'', Open_pdf ''/docs/a.pdf'',
      Rasterize ''/docs/a.pdf'' 2, Ocr ''/docs/a.pdf'' 2,
      Rasterize ''/docs/a.pdf'' 3, Ocr ''/docs/a.pdf'' 3,
      Make_temp, Write_pdf ''/tmp/tmpk3x7.pdf'' [page_hello],
      Move ''/tmp/tmpk3x7.pdf'' ''/docs/a.pdf'', Remove ''/docs/a.pdf.backup'']"
  using process_pdf_success(4) [of example_world "''/docs/a.pdf''" "''%PDF mixed''" example_env
      "[page_hello, page_white, page_scan]" CleanerBase2 None "''/tmp/tmpk3x7.pdf''"]
  by (simp add: example_kept_mixed backup_path_example temp_prefix_def example_named_tmp
        example_tmp_fresh)

subsection \<open>The loop of \<^verbatim>\<open>process_files\<close>\<close>

lemma stop_index_0 [simp]: "stop_index env flag i 0 = 0"
  by (simp add: stop_index_def)

lemma stop_index_Suc:
  "stop_index env flag i (Suc n) =
     (if flag then 0 else Suc (stop_index env (stop_pressed env i) (Suc i) n))"
proof -
  have upt: "[i..<i + Suc n] = i # [Suc i..<Suc i + n]"
    using upt_conv_Cons [of i "i + Suc n"] by simp
  have cong: "takeWhile (\<lambda>k. \<not> (False \<or> list_ex (stop_pressed env) [i..<k])) [Suc i..<Suc i + n]
      = takeWhile (\<lambda>k. \<not> (stop_pressed env i \<or> list_ex (stop_pressed env) [Suc i..<k]))
          [Suc i..<Suc i + n]"
  proof (rule takeWhile_cong [OF refl])
    fix k
    assume "k \<in> set [Suc i..<Suc i + n]"
    then have "i < k" by (simp del: upt_Suc)
    then have "[i..<k] = i # [Suc i..<k]"
      by (rule upt_conv_Cons)
    then show "(\<not> (False \<or> list_ex (stop_pressed env) [i..<k])) =
        (\<not> (stop_pressed env i \<or> list_ex (stop_pressed env) [Suc i..<k]))"
      by simp
  qed
  show ?thesis
  proof (cases flag)
    case True
    then show ?thesis
      unfolding stop_index_def upt by simp
  next
    case False
    then show ?thesis
      unfolding stop_index_def upt using cong by simp
  qed
qed

lemma stop_index_le: "stop_index env flag i n \<le> n"
proof -
  have "length (takeWhile (\<lambda>k. \<not> (flag \<or> list_ex (stop_pressed env) [i..<k])) [i..<i + n])
      \<le> length [i..<i + n]"
    by (rule length_takeWhile_le)
  then show ?thesis by (simp add: stop_index_def)
qed

lemma stop_index_flag:
  assumes "stop_index env flag i n < n"
  shows "flag \<or> list_ex (stop_pressed env) [i..<i + stop_index env flag i n]"
proof -
  let ?P = "\<lambda>k. \<not> (flag \<or> list_ex (stop_pressed env) [i..<k])"
  let ?xs = "[i..<i + n]"
  have lt: "length (takeWhile ?P ?xs) < length ?xs"
    using assms by (simp add: stop_index_def)
  then have "\<not> ?P (?xs ! length (takeWhile ?P ?xs))"
    by (rule nth_length_takeWhile)
  moreover have "?xs ! length (takeWhile ?P ?xs) = i + length (takeWhile ?P ?xs)"
    using lt by simp
  ultimately show ?thesis
    by (simp add: stop_index_def)
qed

lemma stop_index_first:
  assumes "j < n" and "flag \<or> list_ex (stop_pressed env) [i..<i + j]"
  shows "stop_index env flag i n \<le> j"
proof (rule ccontr)
  let ?P = "\<lambda>k. \<not> (flag \<or> list_ex (stop_pressed env) [i..<k])"
  let ?xs = "[i..<i + n]"
  assume "\<not> stop_index env flag i n \<le> j"
  then have "j < length (takeWhile ?P ?xs)"
    by (simp add: stop_index_def)
  then have j: "j < length (takeWhile ?P ?xs)" .
  then have "takeWhile ?P ?xs ! j \<in> set (takeWhile ?P ?xs)"
    by (rule nth_mem)
  then have p: "?P (takeWhile ?P ?xs ! j)"
    by (rule set_takeWhileD [THEN conjunct2])
  have e: "takeWhile ?P ?xs ! j = ?xs ! j"
    using j by (rule takeWhile_nth)
  have "?P (?xs ! j)"
    using p unfolding e .
  moreover have "?xs ! j = i + j"
    using assms(1) by (simp del: upt_Suc)
  ultimately have "\<not> (flag \<or> list_ex (stop_pressed env) [i..<i + j])"
    by simp
  then show False
    using assms(2) by blast
qed

lemma process_files_loop_stopped [simp]:
  "stop_requested w \<Longrightarrow> process_files_loop env i fs w = w"
  by (cases fs) simp_all

lemma process_files_loop_run:
  "\<exists>cs ls. calls (process_files_loop env i fs w) = calls w @ cs \<and>
     opened_files cs = take (stop_index env (stop_requested w) i (length fs)) fs \<and>
     log_file (process_files_loop env i fs w) = log_file w @ ls \<and>
     map log_name ls
       = map os_path_basename (take (stop_index env (stop_requested w) i (length fs)) fs) \<and>
     stop_requested (process_files_loop env i fs w)
       = (stop_requested w \<or>
          list_ex (stop_pressed env)
            [i..<i + stop_index env (stop_requested w) i (length fs)])"
proof (induction fs arbitrary: i w)
  case Nil
  then show ?case by simp
next
  case (Cons f fs)
  show ?case
  proof (cases "stop_requested w")
    case True
    then show ?thesis by (simp add: stop_index_Suc)
  next
    case False
    define w1 where "w1 = CleanerBase_process_pdf env f w"
    define w2 where "w2 = (if stop_pressed env i then stop_processing w1 else w1)"
    obtain rest l where sh: "calls w1 = calls w @ Open_pdf f # rest" "opened_files rest = []"
      "log_file w1 = log_file w @ [l]" "log_name l = os_path_basename f"
      "stop_requested w1 = stop_requested w"
      using CleanerBase_process_pdf_shape [of env f w] unfolding w1_def by blast
    have w2: "calls w2 = calls w1" "log_file w2 = log_file w1"
      "stop_requested w2 = stop_pressed env i"
      using sh(5) False by (simp_all add: w2_def stop_processing_def)
    have step: "process_files_loop env i (f # fs) w = process_files_loop env (Suc i) fs w2"
      using False by (simp add: w1_def w2_def Let_def)
    define k where "k = stop_index env (stop_pressed env i) (Suc i) (length fs)"
    obtain cs ls where ih: "calls (process_files_loop env (Suc i) fs w2) = calls w2 @ cs"
      "opened_files cs = take k fs"
      "log_file (process_files_loop env (Suc i) fs w2) = log_file w2 @ ls"
      "map log_name ls = map os_path_basename (take k fs)"
      "stop_requested (process_files_loop env (Suc i) fs w2)
         = (stop_pressed env i \<or> list_ex (stop_pressed env) [Suc i..<Suc i + k])"
      using Cons.IH [of "Suc i" w2] unfolding w2(3) k_def by blast
    have si: "stop_index env (stop_requested w) i (length (f # fs)) = Suc k"
      using False by (simp add: stop_index_Suc k_def)
    have upt: "[i..<i + Suc k] = i # [Suc i..<Suc i + k]"
      using upt_conv_Cons [of i "i + Suc k"] by simp
    have c: "calls (process_files_loop env i (f # fs) w) = calls w @ (Open_pdf f # rest @ cs)"
      unfolding step ih(1) w2(1) sh(1) by simp
    have o: "opened_files (Open_pdf f # rest @ cs) = take (Suc k) (f # fs)"
      using sh(2) ih(2) by simp
    have lg: "log_file (process_files_loop env i (f # fs) w) = log_file w @ (l # ls)"
      unfolding step ih(3) w2(2) sh(3) by simp
    have ln: "map log_name (l # ls) = map os_path_basename (take (Suc k) (f # fs))"
      using sh(4) ih(4) by simp
    have st: "stop_requested (process_files_loop env i (f # fs) w)
       = (stop_requested w \<or> list_ex (stop_pressed env) [i..<i + Suc k])"
      unfolding step ih(5) upt using False by simp
    show ?thesis
      unfolding si using c o lg ln st by blast
  qed
qed

lemma process_files_run:
  assumes "pdf_files env folder_path \<noteq> []"
  shows "opened_files (new_calls w (process_files env folder_path w))
        = take (stop_index env (stop_requested w) 0 (length (pdf_files env folder_path)))
            (pdf_files env folder_path)"
    and "map log_name (log_file (process_files env folder_path w))
        = map os_path_basename
            (take (stop_index env (stop_requested w) 0 (length (pdf_files env folder_path)))
               (pdf_files env folder_path))"
    and "stop_requested (process_files env folder_path w)
        = (stop_requested w \<or>
           list_ex (stop_pressed env)
             [0..<stop_index env (stop_requested w) 0 (length (pdf_files env folder_path))])"
proof -
  define fs where "fs = pdf_files env folder_path"
  define w1 where "w1 = w\<lparr>log_file := []\<rparr>"
  define w2 where "w2 = process_files_loop env 0 fs w1"
  define k where "k = stop_index env (stop_requested w) 0 (length fs)"
  have w1: "calls w1 = calls w" "log_file w1 = []" "stop_requested w1 = stop_requested w"
    by (simp_all add: w1_def)
  obtain cs ls where r: "calls w2 = calls w1 @ cs" "opened_files cs = take k fs"
    "log_file w2 = log_file w1 @ ls" "map log_name ls = map os_path_basename (take k fs)"
    "stop_requested w2 = (stop_requested w1 \<or> list_ex (stop_pressed env) [0..<0 + k])"
    using process_files_loop_run [of env 0 fs w1] unfolding w2_def k_def w1(3) by blast
  have pf: "calls (process_files env folder_path w) = calls w2"
    "log_file (process_files env folder_path w) = log_file w2"
    "stop_requested (process_files env folder_path w) = stop_requested w2"
    using assms by (simp_all add: process_files_def Let_def messagebox_def fs_def w1_def w2_def)
  show "opened_files (new_calls w (process_files env folder_path w))
        = take (stop_index env (stop_requested w) 0 (length (pdf_files env folder_path)))
            (pdf_files env folder_path)"
    using r(1,2) by (simp add: pf(1) w1(1) new_calls_def k_def fs_def)
  show "map log_name (log_file (process_files env folder_path w))
        = map os_path_basename
            (take (stop_index env (stop_requested w) 0 (length (pdf_files env folder_path)))
               (pdf_files env folder_path))"
    using r(3,4) by (simp add: pf(2) w1(2) k_def fs_def)
  show "stop_requested (process_files env folder_path w)
        = (stop_requested w \<or>
           list_ex (stop_pressed env)
             [0..<stop_index env (stop_requested w) 0 (length (pdf_files env folder_path))])"
    using r(5) by (simp add: pf(3) w1(3) k_def fs_def)
qed

lemma example_pdf_files:
  "pdf_files example_env ''/docs''
     = [''/docs/a.pdf'', ''/docs/B.PDF'', ''/docs/c.pdf'', ''/docs/d.pdf'']"
  by code_simp

lemma example_stop_index: "stop_index example_env False 0 (Suc (Suc (Suc (Suc 0)))) = 2"
  by (simp add: stop_index_Suc example_env_def)

subsection \<open>What the OCR stage contributes to a verdict\<close>

lemma is_blank_page_CleanerBase1:
  "fst (is_blank_page CleanerBase1 env page file_path page_num poppler_path w) =
     (text_empty page \<and>
      (ocr_confirms_blank env file_path page_num None (poppler_kw poppler_path) None \<or>
       ocr_raises env file_path page_num None (poppler_kw poppler_path) None \<or>
       convert_from_path env file_path page_num None (poppler_kw poppler_path) = Inr []))"
  by (auto simp: text_empty_def ocr_confirms_blank_def ocr_raises_def is_blank_page_def
        is_blank_page_try_def Let_def strip_def split: option.splits sum.splits)

lemma ocr_verdict_eq:
  "ocr_verdict env pg =
     (ocr_confirms_blank env (parent_name pg) (number pg + 1) (Some 200) None (Some ''eng'') \<or>
      convert_from_path env (parent_name pg) (number pg + 1) (Some 200) None = Inr [])"
  by (auto simp: ocr_verdict_def ocr_confirms_blank_def check_blank_page_def
        check_blank_page_try_def Let_def split: sum.splits)

lemma no_poppler_fields [simp]:
  "copy_raises no_poppler_env = copy_raises example_env"
  "read_pdf no_poppler_env = read_pdf example_env"
  "pdf_bytes no_poppler_env = pdf_bytes example_env"
  "write_raises no_poppler_env = write_raises example_env"
  "move_raises no_poppler_env = move_raises example_env"
  "remove_raises no_poppler_env = remove_raises example_env"
  "convert_from_path no_poppler_env p n dpi pk
     = Inl (Library_error ''Unable to get page count. Is poppler installed?'')"
  by (simp_all add: no_poppler_env_def)

lemma no_poppler_verdicts [simp]:
  "blank_verdict v no_poppler_env page_hello fp i pp = False"
  "blank_trace v no_poppler_env page_hello fp i pp = []"
  "blank_verdict v no_poppler_env page_white fp i pp = True"
  "blank_trace v no_poppler_env page_white fp i pp = [Rasterize fp i]"
  "blank_verdict v no_poppler_env page_scan fp i pp = True"
  "blank_trace v no_poppler_env page_scan fp i pp = [Rasterize fp i]"
  by (simp_all add: blank_verdict_def blank_trace_def is_blank_page_def is_blank_page_try_def
        page_hello_def page_white_def page_scan_def strip_hello strip_white empty_world_def
        record_call_def Let_def)

lemma no_poppler_kept_mixed:
  "kept_pages v no_poppler_env fp pp [page_hello, page_white, page_scan] = [page_hello]"
  "removed_count v no_poppler_env fp pp [page_hello, page_white, page_scan] = 2"
  "page_calls v no_poppler_env fp pp [page_hello, page_white, page_scan]
     = [Rasterize fp 2, Rasterize fp 3]"
  unfolding kept_pages_def removed_count_def page_calls_def upt_1_4 by simp_all

lemma no_poppler_run1_mixed:
  "new_calls example_world
     (process_pdf CleanerBase1 no_poppler_env ''/docs/a.pdf'' None example_world)
   = [Copy ''/docs/a.pdf'' ''/docs/a.pdf.backup'', Open_pdf ''/docs/a.pdf'',
      Rasterize ''/docs/a.pdf'' 2, Rasterize ''/docs/a.pdf'' 3,
      Write_pdf ''/docs/a.pdf.temp'' [page_hello],
      Move ''/docs/a.pdf.temp'' ''/docs/a.pdf'', Remove ''/docs/a.pdf.backup'']"
  "files (process_pdf CleanerBase1 no_poppler_env ''/docs/a.pdf'' None example_world)
     ''/docs/a.pdf'' = Some (pdf_bytes example_env [page_hello])"
  using process_pdf_success(4) [of example_world "''/docs/a.pdf''" "''%PDF mixed''" no_poppler_env
      "[page_hello, page_white, page_scan]" CleanerBase1 None "''/docs/a.pdf.temp''"]
    process_pdf_success(1) [of example_world "''/docs/a.pdf''" "''%PDF mixed''" no_poppler_env
      "[page_hello, page_white, page_scan]" CleanerBase1 None "''/docs/a.pdf.temp''"]
  by (simp_all add: no_poppler_kept_mixed backup_path_example temp_prefix_def)

section \<open>The claims\<close>

subsection \<open>C1: what a failure of rasterisation or OCR does\<close>

text \<open>
  C1, as amended. In \<^verbatim>\<open>CleanerBase.check_blank_page\<close> with \<^verbatim>\<open>use_ocr=True\<close>, when
  rasterisation or OCR raises, the page is classified not blank (kept), in every world, so
  also on every repetition. In \<^verbatim>\<open>is_blank_page\<close> of \<^verbatim>\<open>CleanerBase1\<close> and \<^verbatim>\<open>CleanerBase2\<close>,
  when rasterisation or OCR raises on a page whose text layer is missing, empty or whitespace
  only, the page is classified blank: the handler there returns \<^verbatim>\<open>True\<close> on purpose
  ("If OCR fails, to be safe, consider the page blank").

  The claim as stated, for every page, fails on \<^verbatim>\<open>CleanerBase1\<close>: the counterexample is the
  whitespace-only page on a machine where the rasteriser raises.
\<close>

theorem ocr_failure_policy:
  "(ocr_raises env (parent_name pg) (number pg + 1) (Some 200) None (Some ''eng'') \<longrightarrow>
       fst (check_blank_page env pg True w) = False) \<and>
   (text_empty page \<and> ocr_raises env file_path page_num None (poppler_kw poppler_path) None \<longrightarrow>
       fst (is_blank_page v env page file_path page_num poppler_path w) = True)"
proof (intro conjI impI)
  assume "ocr_raises env (parent_name pg) (number pg + 1) (Some 200) None (Some ''eng'')"
  then show "fst (check_blank_page env pg True w) = False"
    by (auto simp: ocr_raises_def check_blank_page_def check_blank_page_try_def Let_def
          split: sum.splits)
next
  assume h: "text_empty page \<and> ocr_raises env file_path page_num None (poppler_kw poppler_path) None"
  then have te: "\<not> (text_layer page \<noteq> None \<and> strip (the (text_layer page)) \<noteq> [])"
    by (auto simp: text_empty_def split: option.splits)
  from h have "\<exists>e. fst (is_blank_page_try v env file_path page_num poppler_path w) = Inl e"
    by (auto simp: ocr_raises_def is_blank_page_try_def Let_def split: sum.splits)
  then show "fst (is_blank_page v env page file_path page_num poppler_path w) = True"
    using te
    by (cases "is_blank_page_try v env file_path page_num poppler_path w")
       (auto simp: is_blank_page_def Let_def split: sum.splits)
qed

theorem ocr_failure_policy_witness:
  "ocr_raises no_poppler_env ''/docs/a.pdf'' (1 + 1) (Some 200) None (Some ''eng'') \<and>
   fst (check_blank_page no_poppler_env
          (doc_page ''/docs/a.pdf'' [page_hello, page_white, page_scan] 1) True example_world)
     = False \<and>
   text_empty page_white \<and>
   ocr_raises no_poppler_env ''/docs/a.pdf'' 2 None (poppler_kw None) None \<and>
   fst (is_blank_page CleanerBase2 no_poppler_env page_white ''/docs/a.pdf'' 2 None example_world)
     = True"
proof -
  have h1: "ocr_raises no_poppler_env ''/docs/a.pdf'' (1 + 1) (Some 200) None (Some ''eng'')"
    by (simp add: ocr_raises_def no_poppler_env_def)
  have h2: "text_empty page_white"
    by (simp add: text_empty_def page_white_def strip_white)
  have h3: "ocr_raises no_poppler_env ''/docs/a.pdf'' 2 None (poppler_kw None) None"
    by (simp add: ocr_raises_def no_poppler_env_def)
  have pg: "parent_name (doc_page ''/docs/a.pdf'' [page_hello, page_white, page_scan] 1)
       = ''/docs/a.pdf''"
    "number (doc_page ''/docs/a.pdf'' [page_hello, page_white, page_scan] 1) = 1"
    by (simp_all add: doc_page_def)
  have a: "fst (check_blank_page no_poppler_env
          (doc_page ''/docs/a.pdf'' [page_hello, page_white, page_scan] 1) True example_world)
     = False"
    using ocr_failure_policy [where env = no_poppler_env and w = example_world
        and pg = "doc_page ''/docs/a.pdf'' [page_hello, page_white, page_scan] 1"] h1
    by (simp only: pg)
  have b: "fst (is_blank_page CleanerBase2 no_poppler_env page_white ''/docs/a.pdf'' 2 None
                  example_world) = True"
    using ocr_failure_policy [where env = no_poppler_env and w = example_world
        and v = CleanerBase2 and page = page_white and file_path = "''/docs/a.pdf''"
        and page_num = 2 and poppler_path = None] h2 h3
    by blast
  show ?thesis using h1 h2 h3 a b by blast
qed

theorem ocr_failure_blank_counterexample:
  "text_empty page_white \<and>
   ocr_raises no_poppler_env ''/docs/a.pdf'' 2 None (poppler_kw None) None \<and>
   fst (is_blank_page CleanerBase1 no_poppler_env page_white ''/docs/a.pdf'' 2 None example_world)
     = True"
  by (simp add: text_empty_def page_white_def strip_white ocr_raises_def no_poppler_env_def
        is_blank_page_def is_blank_page_try_def Let_def)

subsection \<open>C2: a document whose pages are all blank\<close>

text \<open>
  C2, as amended. \<^verbatim>\<open>process_pdf\<close> of \<^verbatim>\<open>CleanerBase1\<close> and \<^verbatim>\<open>CleanerBase2\<close> refuses the
  rebuild: when every page is classified blank the writer is empty, the warning "All pages
  are blank. The PDF will not be modified." is shown, the document writer is not called and
  the original file is as it was. \<^verbatim>\<open>CleanerBase.process_pdf\<close> has no outcome of that name.
  When every page of a document with at least one page is confirmed blank, it copies the
  original to \<^verbatim>\<open><path>.bak\<close> and asks the library to save a document without pages onto the
  original path. When the library refuses that save and leaves the file alone, the run ends
  with the line "Error processing" in the log and no dialog, the file system has gained the
  \<^verbatim>\<open>.bak\<close> copy and nothing else, so the original is byte for byte what it was, and the calls
  made are the opening, the OCR checks, the copy and the refused save.
\<close>

theorem all_blank_outcome:
  "(files w file_path = Some b \<and> copy_raises env file_path (backup_path_of file_path) = None \<and>
    read_pdf env b = Inr pages \<and> kept_pages v env file_path poppler_path pages = [] \<longrightarrow>
      shown (process_pdf v env file_path poppler_path w)
        = shown w @ [Showwarning ''All pages are blank. The PDF will not be modified.''] \<and>
      files (process_pdf v env file_path poppler_path w) file_path = Some b \<and>
      new_calls w (process_pdf v env file_path poppler_path w)
        = Copy file_path (backup_path_of file_path) # Open_pdf file_path #
            page_calls v env file_path poppler_path pages) \<and>
   (files w file_path = Some b \<and> read_pdf env b = Inr pages \<and> pages \<noteq> [] \<and>
    kept_doc env file_path pages = [] \<and>
    copy_raises env file_path (file_path @ ''.bak'') = None \<and>
    write_raises env file_path [] = Some (e, None) \<longrightarrow>
      log_file (CleanerBase_process_pdf env file_path w)
        = log_file w @ [Error_processing (os_path_basename file_path) e] \<and>
      shown (CleanerBase_process_pdf env file_path w) = shown w \<and>
      files (CleanerBase_process_pdf env file_path w)
        = (files w)(file_path @ ''.bak'' \<mapsto> b) \<and>
      files (CleanerBase_process_pdf env file_path w) file_path = Some b \<and>
      new_calls w (CleanerBase_process_pdf env file_path w)
        = Open_pdf file_path # ocr_calls env file_path pages @
            [Copy file_path (file_path @ ''.bak''), Write_pdf file_path []])"
proof (intro conjI impI)
  assume h: "files w file_path = Some b \<and>
    copy_raises env file_path (backup_path_of file_path) = None \<and>
    read_pdf env b = Inr pages \<and> kept_pages v env file_path poppler_path pages = []"
  then have eq: "process_pdf v env file_path poppler_path w =
     w\<lparr>files := (files w)(backup_path_of file_path \<mapsto> b),
       calls := calls w @ Copy file_path (backup_path_of file_path) # Open_pdf file_path #
                  page_calls v env file_path poppler_path pages,
       shown := shown w @
         [Showwarning ''All pages are blank. The PDF will not be modified.'']\<rparr>"
    using process_pdf_all_blank by blast
  show "shown (process_pdf v env file_path poppler_path w)
        = shown w @ [Showwarning ''All pages are blank. The PDF will not be modified.'']"
    unfolding eq by simp
  show "files (process_pdf v env file_path poppler_path w) file_path = Some b"
    unfolding eq using h by (simp del: fun_upd_apply)
  show "new_calls w (process_pdf v env file_path poppler_path w)
        = Copy file_path (backup_path_of file_path) # Open_pdf file_path #
            page_calls v env file_path poppler_path pages"
    unfolding eq by (simp add: new_calls_def)
next
  assume h: "files w file_path = Some b \<and> read_pdf env b = Inr pages \<and> pages \<noteq> [] \<and>
    kept_doc env file_path pages = [] \<and>
    copy_raises env file_path (file_path @ ''.bak'') = None \<and>
    write_raises env file_path [] = Some (e, None)"
  then have eq: "CleanerBase_process_pdf env file_path w =
     w\<lparr>files := leave file_path None ((files w)(file_path @ ''.bak'' \<mapsto> b)),
       calls := calls w @ Open_pdf file_path # ocr_calls env file_path pages @
                  [Copy file_path (file_path @ ''.bak''), Write_pdf file_path []],
       log_file := log_file w @ [Error_processing (os_path_basename file_path) e]\<rparr>"
    using CleanerBase_all_blank_refused by blast
  show "log_file (CleanerBase_process_pdf env file_path w)
        = log_file w @ [Error_processing (os_path_basename file_path) e]"
    unfolding eq by simp
  show "shown (CleanerBase_process_pdf env file_path w) = shown w"
    unfolding eq by simp
  show "files (CleanerBase_process_pdf env file_path w)
        = (files w)(file_path @ ''.bak'' \<mapsto> b)"
    unfolding eq by simp
  show "files (CleanerBase_process_pdf env file_path w) file_path = Some b"
    unfolding eq using h by simp
  show "new_calls w (CleanerBase_process_pdf env file_path w)
        = Open_pdf file_path # ocr_calls env file_path pages @
            [Copy file_path (file_path @ ''.bak''), Write_pdf file_path []]"
    unfolding eq by (simp add: new_calls_def)
qed

theorem all_blank_outcome_witness:
  "files example_world ''/docs/B.PDF'' = Some ''%PDF blank'' \<and>
   copy_raises example_env ''/docs/B.PDF'' (backup_path_of ''/docs/B.PDF'') = None \<and>
   read_pdf example_env ''%PDF blank'' = Inr [page_white] \<and>
   kept_pages CleanerBase1 example_env ''/docs/B.PDF'' None [page_white] = [] \<and>
   shown (process_pdf CleanerBase1 example_env ''/docs/B.PDF'' None example_world)
     = [Showwarning ''All pages are blank. The PDF will not be modified.''] \<and>
   files (process_pdf CleanerBase1 example_env ''/docs/B.PDF'' None example_world)
     ''/docs/B.PDF'' = Some ''%PDF blank'' \<and>
   new_calls example_world
       (process_pdf CleanerBase1 example_env ''/docs/B.PDF'' None example_world)
     = [Copy ''/docs/B.PDF'' ''/docs/B.PDF.backup'', Open_pdf ''/docs/B.PDF'',
        Rasterize ''/docs/B.PDF'' 1, Ocr ''/docs/B.PDF'' 1] \<and>
   [page_white] \<noteq> [] \<and>
   kept_doc example_env ''/docs/B.PDF'' [page_white] = [] \<and>
   copy_raises example_env ''/docs/B.PDF'' (''/docs/B.PDF'' @ ''.bak'') = None \<and>
   write_raises example_env ''/docs/B.PDF'' []
     = Some (Library_error ''cannot save with zero pages'', None) \<and>
   files (CleanerBase_process_pdf example_env ''/docs/B.PDF'' example_world) ''/docs/B.PDF''
     = Some ''%PDF blank'' \<and>
   files (CleanerBase_process_pdf example_env ''/docs/B.PDF'' example_world)
     = (files example_world)(''/docs/B.PDF'' @ ''.bak'' \<mapsto> ''%PDF blank'')"
proof -
  have h1: "files example_world ''/docs/B.PDF'' = Some ''%PDF blank'' \<and>
      copy_raises example_env ''/docs/B.PDF'' (backup_path_of ''/docs/B.PDF'') = None \<and>
      read_pdf example_env ''%PDF blank'' = Inr [page_white] \<and>
      kept_pages CleanerBase1 example_env ''/docs/B.PDF'' None [page_white] = []"
    by (simp add: example_kept_blank)
  have h2: "files example_world ''/docs/B.PDF'' = Some ''%PDF blank'' \<and>
      read_pdf example_env ''%PDF blank'' = Inr [page_white] \<and> [page_white] \<noteq> [] \<and>
      kept_doc example_env ''/docs/B.PDF'' [page_white] = [] \<and>
      copy_raises example_env ''/docs/B.PDF'' (''/docs/B.PDF'' @ ''.bak'') = None \<and>
      write_raises example_env ''/docs/B.PDF'' []
        = Some (Library_error ''cannot save with zero pages'', None)"
    by (simp add: example_kept_doc_blank)
  note T = all_blank_outcome [where w = example_world
      and file_path = "''/docs/B.PDF''" and b = "''%PDF blank''" and env = example_env
      and pages = "[page_white]" and v = CleanerBase1 and poppler_path = None
      and e = "Library_error ''cannot save with zero pages''"]
  have a: "shown (process_pdf CleanerBase1 example_env ''/docs/B.PDF'' None example_world)
        = shown example_world @
            [Showwarning ''All pages are blank. The PDF will not be modified.'']"
    "files (process_pdf CleanerBase1 example_env ''/docs/B.PDF'' None example_world)
       ''/docs/B.PDF'' = Some ''%PDF blank''"
    "new_calls example_world
       (process_pdf CleanerBase1 example_env ''/docs/B.PDF'' None example_world)
     = Copy ''/docs/B.PDF'' (backup_path_of ''/docs/B.PDF'') # Open_pdf ''/docs/B.PDF'' #
         page_calls CleanerBase1 example_env ''/docs/B.PDF'' None [page_white]"
    using T h1 by blast+
  have b: "files (CleanerBase_process_pdf example_env ''/docs/B.PDF'' example_world)
       ''/docs/B.PDF'' = Some ''%PDF blank''"
    "files (CleanerBase_process_pdf example_env ''/docs/B.PDF'' example_world)
     = (files example_world)(''/docs/B.PDF'' @ ''.bak'' \<mapsto> ''%PDF blank'')"
    using T h2 by blast+
  show ?thesis
    using h1 h2 a b by (simp add: example_kept_blank backup_path_B del: fun_upd_apply)
qed

theorem all_blank_generic_error_counterexample:
  "kept_doc example_env ''/docs/B.PDF'' [page_white] = [] \<and>
   log_file (CleanerBase_process_pdf example_env ''/docs/B.PDF'' example_world)
     = [Error_processing ''B.PDF'' (Library_error ''cannot save with zero pages'')] \<and>
   shown (CleanerBase_process_pdf example_env ''/docs/B.PDF'' example_world) = [] \<and>
   calls (CleanerBase_process_pdf example_env ''/docs/B.PDF'' example_world)
     = [Open_pdf ''/docs/B.PDF'', Rasterize ''/docs/B.PDF'' 1, Ocr ''/docs/B.PDF'' 1,
        Copy ''/docs/B.PDF'' ''/docs/B.PDF.bak'', Write_pdf ''/docs/B.PDF'' []] \<and>
   files (CleanerBase_process_pdf example_env ''/docs/B.PDF'' example_world)
     ''/docs/B.PDF.bak'' = Some ''%PDF blank''"
proof -
  have eq: "CleanerBase_process_pdf example_env ''/docs/B.PDF'' example_world =
     example_world\<lparr>files := leave ''/docs/B.PDF'' None
                   ((files example_world)(''/docs/B.PDF'' @ ''.bak'' \<mapsto> ''%PDF blank'')),
       calls := calls example_world @ Open_pdf ''/docs/B.PDF'' #
                  ocr_calls example_env ''/docs/B.PDF'' [page_white] @
                  [Copy ''/docs/B.PDF'' (''/docs/B.PDF'' @ ''.bak''),
                   Write_pdf ''/docs/B.PDF'' []],
       log_file := log_file example_world @
         [Error_processing (os_path_basename ''/docs/B.PDF'')
            (Library_error ''cannot save with zero pages'')]\<rparr>"
    by (rule CleanerBase_all_blank_refused [where b = "''%PDF blank''"])
      (simp_all add: example_kept_doc_blank)
  have bn: "os_path_basename ''/docs/B.PDF'' = ''B.PDF''"
    by (simp add: os_path_basename_def)
  show ?thesis
    unfolding eq by (simp add: example_kept_doc_blank example_ocr_calls_blank bn)
qed

subsection \<open>C3: where the trimmed document is written\<close>

text \<open>
  C3, as amended. When the rebuild proceeds in \<^verbatim>\<open>process_pdf\<close> of \<^verbatim>\<open>CleanerBase1\<close> or
  \<^verbatim>\<open>CleanerBase2\<close> (backup made, document read, at least one page kept), the calls are, in
  this order: the copy to the backup, the opening, the page checks, in \<^verbatim>\<open>CleanerBase2\<close> the
  creation of the temporary file, the writer's call with the kept pages on the temporary
  file, then, if the write succeeded, one \<^verbatim>\<open>shutil.move\<close> of that file onto the original
  path, and, if the move succeeded, the removal of the backup. The temporary file is not the
  original path, and in \<^verbatim>\<open>CleanerBase2\<close> it did not exist before. The original holds its old
  bytes when the write fails, the trimmed document when the move succeeds, and whatever the
  failed move left at its destination otherwise. Whatever the temporary file is, the writer
  is never called on the original path, every move is onto the original path right after the
  writer's call on the moved file, and the original differs from its old bytes only if a
  move was made. In \<^verbatim>\<open>CleanerBase1\<close> the temporary file is \<^verbatim>\<open>file_path + ".temp"\<close>, in the
  directory of the original.

  \<^verbatim>\<open>CleanerBase.process_pdf\<close>, when a page is dropped, copies the original to
  \<^verbatim>\<open><path>.bak\<close> first and then, if the copy succeeded, calls the writer on the original path
  itself; the backup is removed if the save succeeded. There is no temporary file and no
  move.

  The claim as stated fails twice: \<^verbatim>\<open>CleanerBase\<close> saves onto the original path, and the
  temporary file of \<^verbatim>\<open>CleanerBase2\<close> is in the system's temporary directory, not the
  original's.
\<close>

theorem temp_file_then_move:
  "(files w file_path = Some b \<and>
    copy_raises env file_path (backup_path_of file_path) = None \<and>
    read_pdf env b = Inr pages \<and> kept_pages v env file_path poppler_path pages \<noteq> [] \<longrightarrow>
      (\<forall>p ps. Write_pdf p ps \<in> set (new_calls w (process_pdf v env file_path poppler_path w)) \<longrightarrow>
         p \<noteq> file_path \<and> temp_file_of v env file_path = Some p \<and>
         ps = kept_pages v env file_path poppler_path pages \<and>
         (v = CleanerBase2 \<longrightarrow> files w p = None)) \<and>
      (\<forall>s d. Move s d \<in> set (new_calls w (process_pdf v env file_path poppler_path w)) \<longrightarrow>
         d = file_path \<and>
         (\<exists>pre post. new_calls w (process_pdf v env file_path poppler_path w)
            = pre @ [Write_pdf s (kept_pages v env file_path poppler_path pages),
                     Move s file_path] @ post)) \<and>
      (files (process_pdf v env file_path poppler_path w) file_path = Some b \<or>
       (\<exists>s. Move s file_path
              \<in> set (new_calls w (process_pdf v env file_path poppler_path w))))) \<and>
   (files w file_path = Some b \<and>
    copy_raises env file_path (backup_path_of file_path) = None \<and>
    read_pdf env b = Inr pages \<and> kept_pages v env file_path poppler_path pages \<noteq> [] \<and>
    temp_file_of v env file_path = Some t \<and>
    (v = CleanerBase2 \<longrightarrow> files w t = None \<and> t \<noteq> backup_path_of file_path) \<longrightarrow>
      t \<noteq> file_path \<and>
      new_calls w (process_pdf v env file_path poppler_path w) =
        Copy file_path (backup_path_of file_path) # Open_pdf file_path #
        page_calls v env file_path poppler_path pages @ temp_prefix v @
        Write_pdf t (kept_pages v env file_path poppler_path pages) #
          (case write_raises env t (kept_pages v env file_path poppler_path pages) of
             Some f \<Rightarrow> []
           | None \<Rightarrow> Move t file_path #
               (case move_raises env t file_path of
                  Some f \<Rightarrow> []
                | None \<Rightarrow> [Remove (backup_path_of file_path)])) \<and>
      files (process_pdf v env file_path poppler_path w) file_path =
        (case write_raises env t (kept_pages v env file_path poppler_path pages) of
           Some f \<Rightarrow> Some b
         | None \<Rightarrow>
             (case move_raises env t file_path of
                None \<Rightarrow> Some (pdf_bytes env (kept_pages v env file_path poppler_path pages))
              | Some (e, left) \<Rightarrow> (case left of None \<Rightarrow> Some b | Some y \<Rightarrow> Some y)))) \<and>
   temp_file_of CleanerBase1 env file_path = Some (file_path @ ''.temp'') \<and>
   os_path_dirname (file_path @ ''.temp'') = os_path_dirname file_path \<and>
   (files w file_path = Some b \<and> read_pdf env b = Inr pages \<and>
    dropped_pages env file_path pages \<noteq> [] \<longrightarrow>
      new_calls w (CleanerBase_process_pdf env file_path w) =
        Open_pdf file_path # ocr_calls env file_path pages @
        Copy file_path (file_path @ ''.bak'') #
          (case copy_raises env file_path (file_path @ ''.bak'') of
             Some f \<Rightarrow> []
           | None \<Rightarrow> Write_pdf file_path (kept_doc env file_path pages) #
               (case write_raises env file_path (kept_doc env file_path pages) of
                  Some f \<Rightarrow> []
                | None \<Rightarrow> [Remove (file_path @ ''.bak'')])) \<and>
      files (CleanerBase_process_pdf env file_path w) file_path =
        (case copy_raises env file_path (file_path @ ''.bak'') of
           Some f \<Rightarrow> Some b
         | None \<Rightarrow>
             (case write_raises env file_path (kept_doc env file_path pages) of
                None \<Rightarrow> Some (pdf_bytes env (kept_doc env file_path pages))
              | Some (e, left) \<Rightarrow> (case left of None \<Rightarrow> Some b | Some y \<Rightarrow> Some y)))) \<and>
   (files w file_path = Some b \<and> read_pdf env b = Inr pages \<longrightarrow>
      (\<forall>p ps. Write_pdf p ps \<in> set (new_calls w (CleanerBase_process_pdf env file_path w)) \<longrightarrow>
         p = file_path) \<and>
      (\<forall>s d. Move s d \<notin> set (new_calls w (CleanerBase_process_pdf env file_path w))))"
proof (intro conjI impI)
  assume h: "files w file_path = Some b \<and>
    copy_raises env file_path (backup_path_of file_path) = None \<and>
    read_pdf env b = Inr pages \<and> kept_pages v env file_path poppler_path pages \<noteq> []"
  define N where "N = new_calls w (process_pdf v env file_path poppler_path w)"
  define K where "K = kept_pages v env file_path poppler_path pages"
  define F where "F = files (process_pdf v env file_path poppler_path w) file_path"
  from h process_pdf_rebuild_calls [of w file_path b env pages v poppler_path]
  obtain body where nc: "N = Copy file_path (backup_path_of file_path) # Open_pdf file_path #
        page_calls v env file_path poppler_path pages @ temp_prefix v @ body"
    and alt: "body = [] \<and> F = Some b \<or>
      (\<exists>t. temp_file_of v env file_path = Some t \<and> t \<noteq> file_path \<and>
           (v = CleanerBase2 \<longrightarrow> files w t = None) \<and>
           (body = [Write_pdf t K] \<and> F = Some b \<or>
            body = [Write_pdf t K, Move t file_path] \<or>
            body = [Write_pdf t K, Move t file_path, Remove (backup_path_of file_path)] \<and>
              F = Some (pdf_bytes env K)))"
    unfolding N_def K_def F_def by blast
  have A: "\<forall>p ps. Write_pdf p ps \<in> set N \<longrightarrow>
         p \<noteq> file_path \<and> temp_file_of v env file_path = Some p \<and> ps = K \<and>
         (v = CleanerBase2 \<longrightarrow> files w p = None)"
  proof (intro allI impI)
    fix p ps
    assume "Write_pdf p ps \<in> set N"
    then have "Write_pdf p ps \<in> set body"
      using stage_write_mem [OF nc] by blast
    with alt show "p \<noteq> file_path \<and> temp_file_of v env file_path = Some p \<and> ps = K \<and>
         (v = CleanerBase2 \<longrightarrow> files w p = None)"
      by auto
  qed
  have B: "\<forall>s d. Move s d \<in> set N \<longrightarrow>
         d = file_path \<and> (\<exists>pre post. N = pre @ [Write_pdf s K, Move s file_path] @ post)"
  proof (intro allI impI)
    fix s d
    assume "Move s d \<in> set N"
    then have m: "Move s d \<in> set body"
      using stage_move_mem [OF nc] by blast
    with alt consider
      (two) "d = file_path" "body = [Write_pdf s K, Move s file_path]"
      | (three) "d = file_path"
          "body = [Write_pdf s K, Move s file_path, Remove (backup_path_of file_path)]"
      by auto
    then show "d = file_path \<and> (\<exists>pre post. N = pre @ [Write_pdf s K, Move s file_path] @ post)"
    proof cases
      case two
      have "N = (Copy file_path (backup_path_of file_path) # Open_pdf file_path #
        page_calls v env file_path poppler_path pages @ temp_prefix v)
          @ [Write_pdf s K, Move s file_path] @ []"
        using nc two by simp
      then show ?thesis using two(1) by blast
    next
      case three
      have "N = (Copy file_path (backup_path_of file_path) # Open_pdf file_path #
        page_calls v env file_path poppler_path pages @ temp_prefix v)
          @ [Write_pdf s K, Move s file_path] @ [Remove (backup_path_of file_path)]"
        using nc three by simp
      then show ?thesis using three(1) by blast
    qed
  qed
  have C: "F = Some b \<or> (\<exists>s. Move s file_path \<in> set N)"
    using alt nc by auto
  show "\<forall>p ps. Write_pdf p ps \<in> set (new_calls w (process_pdf v env file_path poppler_path w)) \<longrightarrow>
         p \<noteq> file_path \<and> temp_file_of v env file_path = Some p \<and>
         ps = kept_pages v env file_path poppler_path pages \<and>
         (v = CleanerBase2 \<longrightarrow> files w p = None)"
    using A unfolding N_def K_def .
  show "\<forall>s d. Move s d \<in> set (new_calls w (process_pdf v env file_path poppler_path w)) \<longrightarrow>
         d = file_path \<and>
         (\<exists>pre post. new_calls w (process_pdf v env file_path poppler_path w)
            = pre @ [Write_pdf s (kept_pages v env file_path poppler_path pages),
                     Move s file_path] @ post)"
    using B unfolding N_def K_def .
  show "files (process_pdf v env file_path poppler_path w) file_path = Some b \<or>
       (\<exists>s. Move s file_path
              \<in> set (new_calls w (process_pdf v env file_path poppler_path w)))"
    using C unfolding N_def F_def .
next
  assume h: "files w file_path = Some b \<and>
    copy_raises env file_path (backup_path_of file_path) = None \<and>
    read_pdf env b = Inr pages \<and> kept_pages v env file_path poppler_path pages \<noteq> [] \<and>
    temp_file_of v env file_path = Some t \<and>
    (v = CleanerBase2 \<longrightarrow> files w t = None \<and> t \<noteq> backup_path_of file_path)"
  then have h1: "files w file_path = Some b"
    and h2: "copy_raises env file_path (backup_path_of file_path) = None"
    and h3: "read_pdf env b = Inr pages"
    and h4: "kept_pages v env file_path poppler_path pages \<noteq> []"
    and h5: "temp_file_of v env file_path = Some t"
    and h6: "v = CleanerBase2 \<longrightarrow> files w t = None \<and> t \<noteq> backup_path_of file_path"
    by blast+
  show "t \<noteq> file_path"
    using h1 h5 h6 by (cases v) auto
  show "new_calls w (process_pdf v env file_path poppler_path w) =
        Copy file_path (backup_path_of file_path) # Open_pdf file_path #
        page_calls v env file_path poppler_path pages @ temp_prefix v @
        Write_pdf t (kept_pages v env file_path poppler_path pages) #
          (case write_raises env t (kept_pages v env file_path poppler_path pages) of
             Some f \<Rightarrow> []
           | None \<Rightarrow> Move t file_path #
               (case move_raises env t file_path of
                  Some f \<Rightarrow> []
                | None \<Rightarrow> [Remove (backup_path_of file_path)]))"
    by (rule process_pdf_trace(1) [OF h1 h2 h3 h4 h5 h6])
  show "files (process_pdf v env file_path poppler_path w) file_path =
        (case write_raises env t (kept_pages v env file_path poppler_path pages) of
           Some f \<Rightarrow> Some b
         | None \<Rightarrow>
             (case move_raises env t file_path of
                None \<Rightarrow> Some (pdf_bytes env (kept_pages v env file_path poppler_path pages))
              | Some (e, left) \<Rightarrow> (case left of None \<Rightarrow> Some b | Some y \<Rightarrow> Some y)))"
    by (rule process_pdf_trace(2) [OF h1 h2 h3 h4 h5 h6])
next
  show "temp_file_of CleanerBase1 env file_path = Some (file_path @ ''.temp'')"
    by simp
  show "os_path_dirname (file_path @ ''.temp'') = os_path_dirname file_path"
    by (rule temp_dirname)
next
  assume h: "files w file_path = Some b \<and> read_pdf env b = Inr pages \<and>
    dropped_pages env file_path pages \<noteq> []"
  then have h1: "files w file_path = Some b" and h2: "read_pdf env b = Inr pages"
    and h3: "dropped_pages env file_path pages \<noteq> []"
    by blast+
  show "new_calls w (CleanerBase_process_pdf env file_path w) =
        Open_pdf file_path # ocr_calls env file_path pages @
        Copy file_path (file_path @ ''.bak'') #
          (case copy_raises env file_path (file_path @ ''.bak'') of
             Some f \<Rightarrow> []
           | None \<Rightarrow> Write_pdf file_path (kept_doc env file_path pages) #
               (case write_raises env file_path (kept_doc env file_path pages) of
                  Some f \<Rightarrow> []
                | None \<Rightarrow> [Remove (file_path @ ''.bak'')]))"
    by (rule CleanerBase_process_pdf_trace(1) [OF h1 h2 h3])
  show "files (CleanerBase_process_pdf env file_path w) file_path =
        (case copy_raises env file_path (file_path @ ''.bak'') of
           Some f \<Rightarrow> Some b
         | None \<Rightarrow>
             (case write_raises env file_path (kept_doc env file_path pages) of
                None \<Rightarrow> Some (pdf_bytes env (kept_doc env file_path pages))
              | Some (e, left) \<Rightarrow> (case left of None \<Rightarrow> Some b | Some y \<Rightarrow> Some y)))"
    by (rule CleanerBase_process_pdf_trace(2) [OF h1 h2 h3])
next
  assume h: "files w file_path = Some b \<and> read_pdf env b = Inr pages"
  show "\<forall>p ps. Write_pdf p ps \<in> set (new_calls w (CleanerBase_process_pdf env file_path w)) \<longrightarrow>
         p = file_path"
    using h CleanerBase_writes_kept by blast
  show "\<forall>s d. Move s d \<notin> set (new_calls w (CleanerBase_process_pdf env file_path w))"
    using h CleanerBase_no_move by blast
qed

theorem temp_file_then_move_witness:
  "files example_world ''/docs/a.pdf'' = Some ''%PDF mixed'' \<and>
   copy_raises example_env ''/docs/a.pdf'' (backup_path_of ''/docs/a.pdf'') = None \<and>
   read_pdf example_env ''%PDF mixed'' = Inr [page_hello, page_white, page_scan] \<and>
   kept_pages CleanerBase2 example_env ''/docs/a.pdf'' None [page_hello, page_white, page_scan]
     \<noteq> [] \<and>
   temp_file_of CleanerBase2 example_env ''/docs/a.pdf'' = Some ''/tmp/tmpk3x7.pdf'' \<and>
   files example_world ''/tmp/tmpk3x7.pdf'' = None \<and>
   ''/tmp/tmpk3x7.pdf'' \<noteq> backup_path_of ''/docs/a.pdf'' \<and>
   dropped_pages example_env ''/docs/a.pdf'' [page_hello, page_white, page_scan] \<noteq> [] \<and>
   new_calls example_world
       (process_pdf CleanerBase2 example_env ''/docs/a.pdf'' None example_world)
     = [Copy ''/docs/a.pdf'' ''/docs/a.pdf.backup'', Open_pdf ''/docs/a.pdf'',
        Rasterize ''/docs/a.pdf'' 2, Ocr ''/docs/a.pdf'' 2,
        Rasterize ''/docs/a.pdf'' 3, Ocr ''/docs/a.pdf'' 3,
        Make_temp, Write_pdf ''/tmp/tmpk3x7.pdf'' [page_hello],
        Move ''/tmp/tmpk3x7.pdf'' ''/docs/a.pdf'', Remove ''/docs/a.pdf.backup''] \<and>
   files (process_pdf CleanerBase2 example_env ''/docs/a.pdf'' None example_world)
     ''/docs/a.pdf'' = Some (pdf_bytes example_env [page_hello]) \<and>
   Write_pdf ''/docs/a.pdf'' [page_hello]
     \<notin> set (new_calls example_world
             (process_pdf CleanerBase2 example_env ''/docs/a.pdf'' None example_world)) \<and>
   new_calls example_world (CleanerBase_process_pdf example_env ''/docs/a.pdf'' example_world)
     = [Open_pdf ''/docs/a.pdf'', Rasterize ''/docs/a.pdf'' 2, Ocr ''/docs/a.pdf'' 2,
        Rasterize ''/docs/a.pdf'' 3, Ocr ''/docs/a.pdf'' 3,
        Copy ''/docs/a.pdf'' ''/docs/a.pdf.bak'',
        Write_pdf ''/docs/a.pdf'' [page_hello, page_scan], Remove ''/docs/a.pdf.bak''] \<and>
   files (CleanerBase_process_pdf example_env ''/docs/a.pdf'' example_world) ''/docs/a.pdf''
     = Some (pdf_bytes example_env [page_hello, page_scan]) \<and>
   os_path_dirname (''/docs/a.pdf'' @ ''.temp'') = os_path_dirname ''/docs/a.pdf''"
proof -
  have h: "files example_world ''/docs/a.pdf'' = Some ''%PDF mixed'' \<and>
      copy_raises example_env ''/docs/a.pdf'' (backup_path_of ''/docs/a.pdf'') = None \<and>
      read_pdf example_env ''%PDF mixed'' = Inr [page_hello, page_white, page_scan] \<and>
      kept_pages CleanerBase2 example_env ''/docs/a.pdf'' None
        [page_hello, page_white, page_scan] \<noteq> []"
    by (simp add: example_kept_mixed)
  have tmp: "temp_file_of CleanerBase2 example_env ''/docs/a.pdf'' = Some ''/tmp/tmpk3x7.pdf''"
    "files example_world ''/tmp/tmpk3x7.pdf'' = None"
    "''/tmp/tmpk3x7.pdf'' \<noteq> backup_path_of ''/docs/a.pdf''"
    by (rule example_temp2, rule example_tmp_fresh, simp add: backup_path_example)
  have ht: "files example_world ''/docs/a.pdf'' = Some ''%PDF mixed'' \<and>
      copy_raises example_env ''/docs/a.pdf'' (backup_path_of ''/docs/a.pdf'') = None \<and>
      read_pdf example_env ''%PDF mixed'' = Inr [page_hello, page_white, page_scan] \<and>
      kept_pages CleanerBase2 example_env ''/docs/a.pdf'' None
        [page_hello, page_white, page_scan] \<noteq> [] \<and>
      temp_file_of CleanerBase2 example_env ''/docs/a.pdf'' = Some ''/tmp/tmpk3x7.pdf'' \<and>
      (CleanerBase2 = CleanerBase2 \<longrightarrow> files example_world ''/tmp/tmpk3x7.pdf'' = None \<and>
         ''/tmp/tmpk3x7.pdf'' \<noteq> backup_path_of ''/docs/a.pdf'')"
    using h tmp by blast
  have hc: "files example_world ''/docs/a.pdf'' = Some ''%PDF mixed'' \<and>
      read_pdf example_env ''%PDF mixed'' = Inr [page_hello, page_white, page_scan] \<and>
      dropped_pages example_env ''/docs/a.pdf'' [page_hello, page_white, page_scan] \<noteq> []"
    by (simp add: example_mixed_lists)
  note T = temp_file_then_move [where w = example_world and file_path = "''/docs/a.pdf''"
      and b = "''%PDF mixed''" and env = example_env
      and pages = "[page_hello, page_white, page_scan]" and v = CleanerBase2
      and poppler_path = None and t = "''/tmp/tmpk3x7.pdf''"]
  from T h have A: "\<forall>p ps. Write_pdf p ps
        \<in> set (new_calls example_world
                (process_pdf CleanerBase2 example_env ''/docs/a.pdf'' None example_world)) \<longrightarrow>
         p \<noteq> ''/docs/a.pdf''"
    by blast
  have nw: "Write_pdf ''/docs/a.pdf'' [page_hello]
     \<notin> set (new_calls example_world
             (process_pdf CleanerBase2 example_env ''/docs/a.pdf'' None example_world))"
    using A by blast
  from T ht have e1: "new_calls example_world
       (process_pdf CleanerBase2 example_env ''/docs/a.pdf'' None example_world) =
        Copy ''/docs/a.pdf'' (backup_path_of ''/docs/a.pdf'') # Open_pdf ''/docs/a.pdf'' #
        page_calls CleanerBase2 example_env ''/docs/a.pdf'' None
          [page_hello, page_white, page_scan] @ temp_prefix CleanerBase2 @
        Write_pdf ''/tmp/tmpk3x7.pdf''
          (kept_pages CleanerBase2 example_env ''/docs/a.pdf'' None
             [page_hello, page_white, page_scan]) #
          (case write_raises example_env ''/tmp/tmpk3x7.pdf''
                  (kept_pages CleanerBase2 example_env ''/docs/a.pdf'' None
                     [page_hello, page_white, page_scan]) of
             Some f \<Rightarrow> []
           | None \<Rightarrow> Move ''/tmp/tmpk3x7.pdf'' ''/docs/a.pdf'' #
               (case move_raises example_env ''/tmp/tmpk3x7.pdf'' ''/docs/a.pdf'' of
                  Some f \<Rightarrow> []
                | None \<Rightarrow> [Remove (backup_path_of ''/docs/a.pdf'')]))"
    by blast
  from T ht have e2: "files
       (process_pdf CleanerBase2 example_env ''/docs/a.pdf'' None example_world) ''/docs/a.pdf'' =
        (case write_raises example_env ''/tmp/tmpk3x7.pdf''
                (kept_pages CleanerBase2 example_env ''/docs/a.pdf'' None
                   [page_hello, page_white, page_scan]) of
           Some f \<Rightarrow> Some ''%PDF mixed''
         | None \<Rightarrow>
             (case move_raises example_env ''/tmp/tmpk3x7.pdf'' ''/docs/a.pdf'' of
                None \<Rightarrow> Some (pdf_bytes example_env
                          (kept_pages CleanerBase2 example_env ''/docs/a.pdf'' None
                             [page_hello, page_white, page_scan]))
              | Some (e, left) \<Rightarrow>
                  (case left of None \<Rightarrow> Some ''%PDF mixed'' | Some y \<Rightarrow> Some y)))"
    by blast
  from T hc have e3: "new_calls example_world
       (CleanerBase_process_pdf example_env ''/docs/a.pdf'' example_world) =
        Open_pdf ''/docs/a.pdf'' #
        ocr_calls example_env ''/docs/a.pdf'' [page_hello, page_white, page_scan] @
        Copy ''/docs/a.pdf'' (''/docs/a.pdf'' @ ''.bak'') #
          (case copy_raises example_env ''/docs/a.pdf'' (''/docs/a.pdf'' @ ''.bak'') of
             Some f \<Rightarrow> []
           | None \<Rightarrow> Write_pdf ''/docs/a.pdf''
                 (kept_doc example_env ''/docs/a.pdf'' [page_hello, page_white, page_scan]) #
               (case write_raises example_env ''/docs/a.pdf''
                       (kept_doc example_env ''/docs/a.pdf''
                          [page_hello, page_white, page_scan]) of
                  Some f \<Rightarrow> []
                | None \<Rightarrow> [Remove (''/docs/a.pdf'' @ ''.bak'')]))"
    by blast
  from T hc have e4: "files
       (CleanerBase_process_pdf example_env ''/docs/a.pdf'' example_world) ''/docs/a.pdf'' =
        (case copy_raises example_env ''/docs/a.pdf'' (''/docs/a.pdf'' @ ''.bak'') of
           Some f \<Rightarrow> Some ''%PDF mixed''
         | None \<Rightarrow>
             (case write_raises example_env ''/docs/a.pdf''
                     (kept_doc example_env ''/docs/a.pdf''
                        [page_hello, page_white, page_scan]) of
                None \<Rightarrow> Some (pdf_bytes example_env
                          (kept_doc example_env ''/docs/a.pdf''
                             [page_hello, page_white, page_scan]))
              | Some (e, left) \<Rightarrow>
                  (case left of None \<Rightarrow> Some ''%PDF mixed'' | Some y \<Rightarrow> Some y)))"
    by blast
  have d: "os_path_dirname (''/docs/a.pdf'' @ ''.temp'') = os_path_dirname ''/docs/a.pdf''"
    using T by blast
  have c1: "new_calls example_world
       (process_pdf CleanerBase2 example_env ''/docs/a.pdf'' None example_world)
     = [Copy ''/docs/a.pdf'' ''/docs/a.pdf.backup'', Open_pdf ''/docs/a.pdf'',
        Rasterize ''/docs/a.pdf'' 2, Ocr ''/docs/a.pdf'' 2,
        Rasterize ''/docs/a.pdf'' 3, Ocr ''/docs/a.pdf'' 3,
        Make_temp, Write_pdf ''/tmp/tmpk3x7.pdf'' [page_hello],
        Move ''/tmp/tmpk3x7.pdf'' ''/docs/a.pdf'', Remove ''/docs/a.pdf.backup'']"
    unfolding e1 by (simp add: example_kept_mixed backup_path_example temp_prefix_def)
  have c2: "files (process_pdf CleanerBase2 example_env ''/docs/a.pdf'' None example_world)
     ''/docs/a.pdf'' = Some (pdf_bytes example_env [page_hello])"
    unfolding e2 by (simp add: example_kept_mixed)
  have c3: "new_calls example_world
       (CleanerBase_process_pdf example_env ''/docs/a.pdf'' example_world)
     = [Open_pdf ''/docs/a.pdf'', Rasterize ''/docs/a.pdf'' 2, Ocr ''/docs/a.pdf'' 2,
        Rasterize ''/docs/a.pdf'' 3, Ocr ''/docs/a.pdf'' 3,
        Copy ''/docs/a.pdf'' ''/docs/a.pdf.bak'',
        Write_pdf ''/docs/a.pdf'' [page_hello, page_scan], Remove ''/docs/a.pdf.bak'']"
    unfolding e3 by (simp add: example_mixed_lists)
  have c4: "files (CleanerBase_process_pdf example_env ''/docs/a.pdf'' example_world)
     ''/docs/a.pdf'' = Some (pdf_bytes example_env [page_hello, page_scan])"
    unfolding e4 by (simp add: example_mixed_lists)
  show ?thesis
    using h tmp hc c1 c2 nw c3 c4 d by blast
qed

theorem direct_overwrite_counterexample:
  "Write_pdf ''/docs/a.pdf'' [page_hello, page_scan]
     \<in> set (calls (CleanerBase_process_pdf example_env ''/docs/a.pdf'' example_world)) \<and>
   Write_pdf ''/tmp/tmpk3x7.pdf'' [page_hello]
     \<in> set (new_calls example_world
             (process_pdf CleanerBase2 example_env ''/docs/a.pdf'' None example_world)) \<and>
   os_path_dirname ''/tmp/tmpk3x7.pdf'' \<noteq> os_path_dirname ''/docs/a.pdf''"
  by (simp add: example_CleanerBase_run example_run2_mixed os_path_dirname_def)

subsection \<open>C4: a file in which no page is blank\<close>

text \<open>
  C4, as amended. In \<^verbatim>\<open>CleanerBase.process_pdf\<close>, when the document opens and no page is
  confirmed blank, the file system is as it was (so the original's bytes are unchanged and
  no backup exists, none having been made) and the log line says "Removed pages: 0, Status:
  No changes". \<^verbatim>\<open>process_pdf\<close> of \<^verbatim>\<open>CleanerBase1\<close> and \<^verbatim>\<open>CleanerBase2\<close> has no such branch:
  for a document with at least one page, none of them blank, and no failing file operation,
  it writes all the pages to the temporary file, moves it onto the original, removes the
  backup and shows "Modified PDF saved" with 0 removed pages.

  The claim as stated fails on \<^verbatim>\<open>CleanerBase1\<close>: the counterexample is the one-page file with
  text, whose bytes differ after the call.
\<close>

theorem unchanged_when_nothing_dropped:
  "(files w file_path = Some b \<and> read_pdf env b = Inr pages \<and>
    dropped_pages env file_path pages = [] \<longrightarrow>
      files (CleanerBase_process_pdf env file_path w) = files w \<and>
      log_file (CleanerBase_process_pdf env file_path w)
        = log_file w @ [Status_no_changes (os_path_basename file_path) (length pages)] \<and>
      new_calls w (CleanerBase_process_pdf env file_path w)
        = Open_pdf file_path # ocr_calls env file_path pages) \<and>
   (files w file_path = Some b \<and>
    copy_raises env file_path (backup_path_of file_path) = None \<and>
    read_pdf env b = Inr pages \<and> pages \<noteq> [] \<and>
    removed_count v env file_path poppler_path pages = 0 \<and>
    temp_file_of v env file_path = Some t \<and>
    (v = CleanerBase2 \<longrightarrow> files w t = None \<and> t \<noteq> backup_path_of file_path) \<and>
    write_raises env t pages = None \<and> move_raises env t file_path = None \<and>
    remove_raises env (backup_path_of file_path) = None \<longrightarrow>
      files (process_pdf v env file_path poppler_path w) file_path
        = Some (pdf_bytes env pages) \<and>
      files (process_pdf v env file_path poppler_path w) (backup_path_of file_path) = None \<and>
      shown (process_pdf v env file_path poppler_path w)
        = shown w @ [Showinfo_success (length pages) 0] \<and>
      new_calls w (process_pdf v env file_path poppler_path w)
        = Copy file_path (backup_path_of file_path) # Open_pdf file_path #
            page_calls v env file_path poppler_path pages @ temp_prefix v @
            [Write_pdf t pages, Move t file_path, Remove (backup_path_of file_path)])"
proof (intro conjI impI)
  assume h: "files w file_path = Some b \<and> read_pdf env b = Inr pages \<and>
    dropped_pages env file_path pages = []"
  then have eq: "CleanerBase_process_pdf env file_path w =
     w\<lparr>calls := calls w @ Open_pdf file_path # ocr_calls env file_path pages,
       log_file := log_file w @
         [Status_no_changes (os_path_basename file_path) (length pages)]\<rparr>"
    using CleanerBase_nothing_dropped by blast
  show "files (CleanerBase_process_pdf env file_path w) = files w"
    unfolding eq by simp
  show "log_file (CleanerBase_process_pdf env file_path w)
        = log_file w @ [Status_no_changes (os_path_basename file_path) (length pages)]"
    unfolding eq by simp
  show "new_calls w (CleanerBase_process_pdf env file_path w)
        = Open_pdf file_path # ocr_calls env file_path pages"
    unfolding eq by (simp add: new_calls_def)
next
  assume h: "files w file_path = Some b \<and>
    copy_raises env file_path (backup_path_of file_path) = None \<and>
    read_pdf env b = Inr pages \<and> pages \<noteq> [] \<and>
    removed_count v env file_path poppler_path pages = 0 \<and>
    temp_file_of v env file_path = Some t \<and>
    (v = CleanerBase2 \<longrightarrow> files w t = None \<and> t \<noteq> backup_path_of file_path) \<and>
    write_raises env t pages = None \<and> move_raises env t file_path = None \<and>
    remove_raises env (backup_path_of file_path) = None"
  then have k: "kept_pages v env file_path poppler_path pages = pages"
    using removed_count_0 by blast
  have a1: "files w file_path = Some b" and a2: "copy_raises env file_path (backup_path_of file_path) = None"
    and a3: "read_pdf env b = Inr pages" and a4: "kept_pages v env file_path poppler_path pages \<noteq> []"
    and a5: "temp_file_of v env file_path = Some t"
    and a6: "v = CleanerBase2 \<longrightarrow> files w t = None \<and> t \<noteq> backup_path_of file_path"
    and a7: "write_raises env t (kept_pages v env file_path poppler_path pages) = None"
    and a8: "move_raises env t file_path = None"
    and a9: "remove_raises env (backup_path_of file_path) = None"
    using h k by simp_all
  note s = process_pdf_success [OF a1 a2 a3 a4 a5 a6 a7 a8 a9]
  show "files (process_pdf v env file_path poppler_path w) file_path
        = Some (pdf_bytes env pages)"
    using s(1) k by simp
  show "files (process_pdf v env file_path poppler_path w) (backup_path_of file_path) = None"
    using s(2) .
  show "shown (process_pdf v env file_path poppler_path w)
        = shown w @ [Showinfo_success (length pages) 0]"
    using s(3) h by simp
  show "new_calls w (process_pdf v env file_path poppler_path w)
        = Copy file_path (backup_path_of file_path) # Open_pdf file_path #
            page_calls v env file_path poppler_path pages @ temp_prefix v @
            [Write_pdf t pages, Move t file_path, Remove (backup_path_of file_path)]"
    using s(4) k by simp
qed

theorem rewritten_without_blank_pages_counterexample:
  "removed_count CleanerBase1 example_env ''/docs/c.pdf'' None [page_hello] = 0 \<and>
   files example_world ''/docs/c.pdf'' = Some ''%PDF text'' \<and>
   read_pdf example_env ''%PDF text'' = Inr [page_hello] \<and>
   files (process_pdf CleanerBase1 example_env ''/docs/c.pdf'' None example_world) ''/docs/c.pdf''
     \<noteq> Some ''%PDF text'' \<and>
   shown (process_pdf CleanerBase1 example_env ''/docs/c.pdf'' None example_world)
     = [Showinfo_success 1 0]"
  by (simp add: example_run1_text example_kept_text example_pdf_bytes)

theorem unchanged_when_nothing_dropped_witness:
  "files example_world ''/docs/c.pdf'' = Some ''%PDF text'' \<and>
   read_pdf example_env ''%PDF text'' = Inr [page_hello] \<and>
   dropped_pages example_env ''/docs/c.pdf'' [page_hello] = [] \<and>
   files (CleanerBase_process_pdf example_env ''/docs/c.pdf'' example_world)
     = files example_world \<and>
   log_file (CleanerBase_process_pdf example_env ''/docs/c.pdf'' example_world)
     = [Status_no_changes ''c.pdf'' 1] \<and>
   removed_count CleanerBase1 example_env ''/docs/c.pdf'' None [page_hello] = 0 \<and>
   temp_file_of CleanerBase1 example_env ''/docs/c.pdf'' = Some ''/docs/c.pdf.temp'' \<and>
   files (process_pdf CleanerBase1 example_env ''/docs/c.pdf'' None example_world)
     ''/docs/c.pdf'' = Some (pdf_bytes example_env [page_hello]) \<and>
   files (process_pdf CleanerBase1 example_env ''/docs/c.pdf'' None example_world)
     ''/docs/c.pdf.backup'' = None \<and>
   shown (process_pdf CleanerBase1 example_env ''/docs/c.pdf'' None example_world)
     = [Showinfo_success 1 0]"
proof -
  have h1: "files example_world ''/docs/c.pdf'' = Some ''%PDF text'' \<and>
      read_pdf example_env ''%PDF text'' = Inr [page_hello] \<and>
      dropped_pages example_env ''/docs/c.pdf'' [page_hello] = []"
    by (simp add: example_dropped_text)
  have h2: "files example_world ''/docs/c.pdf'' = Some ''%PDF text'' \<and>
    copy_raises example_env ''/docs/c.pdf'' (backup_path_of ''/docs/c.pdf'') = None \<and>
    read_pdf example_env ''%PDF text'' = Inr [page_hello] \<and> [page_hello] \<noteq> [] \<and>
    removed_count CleanerBase1 example_env ''/docs/c.pdf'' None [page_hello] = 0 \<and>
    temp_file_of CleanerBase1 example_env ''/docs/c.pdf'' = Some ''/docs/c.pdf.temp'' \<and>
    (CleanerBase1 = CleanerBase2 \<longrightarrow>
       files example_world ''/docs/c.pdf.temp'' = None \<and>
       ''/docs/c.pdf.temp'' \<noteq> backup_path_of ''/docs/c.pdf'') \<and>
    write_raises example_env ''/docs/c.pdf.temp'' [page_hello] = None \<and>
    move_raises example_env ''/docs/c.pdf.temp'' ''/docs/c.pdf'' = None \<and>
    remove_raises example_env (backup_path_of ''/docs/c.pdf'') = None"
    by (simp add: example_kept_text)
  note T = unchanged_when_nothing_dropped [where w = example_world
      and file_path = "''/docs/c.pdf''" and b = "''%PDF text''" and env = example_env
      and pages = "[page_hello]" and v = CleanerBase1 and poppler_path = None
      and t = "''/docs/c.pdf.temp''"]
  have bn: "os_path_basename ''/docs/c.pdf'' = ''c.pdf''"
    by (simp add: os_path_basename_def)
  have a: "files (CleanerBase_process_pdf example_env ''/docs/c.pdf'' example_world)
     = files example_world"
    "log_file (CleanerBase_process_pdf example_env ''/docs/c.pdf'' example_world)
     = log_file example_world @
         [Status_no_changes (os_path_basename ''/docs/c.pdf'') (length [page_hello])]"
    using T h1 by blast+
  have b: "files (process_pdf CleanerBase1 example_env ''/docs/c.pdf'' None example_world)
     ''/docs/c.pdf'' = Some (pdf_bytes example_env [page_hello])"
    "files (process_pdf CleanerBase1 example_env ''/docs/c.pdf'' None example_world)
     (backup_path_of ''/docs/c.pdf'') = None"
    "shown (process_pdf CleanerBase1 example_env ''/docs/c.pdf'' None example_world)
     = shown example_world @ [Showinfo_success (length [page_hello]) 0]"
    using T h2 by blast+
  show ?thesis
    using h1 h2 a b by (simp add: bn backup_path_c)
qed

subsection \<open>C5: a page with text is kept without OCR\<close>

text \<open>
  C5. A page whose text layer, stripped, is not empty: \<^verbatim>\<open>is_blank_page\<close> (both variants)
  returns not blank and leaves the world as it was, so neither rasteriser nor OCR is called;
  in \<^verbatim>\<open>CleanerBase\<close> the text check returns not blank, \<^verbatim>\<open>process_pdf\<close> makes no rasteriser
  or OCR call for that page, and the page is among those kept.
\<close>

theorem text_layer_short_circuit:
  "(text_layer page = Some t \<and> strip t \<noteq> [] \<longrightarrow>
      is_blank_page v env page file_path page_num poppler_path w = (False, w)) \<and>
   (files w filepath = Some b \<and> read_pdf env b = Inr doc \<and> n < length doc \<and>
    text_layer (doc ! n) = Some t \<and> strip t \<noteq> [] \<longrightarrow>
      check_blank_page env (doc_page filepath doc n) False w = (False, w) \<and>
      Rasterize filepath (n + 1) \<notin> set (new_calls w (CleanerBase_process_pdf env filepath w)) \<and>
      Ocr filepath (n + 1) \<notin> set (new_calls w (CleanerBase_process_pdf env filepath w)) \<and>
      doc ! n \<in> set (kept_doc env filepath doc))"
proof (intro conjI impI)
  assume "text_layer page = Some t \<and> strip t \<noteq> []"
  then show "is_blank_page v env page file_path page_num poppler_path w = (False, w)"
    by (simp add: is_blank_page_text)
next
  assume h: "files w filepath = Some b \<and> read_pdf env b = Inr doc \<and> n < length doc \<and>
    text_layer (doc ! n) = Some t \<and> strip t \<noteq> []"
  then have nf: "\<not> text_flagged filepath doc n"
    by (simp add: text_flagged_Some)
  then show "check_blank_page env (doc_page filepath doc n) False w = (False, w)"
    by (simp add: check_blank_page_text text_flagged_def)
  show "Rasterize filepath (n + 1) \<notin> set (new_calls w (CleanerBase_process_pdf env filepath w))"
    using CleanerBase_ocr_only_flagged [of w filepath b env doc filepath "n + 1"] h nf by auto
  show "Ocr filepath (n + 1) \<notin> set (new_calls w (CleanerBase_process_pdf env filepath w))"
    using CleanerBase_ocr_only_flagged [of w filepath b env doc filepath "n + 1"] h nf by auto
  show "doc ! n \<in> set (kept_doc env filepath doc)"
    using h nf by (auto simp: kept_doc_def)
qed

theorem text_layer_short_circuit_witness:
  "text_layer page_hello = Some ''Hello'' \<and> strip ''Hello'' \<noteq> [] \<and>
   is_blank_page CleanerBase1 example_env page_hello ''/docs/a.pdf'' 1 None example_world
     = (False, example_world) \<and>
   files example_world ''/docs/a.pdf'' = Some ''%PDF mixed'' \<and>
   read_pdf example_env ''%PDF mixed'' = Inr [page_hello, page_white, page_scan] \<and>
   Rasterize ''/docs/a.pdf'' 1
     \<notin> set (new_calls example_world
              (CleanerBase_process_pdf example_env ''/docs/a.pdf'' example_world)) \<and>
   Ocr ''/docs/a.pdf'' 1
     \<notin> set (new_calls example_world
              (CleanerBase_process_pdf example_env ''/docs/a.pdf'' example_world))"
proof -
  have h: "text_layer page_hello = Some ''Hello''" "strip ''Hello'' \<noteq> []"
    by (simp_all add: page_hello_def strip_hello)
  show ?thesis
    using h
      text_layer_short_circuit [where page = page_hello and t = "''Hello''" and v = CleanerBase1
        and env = example_env and file_path = "''/docs/a.pdf''" and page_num = 1
        and poppler_path = None and w = example_world and filepath = "''/docs/a.pdf''"
        and b = "''%PDF mixed''" and doc = "[page_hello, page_white, page_scan]" and n = 0]
    by simp
qed

subsection \<open>C6: the OCR threshold\<close>



subsection \<open>C7: which pages are dropped, and when OCR runs\<close>

text \<open>
  C7, as amended. When \<^verbatim>\<open>CleanerBase.process_pdf\<close> has opened a document, whatever it writes
  is the document without exactly the pages that the text check flagged and the OCR check
  then answered blank for; the dropped pages are among the text-flagged ones; and every
  rasteriser or OCR call it makes is for a page the text check flagged. Its OCR check answers
  blank when OCR confirms it (an image was made, OCR succeeded, fewer than 5 characters after
  stripping) and also when the rasteriser returns no image.

  In \<^verbatim>\<open>CleanerBase1\<close> and \<^verbatim>\<open>CleanerBase2\<close>, \<^verbatim>\<open>is_blank_page\<close> returns blank only for a page
  whose text layer is missing or strips to nothing, and calls the rasteriser or OCR only for
  such a page. In \<^verbatim>\<open>CleanerBase1\<close> such a page is blank, and so dropped, exactly when OCR
  confirms it, or rasterisation or OCR raises, or the rasteriser returns no image: in the
  last two cases the page is dropped with no confirmation by OCR, which is where the claim as
  stated fails.
\<close>

theorem dropped_only_if_text_and_ocr:
  "(files w filepath = Some b \<and> read_pdf env b = Inr doc \<longrightarrow>
      (\<forall>p ps. Write_pdf p ps \<in> set (new_calls w (CleanerBase_process_pdf env filepath w)) \<longrightarrow>
          p = filepath \<and> ps = kept_doc env filepath doc) \<and>
      set (dropped_pages env filepath doc) \<subseteq> set (text_flagged_pages filepath doc) \<and>
      (\<forall>p k. Rasterize p k \<in> set (new_calls w (CleanerBase_process_pdf env filepath w)) \<or>
             Ocr p k \<in> set (new_calls w (CleanerBase_process_pdf env filepath w)) \<longrightarrow>
          p = filepath \<and> 0 < k \<and> k \<le> length doc \<and> text_flagged filepath doc (k - 1))) \<and>
   ocr_verdict env pg =
     (ocr_confirms_blank env (parent_name pg) (number pg + 1) (Some 200) None (Some ''eng'') \<or>
      convert_from_path env (parent_name pg) (number pg + 1) (Some 200) None = Inr []) \<and>
   (fst (is_blank_page v env page file_path page_num poppler_path w) \<longrightarrow> text_empty page) \<and>
   (new_calls w (snd (is_blank_page v env page file_path page_num poppler_path w)) \<noteq> [] \<longrightarrow>
      text_empty page) \<and>
   fst (is_blank_page CleanerBase1 env page file_path page_num poppler_path w) =
     (text_empty page \<and>
      (ocr_confirms_blank env file_path page_num None (poppler_kw poppler_path) None \<or>
       ocr_raises env file_path page_num None (poppler_kw poppler_path) None \<or>
       convert_from_path env file_path page_num None (poppler_kw poppler_path) = Inr []))"
proof (intro conjI impI allI)
  assume h: "files w filepath = Some b \<and> read_pdf env b = Inr doc"
  show "set (dropped_pages env filepath doc) \<subseteq> set (text_flagged_pages filepath doc)"
    by (auto simp: dropped_pages_def)
  {
    fix p ps
    assume "Write_pdf p ps \<in> set (new_calls w (CleanerBase_process_pdf env filepath w))"
    with h have "p = filepath \<and> ps = kept_doc env filepath doc"
      using CleanerBase_writes_kept by blast
    then show "p = filepath" "ps = kept_doc env filepath doc" by simp_all
  }
  {
    fix p k
    assume "Rasterize p k \<in> set (new_calls w (CleanerBase_process_pdf env filepath w)) \<or>
             Ocr p k \<in> set (new_calls w (CleanerBase_process_pdf env filepath w))"
    with h have "p = filepath \<and> 0 < k \<and> k \<le> length doc \<and> text_flagged filepath doc (k - 1)"
      using CleanerBase_ocr_only_flagged by blast
    then show "p = filepath" "0 < k" "k \<le> length doc" "text_flagged filepath doc (k - 1)"
      by simp_all
  }
next
  show "ocr_verdict env pg =
     (ocr_confirms_blank env (parent_name pg) (number pg + 1) (Some 200) None (Some ''eng'') \<or>
      convert_from_path env (parent_name pg) (number pg + 1) (Some 200) None = Inr [])"
    by (rule ocr_verdict_eq)
next
  assume "fst (is_blank_page v env page file_path page_num poppler_path w)"
  then show "text_empty page"
    using is_blank_page_text_empty [of page v env file_path page_num poppler_path w]
    by (cases "text_empty page") simp_all
next
  assume "new_calls w (snd (is_blank_page v env page file_path page_num poppler_path w)) \<noteq> []"
  then show "text_empty page"
    using is_blank_page_text_empty [of page v env file_path page_num poppler_path w]
    by (cases "text_empty page") simp_all
next
  show "fst (is_blank_page CleanerBase1 env page file_path page_num poppler_path w) =
     (text_empty page \<and>
      (ocr_confirms_blank env file_path page_num None (poppler_kw poppler_path) None \<or>
       ocr_raises env file_path page_num None (poppler_kw poppler_path) None \<or>
       convert_from_path env file_path page_num None (poppler_kw poppler_path) = Inr []))"
    by (rule is_blank_page_CleanerBase1)
qed

theorem dropped_only_if_text_and_ocr_witness:
  "files example_world ''/docs/a.pdf'' = Some ''%PDF mixed'' \<and>
   read_pdf example_env ''%PDF mixed'' = Inr [page_hello, page_white, page_scan] \<and>
   Write_pdf ''/docs/a.pdf'' [page_hello, page_scan]
     \<in> set (new_calls example_world
             (CleanerBase_process_pdf example_env ''/docs/a.pdf'' example_world)) \<and>
   kept_doc example_env ''/docs/a.pdf'' [page_hello, page_white, page_scan]
     = [page_hello, page_scan] \<and>
   Rasterize ''/docs/a.pdf'' 2
     \<in> set (new_calls example_world
             (CleanerBase_process_pdf example_env ''/docs/a.pdf'' example_world)) \<and>
   text_flagged ''/docs/a.pdf'' [page_hello, page_white, page_scan] (2 - 1) \<and>
   fst (is_blank_page CleanerBase1 example_env page_white ''/docs/a.pdf'' 2 None example_world) \<and>
   text_empty page_white"
proof -
  have ew: "calls example_world = []"
    by (simp add: example_world_def)
  have wr: "Write_pdf ''/docs/a.pdf'' [page_hello, page_scan]
     \<in> set (new_calls example_world
             (CleanerBase_process_pdf example_env ''/docs/a.pdf'' example_world))"
    and ra: "Rasterize ''/docs/a.pdf'' 2
     \<in> set (new_calls example_world
             (CleanerBase_process_pdf example_env ''/docs/a.pdf'' example_world))"
    by (simp_all add: ew example_CleanerBase_run)
  have bl: "fst (is_blank_page CleanerBase1 example_env page_white ''/docs/a.pdf'' 2 None
                   example_world)"
    by (simp add: is_blank_page_def is_blank_page_try_def page_white_def strip_white
          example_env_def poppler_kw_def Let_def strip_space)
  have h: "files example_world ''/docs/a.pdf'' = Some ''%PDF mixed'' \<and>
      read_pdf example_env ''%PDF mixed'' = Inr [page_hello, page_white, page_scan]"
    by simp
  note T = dropped_only_if_text_and_ocr [where w = example_world
        and filepath = "''/docs/a.pdf''"
        and b = "''%PDF mixed''" and env = example_env
        and doc = "[page_hello, page_white, page_scan]" and v = CleanerBase1
        and page = page_white and file_path = "''/docs/a.pdf''" and page_num = 2
        and poppler_path = None]
  have k: "[page_hello, page_scan]
      = kept_doc example_env ''/docs/a.pdf'' [page_hello, page_white, page_scan]"
    using T h wr by blast
  have tf: "text_flagged ''/docs/a.pdf'' [page_hello, page_white, page_scan] (2 - 1)"
    using T h ra by blast
  have te: "text_empty page_white"
    using T bl by blast
  show ?thesis
    using h wr ra bl k tf te by simp
qed

theorem dropped_without_ocr_counterexample:
  "read_pdf no_poppler_env ''%PDF mixed'' = Inr [page_hello, page_white, page_scan] \<and>
   new_calls example_world
     (process_pdf CleanerBase1 no_poppler_env ''/docs/a.pdf'' None example_world)
   = [Copy ''/docs/a.pdf'' ''/docs/a.pdf.backup'', Open_pdf ''/docs/a.pdf'',
      Rasterize ''/docs/a.pdf'' 2, Rasterize ''/docs/a.pdf'' 3,
      Write_pdf ''/docs/a.pdf.temp'' [page_hello],
      Move ''/docs/a.pdf.temp'' ''/docs/a.pdf'', Remove ''/docs/a.pdf.backup''] \<and>
   files (process_pdf CleanerBase1 no_poppler_env ''/docs/a.pdf'' None example_world)
     ''/docs/a.pdf'' = Some (pdf_bytes example_env [page_hello]) \<and>
   ocr_confirms_blank no_poppler_env ''/docs/a.pdf'' 2 None (poppler_kw None) None = False \<and>
   ocr_confirms_blank no_poppler_env ''/docs/a.pdf'' 3 None (poppler_kw None) None = False"
  by (simp add: no_poppler_run1_mixed ocr_confirms_blank_def)

subsection \<open>C8: the backup after a failed read\<close>

text \<open>
  C8, as amended. When the backup copy succeeds and reading the document fails,
  \<^verbatim>\<open>process_pdf\<close> (\<^verbatim>\<open>CleanerBase1\<close> and \<^verbatim>\<open>CleanerBase2\<close>) shows the error "Failed to read PDF"
  and returns: the original file is untouched, and the backup file it created stays on disk
  with the original's content. No \<^verbatim>\<open>os.remove\<close> is called; the docstring deletes the backup
  "if successful" only.

  The claim as stated says the backup is removed: the counterexample is the file that is
  not a PDF, whose backup did not exist before the call and exists after it.
\<close>

theorem read_failure_keeps_backup:
  "files w file_path = Some b \<and> copy_raises env file_path (backup_path_of file_path) = None \<and>
   read_pdf env b = Inl e \<longrightarrow>
     shown (process_pdf v env file_path poppler_path w)
       = shown w @ [Showerror ''Failed to read PDF'' e] \<and>
     files (process_pdf v env file_path poppler_path w)
       = (files w)(backup_path_of file_path \<mapsto> b) \<and>
     files (process_pdf v env file_path poppler_path w) (backup_path_of file_path) = Some b \<and>
     files (process_pdf v env file_path poppler_path w) file_path = Some b \<and>
     new_calls w (process_pdf v env file_path poppler_path w)
       = [Copy file_path (backup_path_of file_path), Open_pdf file_path]"
proof
  assume h: "files w file_path = Some b \<and>
    copy_raises env file_path (backup_path_of file_path) = None \<and> read_pdf env b = Inl e"
  then have eq: "process_pdf v env file_path poppler_path w =
     w\<lparr>files := (files w)(backup_path_of file_path \<mapsto> b),
       calls := calls w @ [Copy file_path (backup_path_of file_path), Open_pdf file_path],
       shown := shown w @ [Showerror ''Failed to read PDF'' e]\<rparr>"
    using process_pdf_read_fails by blast
  from h have fb: "((files w)(backup_path_of file_path \<mapsto> b)) file_path = Some b"
    by simp
  show "shown (process_pdf v env file_path poppler_path w)
       = shown w @ [Showerror ''Failed to read PDF'' e] \<and>
     files (process_pdf v env file_path poppler_path w)
       = (files w)(backup_path_of file_path \<mapsto> b) \<and>
     files (process_pdf v env file_path poppler_path w) (backup_path_of file_path) = Some b \<and>
     files (process_pdf v env file_path poppler_path w) file_path = Some b \<and>
     new_calls w (process_pdf v env file_path poppler_path w)
       = [Copy file_path (backup_path_of file_path), Open_pdf file_path]"
    unfolding eq using fb by (simp add: new_calls_def fun_upd_same del: fun_upd_apply)
qed

theorem read_failure_keeps_backup_witness:
  "files example_world ''/docs/d.pdf'' = Some ''garbage'' \<and>
   copy_raises example_env ''/docs/d.pdf'' (backup_path_of ''/docs/d.pdf'') = None \<and>
   read_pdf example_env ''garbage'' = Inl (Library_error ''not a PDF'') \<and>
   shown (process_pdf CleanerBase2 example_env ''/docs/d.pdf'' None example_world)
     = [Showerror ''Failed to read PDF'' (Library_error ''not a PDF'')] \<and>
   files (process_pdf CleanerBase2 example_env ''/docs/d.pdf'' None example_world)
     ''/docs/d.pdf.backup'' = Some ''garbage'' \<and>
   files (process_pdf CleanerBase2 example_env ''/docs/d.pdf'' None example_world)
     ''/docs/d.pdf'' = Some ''garbage''"
  using read_failure_keeps_backup [where w = example_world and file_path = "''/docs/d.pdf''"
      and b = "''garbage''" and env = example_env and e = "Library_error ''not a PDF''"
      and v = CleanerBase2 and poppler_path = None]
  by (simp add: backup_path_d)

theorem read_failure_backup_counterexample:
  "files example_world ''/docs/d.pdf.backup'' = None \<and>
   shown (process_pdf CleanerBase1 example_env ''/docs/d.pdf'' None example_world)
     = [Showerror ''Failed to read PDF'' (Library_error ''not a PDF'')] \<and>
   files (process_pdf CleanerBase1 example_env ''/docs/d.pdf'' None example_world)
     ''/docs/d.pdf.backup'' = Some ''garbage'' \<and>
   Remove ''/docs/d.pdf.backup''
     \<notin> set (calls (process_pdf CleanerBase1 example_env ''/docs/d.pdf'' None example_world))"
proof -
  have eq: "process_pdf CleanerBase1 example_env ''/docs/d.pdf'' None example_world =
     example_world\<lparr>files := (files example_world)(''/docs/d.pdf.backup'' \<mapsto> ''garbage''),
       calls := calls example_world @ [Copy ''/docs/d.pdf'' ''/docs/d.pdf.backup'',
                                        Open_pdf ''/docs/d.pdf''],
       shown := shown example_world @
                  [Showerror ''Failed to read PDF'' (Library_error ''not a PDF'')]\<rparr>"
    using process_pdf_read_fails [of example_world "''/docs/d.pdf''" "''garbage''" example_env
        "Library_error ''not a PDF''" CleanerBase1 None]
    by (simp add: backup_path_d)
  have "files example_world ''/docs/d.pdf.backup'' = None"
    by (simp add: example_world_def)
  then show ?thesis
    unfolding eq by simp
qed

subsection \<open>C9: cancellation between files\<close>

text \<open>
  C9. The loop of \<^verbatim>\<open>CleanerBase.process_files\<close> reads the flag before each file: with the
  flag set it leaves the world as it is, so no further file is opened or processed. For a
  folder with at least one PDF file, let \<open>k\<close> be the number of leading checks at which the
  flag is still unset. The files opened are the first \<open>k\<close> of the list, in order; the log
  holds one line for each of them, in order, and nothing else; this is a prefix of the list,
  and a strict prefix with the flag set at the end whenever \<open>k\<close> is less than the number of
  files; and \<open>k\<close> is at most the position of any check at which the flag is set.
\<close>

theorem cancellation_gives_prefix:
  "(stop_requested w \<longrightarrow> process_files_loop env i fs w = w) \<and>
   (pdf_files env folder_path \<noteq> [] \<longrightarrow>
     (let paths = pdf_files env folder_path;
          k = stop_index env (stop_requested w) 0 (length paths);
          w' = process_files env folder_path w
      in opened_files (new_calls w w') = take k paths \<and>
         map log_name (log_file w') = map os_path_basename (take k paths) \<and>
         prefix (take k paths) paths \<and>
         (k < length paths \<longrightarrow> strict_prefix (take k paths) paths \<and> stop_requested w') \<and>
         (\<forall>j < length paths.
            stop_requested w \<or> list_ex (stop_pressed env) [0..<j] \<longrightarrow> k \<le> j)))"
proof (intro conjI impI)
  assume "stop_requested w"
  then show "process_files_loop env i fs w = w" by simp
next
  assume ne: "pdf_files env folder_path \<noteq> []"
  define paths where "paths = pdf_files env folder_path"
  define k where "k = stop_index env (stop_requested w) 0 (length paths)"
  define w' where "w' = process_files env folder_path w"
  note r = process_files_run [OF ne, of w]
  have a: "opened_files (new_calls w w') = take k paths"
    unfolding paths_def k_def w'_def using r(1) .
  have b: "map log_name (log_file w') = map os_path_basename (take k paths)"
    unfolding paths_def k_def w'_def using r(2) .
  have r3: "stop_requested w' =
      (stop_requested w \<or> list_ex (stop_pressed env) [0..<k])"
    unfolding paths_def k_def w'_def using r(3) .
  have c: "prefix (take k paths) paths"
    by (rule take_is_prefix)
  have d: "k < length paths \<longrightarrow> strict_prefix (take k paths) paths \<and> stop_requested w'"
  proof
    assume lt: "k < length paths"
    then have "length (take k paths) \<noteq> length paths" by simp
    then have "take k paths \<noteq> paths" by metis
    then have sp: "strict_prefix (take k paths) paths"
      using c by (simp add: strict_prefix_def)
    have "stop_requested w \<or> list_ex (stop_pressed env) [0..<0 + k]"
      using stop_index_flag [of env "stop_requested w" 0 "length paths"] lt
      unfolding k_def by blast
    then have "stop_requested w'"
      using r3 by simp
    with sp show "strict_prefix (take k paths) paths \<and> stop_requested w'" by blast
  qed
  have e: "\<forall>j < length paths.
            stop_requested w \<or> list_ex (stop_pressed env) [0..<j] \<longrightarrow> k \<le> j"
    using stop_index_first [of _ "length paths" "stop_requested w" env 0]
    unfolding k_def by simp
  show "let paths = pdf_files env folder_path;
          k = stop_index env (stop_requested w) 0 (length paths);
          w' = process_files env folder_path w
      in opened_files (new_calls w w') = take k paths \<and>
         map log_name (log_file w') = map os_path_basename (take k paths) \<and>
         prefix (take k paths) paths \<and>
         (k < length paths \<longrightarrow> strict_prefix (take k paths) paths \<and> stop_requested w') \<and>
         (\<forall>j < length paths.
            stop_requested w \<or> list_ex (stop_pressed env) [0..<j] \<longrightarrow> k \<le> j)"
    unfolding Let_def
    using a b c d e unfolding paths_def k_def w'_def by blast
qed

theorem cancellation_gives_prefix_witness:
  "stop_requested (stop_processing example_world) \<and>
   process_files_loop example_env 0 (pdf_files example_env ''/docs'')
     (stop_processing example_world) = stop_processing example_world \<and>
   pdf_files example_env ''/docs'' \<noteq> [] \<and>
   opened_files (new_calls example_world (process_files example_env ''/docs'' example_world))
     = [''/docs/a.pdf'', ''/docs/B.PDF''] \<and>
   map log_name (log_file (process_files example_env ''/docs'' example_world))
     = [''a.pdf'', ''B.PDF''] \<and>
   strict_prefix [''/docs/a.pdf'', ''/docs/B.PDF''] (pdf_files example_env ''/docs'') \<and>
   stop_requested (process_files example_env ''/docs'' example_world)"
proof -
  have h1: "stop_requested (stop_processing example_world)"
    by (simp add: stop_processing_def)
  have h2: "pdf_files example_env ''/docs'' \<noteq> []"
    by (simp add: example_pdf_files)
  have k: "stop_index example_env (stop_requested example_world) 0
             (length (pdf_files example_env ''/docs'')) = 2"
    by (simp add: example_pdf_files example_stop_index)
  have tk: "take 2 (pdf_files example_env ''/docs'') = [''/docs/a.pdf'', ''/docs/B.PDF'']"
    by (simp add: example_pdf_files)
  have bn: "map os_path_basename [''/docs/a.pdf'', ''/docs/B.PDF''] = [''a.pdf'', ''B.PDF'']"
    by (simp add: os_path_basename_def)
  have lt: "(2::nat) < length (pdf_files example_env ''/docs'')"
    by (simp add: example_pdf_files)
  note T1 = cancellation_gives_prefix [where w = "stop_processing example_world"
      and env = example_env and i = 0 and fs = "pdf_files example_env ''/docs''",
      THEN conjunct1]
  note T2 = cancellation_gives_prefix [where w = example_world and env = example_env
      and folder_path = "''/docs''", THEN conjunct2, rule_format, OF h2,
      unfolded Let_def k tk]
  have a: "process_files_loop example_env 0 (pdf_files example_env ''/docs'')
     (stop_processing example_world) = stop_processing example_world"
    using T1 h1 by blast
  have b: "opened_files (new_calls example_world
             (process_files example_env ''/docs'' example_world))
     = [''/docs/a.pdf'', ''/docs/B.PDF'']"
    using T2 by blast
  have c: "map log_name (log_file (process_files example_env ''/docs'' example_world))
     = [''a.pdf'', ''B.PDF'']"
    using T2 bn by simp
  have d: "strict_prefix [''/docs/a.pdf'', ''/docs/B.PDF''] (pdf_files example_env ''/docs'') \<and>
      stop_requested (process_files example_env ''/docs'' example_world)"
    using T2 lt by blast
  show ?thesis
    using h1 h2 a b c d by blast
qed

subsection \<open>C10: the threshold name is undefined in CleanerBase2\<close>

text \<open>
  C10. In \<^verbatim>\<open>CleanerBase2\<close> the name \<^verbatim>\<open>OCR_TEXT_LENGTH_THRESHOLD\<close> is never assigned. When
  rasterisation and OCR succeed with a text that strips to a non-empty string, the comparison
  raises \<^verbatim>\<open>NameError\<close> inside the \<^verbatim>\<open>try\<close> block; the handler then returns blank. So every
  page whose text layer is missing, empty or whitespace only is classified blank, whatever
  the rasteriser and OCR return or raise.
\<close>

theorem threshold_undefined_all_blank:
  "OCR_TEXT_LENGTH_THRESHOLD CleanerBase2 = Inl (NameError ''OCR_TEXT_LENGTH_THRESHOLD'') \<and>
   (ocr_returns env file_path page_num None (poppler_kw poppler_path) None t \<and> strip t \<noteq> [] \<longrightarrow>
      fst (is_blank_page_try CleanerBase2 env file_path page_num poppler_path w)
        = Inl (NameError ''OCR_TEXT_LENGTH_THRESHOLD'')) \<and>
   (text_empty page \<longrightarrow>
      fst (is_blank_page CleanerBase2 env page file_path page_num poppler_path w) = True)"
proof (intro conjI impI)
  show "OCR_TEXT_LENGTH_THRESHOLD CleanerBase2 = Inl (NameError ''OCR_TEXT_LENGTH_THRESHOLD'')"
    by simp
next
  assume "ocr_returns env file_path page_num None (poppler_kw poppler_path) None t \<and> strip t \<noteq> []"
  then have "ocr_returns env file_path page_num None (poppler_kw poppler_path) None t" "t \<noteq> []"
    by auto
  then show "fst (is_blank_page_try CleanerBase2 env file_path page_num poppler_path w)
        = Inl (NameError ''OCR_TEXT_LENGTH_THRESHOLD'')"
    by (auto simp: ocr_returns_def is_blank_page_try_def Let_def split: sum.splits)
next
  assume "text_empty page"
  then have te: "\<not> (text_layer page \<noteq> None \<and> strip (the (text_layer page)) \<noteq> [])"
    by (auto simp: text_empty_def split: option.splits)
  have "fst (is_blank_page_try CleanerBase2 env file_path page_num poppler_path w) \<noteq> Inr False"
    by (simp add: is_blank_page_try_def Let_def split: sum.splits)
  then show "fst (is_blank_page CleanerBase2 env page file_path page_num poppler_path w) = True"
    using te
    by (cases "is_blank_page_try CleanerBase2 env file_path page_num poppler_path w")
       (auto simp: is_blank_page_def Let_def split: sum.splits)
qed

theorem threshold_undefined_all_blank_witness:
  "ocr_returns example_env ''/docs/a.pdf'' 3 None (poppler_kw None) None ''Scanned text'' \<and>
   strip ''Scanned text'' \<noteq> [] \<and>
   fst (is_blank_page_try CleanerBase2 example_env ''/docs/a.pdf'' 3 None example_world)
     = Inl (NameError ''OCR_TEXT_LENGTH_THRESHOLD'') \<and>
   text_empty page_scan \<and>
   fst (is_blank_page CleanerBase2 example_env page_scan ''/docs/a.pdf'' 3 None example_world)
     = True"
proof -
  have h1: "ocr_returns example_env ''/docs/a.pdf'' 3 None (poppler_kw None) None ''Scanned text''"
    by (simp add: ocr_returns_def example_env_def poppler_kw_def)
  have h2: "strip ''Scanned text'' \<noteq> []"
    by (simp add: strip_scanned)
  have h3: "text_empty page_scan"
    by (simp add: text_empty_def page_scan_def)
  note T = threshold_undefined_all_blank [where env = example_env
      and file_path = "''/docs/a.pdf''" and page_num = 3 and poppler_path = None
      and t = "''Scanned text''" and w = example_world and page = page_scan]
  have a: "fst (is_blank_page_try CleanerBase2 example_env ''/docs/a.pdf'' 3 None example_world)
     = Inl (NameError ''OCR_TEXT_LENGTH_THRESHOLD'')"
    using T h1 h2 by blast
  have b: "fst (is_blank_page CleanerBase2 example_env page_scan ''/docs/a.pdf'' 3 None
                  example_world) = True"
    using T h3 by blast
  show ?thesis using h1 h2 h3 a b by blast
qed

end
